(* ===== verification/Go_Prelude.thy ===== *)
theory Go_Prelude
  imports Main
begin

text \<open>
  What the other theories share: Go's error values and the outcome of a call, the functions of the
  standard packages \<open>strings\<close>, \<open>strconv\<close>, \<open>errors\<close> and \<open>path\<close> that the SDK uses, and the lemmas on
  them that the component proofs rewrite with.

  A Go string is a byte string, hence an Isabelle \<open>string\<close> of 8-bit characters. The case conversion
  and the white space below are those of ASCII; the Unicode white space and letters outside ASCII
  that the Go functions know as well are not modelled.
\<close>

named_theorems outcome_simps \<open>unfolding of calls and their outcomes\<close>
named_theorems string_simps \<open>facts about the string functions\<close>
named_theorems err_simps \<open>facts about error values\<close>


section \<open>Errors\<close>

text \<open>
  An error value keeps the structure that \<open>errors.Is\<close> and the code's own unwrapping look at:
  a package-level variable made by \<open>errors.New\<close> (\<open>Sentinel\<close>, told apart by its text), an error
  without structure (\<open>Msg\<close>), an error of a class of package errdefs with its own text (\<open>Class\<close>),
  \<open>fmt.Errorf\<close> with one or with two \<open>%w\<close> verbs (the literal text around the wrapped
  errors is kept), and \<open>errors.Join\<close>.
\<close>

datatype err =
    Sentinel string
  | Msg string
  | Class string string
  | Wrap string err string
  | Wrap2 string err string err string
  | Join "err list"

abbreviation wrapf :: "string \<Rightarrow> err \<Rightarrow> err" where
  "wrapf what e \<equiv> Wrap (what @ '': '') e ''''"

text \<open>The outcome of a call: its value, its error, or a run-time panic.\<close>

datatype 'a outcome = Ok 'a | Err err | Panic string

fun is_ok :: "'a outcome \<Rightarrow> bool" where
  "is_ok (Ok _) = True"
| "is_ok _ = False"

fun is_panic :: "'a outcome \<Rightarrow> bool" where
  "is_panic (Panic _) = True"
| "is_panic _ = False"

fun outcome_err :: "'a outcome \<Rightarrow> err option" where
  "outcome_err (Err e) = Some e"
| "outcome_err _ = None"

text \<open>\<open>if err != nil { return fmt.Errorf("what: %w", err) }\<close>, and the rest of the function.\<close>

definition then_wrap :: "string \<Rightarrow> 'a outcome \<Rightarrow> ('a \<Rightarrow> 'b outcome) \<Rightarrow> 'b outcome" where
  "then_wrap what r k =
     (case r of Ok x \<Rightarrow> k x | Err e \<Rightarrow> Err (wrapf what e) | Panic p \<Rightarrow> Panic p)"

text \<open>\<open>if err != nil { return err }\<close>, and the rest of the function.\<close>

definition then_do :: "'a outcome \<Rightarrow> ('a \<Rightarrow> 'b outcome) \<Rightarrow> 'b outcome" where
  "then_do r k = (case r of Ok x \<Rightarrow> k x | Err e \<Rightarrow> Err e | Panic p \<Rightarrow> Panic p)"

lemma then_wrap_simps [simp]:
  "then_wrap what (Ok x) k = k x"
  "then_wrap what (Err e) k = Err (wrapf what e)"
  "then_wrap what (Panic p) k = Panic p"
  by (simp_all add: then_wrap_def)

lemma then_do_simps [simp]:
  "then_do (Ok x) k = k x"
  "then_do (Err e) k = Err e"
  "then_do (Panic p) k = Panic p"
  by (simp_all add: then_do_def)

lemma then_wrap_Ok_iff [outcome_simps]:
  "then_wrap what r k = Ok y \<longleftrightarrow> (\<exists>x. r = Ok x \<and> k x = Ok y)"
  by (cases r) auto

lemma then_do_Ok_iff [outcome_simps]:
  "then_do r k = Ok y \<longleftrightarrow> (\<exists>x. r = Ok x \<and> k x = Ok y)"
  by (cases r) auto

lemma is_ok_iff [outcome_simps]: "is_ok r \<longleftrightarrow> (\<exists>x. r = Ok x)"
  by (cases r) auto

text \<open>
  Calls on a state: the functions of the SDK that call the Docker client or change an object return
  the outcome and the new state. \<open>st_wrap\<close> and \<open>st_do\<close> sequence them as the two forms above do.
\<close>

definition st_wrap ::
    "string \<Rightarrow> 'a outcome \<times> 's \<Rightarrow> ('a \<Rightarrow> 's \<Rightarrow> 'b outcome \<times> 's) \<Rightarrow> 'b outcome \<times> 's" where
  "st_wrap what c k =
     (case c of (Ok x, s) \<Rightarrow> k x s | (Err e, s) \<Rightarrow> (Err (wrapf what e), s) | (Panic p, s) \<Rightarrow> (Panic p, s))"

definition st_do ::
    "'a outcome \<times> 's \<Rightarrow> ('a \<Rightarrow> 's \<Rightarrow> 'b outcome \<times> 's) \<Rightarrow> 'b outcome \<times> 's" where
  "st_do c k = (case c of (Ok x, s) \<Rightarrow> k x s | (Err e, s) \<Rightarrow> (Err e, s) | (Panic p, s) \<Rightarrow> (Panic p, s))"

lemma st_wrap_simps [simp]:
  "st_wrap what (Ok x, s) k = k x s"
  "st_wrap what (Err e, s) k = (Err (wrapf what e), s)"
  "st_wrap what (Panic p, s) k = (Panic p, s)"
  by (simp_all add: st_wrap_def)

lemma st_do_simps [simp]:
  "st_do (Ok x, s) k = k x s"
  "st_do (Err e, s) k = (Err e, s)"
  "st_do (Panic p, s) k = (Panic p, s)"
  by (simp_all add: st_do_def)

lemma st_wrap_Ok_iff [outcome_simps]:
  "st_wrap what c k = (Ok y, t) \<longleftrightarrow> (\<exists>x s. c = (Ok x, s) \<and> k x s = (Ok y, t))"
  by (cases c; cases "fst c") auto

lemma st_do_Ok_iff [outcome_simps]:
  "st_do c k = (Ok y, t) \<longleftrightarrow> (\<exists>x s. c = (Ok x, s) \<and> k x s = (Ok y, t))"
  by (cases c; cases "fst c") auto

text \<open>\<open>errors.Is\<close> against a package-level error variable.\<close>

fun errors_is :: "err \<Rightarrow> string \<Rightarrow> bool" where
  "errors_is (Sentinel s) t = (s = t)"
| "errors_is (Msg m) t = False"
| "errors_is (Class k m) t = (k = t)"
| "errors_is (Wrap a e b) t = errors_is e t"
| "errors_is (Wrap2 a e b f c) t = (errors_is e t \<or> errors_is f t)"
| "errors_is (Join es) t = (\<exists>e\<in>set es. errors_is e t)"

text \<open>\<open>errors.Join\<close>: nil errors are dropped, and it is nil when nothing is left.\<close>

fun somes :: "'a option list \<Rightarrow> 'a list" where
  "somes [] = []"
| "somes (None # xs) = somes xs"
| "somes (Some x # xs) = x # somes xs"

definition errors_join :: "err option list \<Rightarrow> err option" where
  "errors_join xs = (case somes xs of [] \<Rightarrow> None | e # es \<Rightarrow> Some (Join (e # es)))"

lemma set_somes [simp]: "set (somes xs) = {x. Some x \<in> set xs}"
  by (induction xs rule: somes.induct) auto

lemma somes_append [simp]: "somes (xs @ ys) = somes xs @ somes ys"
  by (induction xs rule: somes.induct) auto

lemma somes_Nil_iff [simp]: "somes xs = [] \<longleftrightarrow> (\<forall>x\<in>set xs. x = None)"
  by (induction xs rule: somes.induct) auto

lemma somes_map_Some [simp]: "somes (map Some xs) = xs"
  by (induction xs) auto

lemma errors_join_None_iff [simp, err_simps]: "errors_join xs = None \<longleftrightarrow> (\<forall>x\<in>set xs. x = None)"
proof -
  have "errors_join xs = None \<longleftrightarrow> somes xs = []"
    by (cases "somes xs") (simp_all add: errors_join_def del: somes_Nil_iff)
  then show ?thesis by simp
qed

lemma errors_join_Some [err_simps]: "errors_join xs = Some e \<Longrightarrow> e = Join (somes xs) \<and> somes xs \<noteq> []"
  by (cases "somes xs") (simp_all add: errors_join_def del: somes_Nil_iff)

lemma errors_join_empty [simp]: "errors_join [] = None"
  by simp


section \<open>Strings\<close>

fun intercalate :: "string \<Rightarrow> string list \<Rightarrow> string" where
  "intercalate sep [] = ''''"
| "intercalate sep [x] = x"
| "intercalate sep (x # y # ys) = x @ sep @ intercalate sep (y # ys)"

text \<open>The text of an error, as \<open>Error()\<close> gives it.\<close>

fun err_text :: "err \<Rightarrow> string" where
  "err_text (Sentinel s) = s"
| "err_text (Msg m) = m"
| "err_text (Class k m) = m"
| "err_text (Wrap a e b) = a @ err_text e @ b"
| "err_text (Wrap2 a e b f c) = a @ err_text e @ b @ err_text f @ c"
| "err_text (Join es) = intercalate ''\<newline>'' (map err_text es)"

fun has_prefix :: "string \<Rightarrow> string \<Rightarrow> bool" where
  "has_prefix s [] = True"
| "has_prefix [] (p # ps) = False"
| "has_prefix (c # s) (p # ps) = (c = p \<and> has_prefix s ps)"

definition has_suffix :: "string \<Rightarrow> string \<Rightarrow> bool" where
  "has_suffix s p = has_prefix (rev s) (rev p)"

definition trim_prefix :: "string \<Rightarrow> string \<Rightarrow> string" where
  "trim_prefix s p = (if has_prefix s p then drop (length p) s else s)"

definition trim_suffix :: "string \<Rightarrow> string \<Rightarrow> string" where
  "trim_suffix s p = (if has_suffix s p then take (length s - length p) s else s)"

fun contains :: "string \<Rightarrow> string \<Rightarrow> bool" where
  "contains [] p = (p = [])"
| "contains (c # s) p = (has_prefix (c # s) p \<or> contains s p)"

text \<open>\<open>strings.IndexByte\<close>, \<open>None\<close> for -1.\<close>

fun index_byte :: "string \<Rightarrow> char \<Rightarrow> nat option" where
  "index_byte [] c = None"
| "index_byte (x # xs) c = (if x = c then Some 0 else map_option Suc (index_byte xs c))"

text \<open>\<open>strings.Cut\<close> at a one-byte separator: the part before, the part after, if it occurs.\<close>

definition cut_at :: "char \<Rightarrow> string \<Rightarrow> (string \<times> string) option" where
  "cut_at c s = (case index_byte s c of None \<Rightarrow> None | Some i \<Rightarrow> Some (take i s, drop (Suc i) s))"

text \<open>\<open>strings.Split\<close> at a one-byte separator: never empty.\<close>

fun split_on :: "char \<Rightarrow> string \<Rightarrow> string list" where
  "split_on c [] = [[]]"
| "split_on c (x # xs) =
     (if x = c then [] # split_on c xs
      else case split_on c xs of [] \<Rightarrow> [[x]] | y # ys \<Rightarrow> (x # y) # ys)"

definition upper_char :: "char \<Rightarrow> char" where
  "upper_char c = (let n = of_char c :: nat in if 97 \<le> n \<and> n \<le> 122 then char_of (n - 32) else c)"

definition lower_char :: "char \<Rightarrow> char" where
  "lower_char c = (let n = of_char c :: nat in if 65 \<le> n \<and> n \<le> 90 then char_of (n + 32) else c)"

definition to_upper :: "string \<Rightarrow> string" where
  "to_upper s = map upper_char s"

definition to_lower :: "string \<Rightarrow> string" where
  "to_lower s = map lower_char s"

definition is_space :: "char \<Rightarrow> bool" where
  "is_space c = (let n = of_char c :: nat in n = 32 \<or> (9 \<le> n \<and> n \<le> 13))"

definition trim_space :: "string \<Rightarrow> string" where
  "trim_space s = rev (dropWhile is_space (rev (dropWhile is_space s)))"

lemma has_prefix_iff [string_simps]: "has_prefix s p \<longleftrightarrow> (\<exists>t. s = p @ t)"
  by (induction s p rule: has_prefix.induct) auto

lemma has_prefix_append [simp]: "has_prefix (p @ s) p"
  by (induction p) auto

lemma has_prefix_refl [simp]: "has_prefix p p"
  by (induction p) auto

lemma has_suffix_append [simp]: "has_suffix (s @ p) p"
  by (simp add: has_suffix_def)

lemma trim_prefix_append [simp]: "trim_prefix (p @ s) p = s"
  by (simp add: trim_prefix_def)

lemma index_byte_None [simp]: "index_byte s c = None \<longleftrightarrow> c \<notin> set s"
  by (induction s) auto

lemma index_byte_append [simp]: "c \<notin> set s \<Longrightarrow> index_byte (s @ c # t) c = Some (length s)"
  by (induction s) auto

lemma index_byte_Some:
  "index_byte s c = Some i \<Longrightarrow> i < length s \<and> s = take i s @ c # drop (Suc i) s \<and> c \<notin> set (take i s)"
proof (induction s arbitrary: i)
  case Nil
  then show ?case by simp
next
  case (Cons x xs)
  show ?case
  proof (cases "x = c")
    case True
    with Cons.prems show ?thesis by simp
  next
    case False
    with Cons.prems obtain j where "index_byte xs c = Some j" and "i = Suc j" by auto
    with Cons.IH [of j] False show ?thesis by simp
  qed
qed

lemma cut_at_append [simp]: "c \<notin> set s \<Longrightarrow> cut_at c (s @ c # t) = Some (s, t)"
  by (simp add: cut_at_def)

lemma cut_at_None [simp]: "cut_at c s = None \<longleftrightarrow> c \<notin> set s"
proof -
  have "cut_at c s = None \<longleftrightarrow> index_byte s c = None"
    by (simp add: cut_at_def del: index_byte_None split: option.split)
  then show ?thesis by simp
qed

lemma cut_at_Some: "cut_at c s = Some (a, b) \<Longrightarrow> s = a @ c # b \<and> c \<notin> set a"
  using index_byte_Some [of s c] by (auto simp: cut_at_def simp del: index_byte_None split: option.splits)

lemma split_on_not_Nil [simp]: "split_on c s \<noteq> []"
  by (induction s) (auto split: list.splits)

lemma split_on_single [simp]: "c \<notin> set s \<Longrightarrow> split_on c s = [s]"
  by (induction s) auto

lemma split_on_append [simp]: "c \<notin> set s \<Longrightarrow> split_on c (s @ c # t) = s # split_on c t"
  by (induction s) auto

lemma intercalate_split_on: "intercalate [c] (split_on c s) = s"
proof (induction s)
  case Nil
  then show ?case by simp
next
  case (Cons x xs)
  obtain y ys where y: "split_on c xs = y # ys"
    by (cases "split_on c xs") auto
  with Cons.IH show ?case by (cases ys) auto
qed


section \<open>Decimal numbers\<close>

fun digit_char :: "nat \<Rightarrow> char" where
  "digit_char d = char_of (48 + d)"

fun show_nat :: "nat \<Rightarrow> string" where
  "show_nat n = (if n < 10 then [digit_char n] else show_nat (n div 10) @ [digit_char (n mod 10)])"

declare show_nat.simps [simp del]

text \<open>\<open>%03d\<close> of a non-negative number.\<close>

definition pad3 :: "nat \<Rightarrow> string" where
  "pad3 n = (let s = show_nat n in replicate (3 - length s) (CHR ''0'') @ s)"

definition digit_val :: "char \<Rightarrow> nat option" where
  "digit_val c = (let n = of_char c :: nat in if 48 \<le> n \<and> n \<le> 57 then Some (n - 48) else None)"

text \<open>The number that a string of digits denotes, most significant digit first.\<close>

fun digits_val :: "nat \<Rightarrow> string \<Rightarrow> nat option" where
  "digits_val acc [] = Some acc"
| "digits_val acc (c # cs) =
     (case digit_val c of None \<Rightarrow> None | Some d \<Rightarrow> digits_val (10 * acc + d) cs)"

lemma digit_val_digit_char [simp]: "d < 10 \<Longrightarrow> digit_val (digit_char d) = Some d"
  by (simp add: digit_val_def Let_def)

lemma digits_val_append:
  "digits_val a (xs @ ys) = (case digits_val a xs of None \<Rightarrow> None | Some b \<Rightarrow> digits_val b ys)"
  by (induction xs arbitrary: a) (auto split: option.split)

lemma digits_val_show_nat [simp]: "digits_val 0 (show_nat n) = Some n"
proof (induction n rule: show_nat.induct)
  case (1 n)
  show ?case
  proof (cases "n < 10")
    case True
    then show ?thesis by (subst show_nat.simps) (simp del: digit_char.simps)
  next
    case False
    with 1 show ?thesis
      by (subst show_nat.simps) (simp add: digits_val_append del: digit_char.simps)
  qed
qed

lemma show_nat_inj [simp]: "show_nat m = show_nat n \<longleftrightarrow> m = n"
  by (metis digits_val_show_nat option.inject)

lemma show_nat_not_Nil [simp]: "show_nat n \<noteq> []"
  by (subst show_nat.simps) simp

lemma digits_val_zeros [simp]: "digits_val 0 (replicate k (CHR ''0'') @ s) = digits_val 0 s"
  by (induction k) (simp_all add: digit_val_def)

lemma digits_val_pad3 [simp]: "digits_val 0 (pad3 n) = Some n"
  by (simp add: pad3_def Let_def)

lemma pad3_inj [simp]: "pad3 m = pad3 n \<longleftrightarrow> m = n"
  by (metis digits_val_pad3 option.inject)

lemma pad3_not_Nil [simp]: "pad3 n \<noteq> []"
  by (simp add: pad3_def Let_def)

lemma digits_val_all_digits: "digits_val a s = Some n \<Longrightarrow> c \<in> set s \<Longrightarrow> digit_val c \<noteq> None"
  by (induction a s rule: digits_val.induct) (auto split: option.splits)

lemma pad3_digits: "c \<in> set (pad3 n) \<Longrightarrow> digit_val c \<noteq> None"
  using digits_val_all_digits [OF digits_val_pad3] by blast

lemma pad3_no_dash [simp]: "CHR ''-'' \<notin> set (pad3 n)"
  using pad3_digits [of "CHR ''-''" n] by (auto simp: digit_val_def)

lemma pad3_no_slash [simp]: "CHR ''/'' \<notin> set (pad3 n)"
  using pad3_digits [of "CHR ''/''" n] by (auto simp: digit_val_def)

text \<open>\<open>%q\<close> of a text of printable ASCII characters.\<close>

fun escape_q :: "string \<Rightarrow> string" where
  "escape_q [] = []"
| "escape_q (c # s) =
     (if c = CHR 0x22 \<or> c = CHR 0x5C then CHR 0x5C # c # escape_q s
      else if c = CHR 0x0A then CHR 0x5C # CHR ''n'' # escape_q s
      else c # escape_q s)"

definition show_q :: "string \<Rightarrow> string" where
  "show_q s = CHR 0x22 # escape_q s @ [CHR 0x22]"


section \<open>Maps\<close>

text \<open>
  A Go map is a partial function. Where the code may hold a nil map, it is an option whose \<open>None\<close> is
  nil: reading a nil map is reading an empty one, writing to it panics.
\<close>

type_synonym 'v smap = "string \<rightharpoonup> 'v"

definition nilmap_read :: "'v smap option \<Rightarrow> 'v smap" where
  "nilmap_read m = (case m of None \<Rightarrow> Map.empty | Some f \<Rightarrow> f)"

definition nilmap_write :: "'v smap option \<Rightarrow> string \<Rightarrow> 'v \<Rightarrow> 'v smap option outcome" where
  "nilmap_write m k v =
     (case m of None \<Rightarrow> Panic ''assignment to entry in nil map'' | Some f \<Rightarrow> Ok (Some (f(k \<mapsto> v))))"

lemma nilmap_read_simps [simp]: "nilmap_read None = Map.empty" "nilmap_read (Some f) = f"
  by (simp_all add: nilmap_read_def)

lemma nilmap_write_simps [simp]:
  "nilmap_write None k v = Panic ''assignment to entry in nil map''"
  "nilmap_write (Some f) k v = Ok (Some (f(k \<mapsto> v)))"
  by (simp_all add: nilmap_write_def)

end
