(* ===== verification/Registry_Auth.thy ===== *)
theory Registry_Auth
  imports Go_Prelude
begin

text \<open>
  Package \<open>config/auth\<close> (image references and registry host names) and the legacy base64
  credentials of \<open>config/config.go\<close>. The reference parser is a third-party package: \<open>parse_any\<close>
  stands for \<open>reference.ParseAnyReference\<close>, whose result tells which of the interfaces
  \<open>Named\<close>, \<open>Tagged\<close> and \<open>Digested\<close> the reference has. \<open>encoding/base64\<close> is modelled here.
\<close>

text \<open>\<open>registry.AuthConfig\<close>, which \<open>config.AuthConfig\<close> aliases.\<close>

record auth_config =
  ac_Username :: string
  ac_Password :: string
  ac_Auth :: string
  ac_ServerAddress :: string
  ac_IdentityToken :: string
  ac_RegistryToken :: string

definition empty_auth :: auth_config where
  "empty_auth = \<lparr>ac_Username = '''', ac_Password = '''', ac_Auth = '''', ac_ServerAddress = '''',
     ac_IdentityToken = '''', ac_RegistryToken = ''''\<rparr>"


section \<open>Image references\<close>

record any_reference =
  ref_named :: "(string \<times> string) option"
  ref_tagged :: "string option"
  ref_digested :: "string option"

record image_reference =
  ir_Registry :: string
  ir_Repository :: string
  ir_Tag :: string
  ir_Digest :: string

definition empty_ref :: image_reference where
  "empty_ref = \<lparr>ir_Registry = '''', ir_Repository = '''', ir_Tag = '''', ir_Digest = ''''\<rparr>"

definition ParseImageRef ::
    "(string \<Rightarrow> any_reference outcome) \<Rightarrow> string \<Rightarrow> image_reference outcome" where
  "ParseImageRef parse_any imageRef =
     then_wrap ''parse image ref'' (parse_any imageRef) (\<lambda>ref.
       let r0 = empty_ref;
           r1 = (case ref_named ref of
                   Some (domain, p) \<Rightarrow> r0\<lparr>ir_Registry := domain, ir_Repository := p\<rparr>
                 | None \<Rightarrow> r0);
           r2 = (case ref_tagged ref of Some t \<Rightarrow> r1\<lparr>ir_Tag := t\<rparr> | None \<Rightarrow> r1);
           r3 = (case ref_digested ref of Some d \<Rightarrow> r2\<lparr>ir_Digest := d\<rparr> | None \<Rightarrow> r2)
       in Ok r3)"

definition IndexDockerIO :: string where
  "IndexDockerIO = ''https://index.docker.io/v1/''"

definition DockerRegistry :: string where
  "DockerRegistry = ''docker.io''"

definition hub_aliases :: "string list" where
  "hub_aliases =
     [''index.docker.io'', ''docker.io'', IndexDockerIO, ''registry-1.docker.io'',
      ''index.docker.io/v1'', ''index.docker.io/v1/'']"

definition ResolveRegistryHost :: "string \<Rightarrow> string" where
  "ResolveRegistryHost host = (if host \<in> set hub_aliases then IndexDockerIO else host)"

lemma ResolveRegistryHost_idem [simp]:
  "ResolveRegistryHost (ResolveRegistryHost host) = ResolveRegistryHost host"
  by (simp add: ResolveRegistryHost_def hub_aliases_def)


section \<open>Base64\<close>

text \<open>
  \<open>base64.StdEncoding\<close>: line breaks are skipped, padding is required, and nothing may follow the
  padding. A group of two or three digits yields one or two bytes; the spare low bits are dropped.
\<close>

definition b64_digit :: "nat \<Rightarrow> char" where
  "b64_digit i =
     (if i < 26 then char_of (65 + i)
      else if i < 52 then char_of (71 + i)
      else if i < 62 then char_of (i - 4)
      else if i = 62 then CHR ''+'' else CHR ''/'')"

definition b64_value :: "char \<Rightarrow> nat option" where
  "b64_value c =
     (let n = of_char c :: nat in
      if 65 \<le> n \<and> n \<le> 90 then Some (n - 65)
      else if 97 \<le> n \<and> n \<le> 122 then Some (n - 71)
      else if 48 \<le> n \<and> n \<le> 57 then Some (n + 4)
      else if n = 43 then Some 62
      else if n = 47 then Some 63
      else None)"

definition byte_at :: "nat \<Rightarrow> char" where
  "byte_at n = char_of (n mod 256)"

fun b64_groups :: "string \<Rightarrow> string option" where
  "b64_groups [] = Some []"
| "b64_groups (a # b # c # d # rest) =
     (case (b64_value a, b64_value b) of
        (Some x, Some y) \<Rightarrow>
          if c = CHR ''='' then
            (if d = CHR ''='' \<and> rest = [] then Some [byte_at (4 * x + y div 16)] else None)
          else (case b64_value c of
            None \<Rightarrow> None
          | Some z \<Rightarrow>
              if d = CHR ''='' then
                (if rest = [] then Some [byte_at (4 * x + y div 16), byte_at (16 * y + z div 4)] else None)
              else (case b64_value d of
                None \<Rightarrow> None
              | Some w \<Rightarrow>
                  map_option
                    (\<lambda>r. byte_at (4 * x + y div 16) # byte_at (16 * y + z div 4) # byte_at (64 * z + w) # r)
                    (b64_groups rest)))
      | _ \<Rightarrow> None)"
| "b64_groups _ = None"

definition b64_decode :: "string \<Rightarrow> string option" where
  "b64_decode s = b64_groups (filter (\<lambda>c. c \<noteq> CHR 0x0A \<and> c \<noteq> CHR 0x0D) s)"

text \<open>The encoder with which the credentials were written, as the reference for the decoder.\<close>

fun b64_encode :: "string \<Rightarrow> string" where
  "b64_encode [] = []"
| "b64_encode [p] =
     (let a = of_char p :: nat in [b64_digit (a div 4), b64_digit ((a mod 4) * 16), CHR ''='', CHR ''=''])"
| "b64_encode [p, q] =
     (let a = of_char p :: nat; b = of_char q :: nat in
      [b64_digit (a div 4), b64_digit ((a mod 4) * 16 + b div 16), b64_digit ((b mod 16) * 4), CHR ''=''])"
| "b64_encode (p # q # r # rest) =
     (let a = of_char p :: nat; b = of_char q :: nat; c = of_char r :: nat in
      b64_digit (a div 4) # b64_digit ((a mod 4) * 16 + b div 16) #
      b64_digit ((b mod 16) * 4 + c div 64) # b64_digit (c mod 64) # b64_encode rest)"

lemma b64_value_digit [simp]: "i < 64 \<Longrightarrow> b64_value (b64_digit i) = Some i"
  by (auto simp: b64_digit_def b64_value_def Let_def)

lemma b64_digit_no_break:
  assumes "i < 64"
  shows "b64_digit i \<noteq> CHR 0x0A" and "b64_digit i \<noteq> CHR 0x0D" and "b64_digit i \<noteq> CHR ''=''"
proof -
  have *: "b64_value (b64_digit i) = Some i" using assms by simp
  show "b64_digit i \<noteq> CHR 0x0A" using * by (auto simp: b64_value_def)
  show "b64_digit i \<noteq> CHR 0x0D" using * by (auto simp: b64_value_def)
  show "b64_digit i \<noteq> CHR ''=''" using * by (auto simp: b64_value_def)
qed

lemma byte_at_of_char [simp]: "byte_at (of_char c) = c" "byte_at (of_char c + 256 * k) = c"
  by (simp_all add: byte_at_def)

lemma of_char_div_256 [simp]: "(of_char c :: nat) div 16 div 16 = 0" "(of_char c :: nat) div 64 div 4 = 0"
  using nat_of_char_less_256 [of c] by linarith+

text \<open>The arithmetic of one group: its digits are below 64 and give the bytes back.\<close>

lemma b64_digits_bound [simp]:
  "(of_char p :: nat) div 4 < 64"
  "(of_char p :: nat) mod 4 * 16 < 64"
  "(of_char p :: nat) mod 4 * 16 + of_char q div 16 < 64"
  "(of_char q :: nat) mod 16 * 4 < 64"
  "(of_char q :: nat) mod 16 * 4 + of_char r div 64 < 64"
  "(of_char r :: nat) mod 64 < 64"
  using nat_of_char_less_256 [of p] nat_of_char_less_256 [of q] nat_of_char_less_256 [of r]
  by linarith+

lemma b64_byte1: "a < 256 \<Longrightarrow> b < 256 \<Longrightarrow> byte_at (4 * (a div 4) + (a mod 4 * 16 + b div 16) div 16) = char_of (a::nat)"
proof -
  assume "a < 256" and "b < 256"
  then have "(a mod 4 * 16 + b div 16) div 16 = a mod 4" by simp
  with \<open>a < 256\<close> show ?thesis by (simp add: byte_at_def mult_div_mod_eq)
qed

lemma b64_byte2:
  assumes "a < 256" and "b < 256" and "c < 256"
  shows "byte_at (16 * (a mod 4 * 16 + b div 16) + (b mod 16 * 4 + c div 64) div 4) = char_of (b::nat)"
proof -
  have "(b mod 16 * 4 + c div 64) div 4 = b mod 16" using assms by simp
  then have "16 * (a mod 4 * 16 + b div 16) + (b mod 16 * 4 + c div 64) div 4
      = 256 * (a mod 4) + b"
    by (simp add: algebra_simps mult_div_mod_eq)
  with \<open>b < 256\<close> show ?thesis by (simp add: byte_at_def)
qed

lemma b64_byte3:
  assumes "b < 256" and "c < 256"
  shows "byte_at (64 * (b mod 16 * 4 + c div 64) + c mod 64) = char_of (c::nat)"
proof -
  have "64 * (b mod 16 * 4 + c div 64) + c mod 64 = 256 * (b mod 16) + c"
    by (simp add: algebra_simps mult_div_mod_eq)
  with \<open>c < 256\<close> show ?thesis by (simp add: byte_at_def)
qed

lemma b64_byte1_last: "a < 256 \<Longrightarrow> byte_at (4 * (a div 4) + (a mod 4 * 16) div 16) = char_of (a::nat)"
  using b64_byte1 [of a 0] by simp

lemma b64_byte2_last:
  "a < 256 \<Longrightarrow> b < 256 \<Longrightarrow>
     byte_at (16 * (a mod 4 * 16 + b div 16) + (b mod 16 * 4) div 4) = char_of (b::nat)"
  using b64_byte2 [of a b 0] by simp

lemma b64_groups_encode: "b64_groups (b64_encode s) = Some s"
proof (induction s rule: b64_encode.induct)
  case (2 p)
  show ?case
    by (simp add: Let_def b64_byte1_last)
next
  case (3 p q)
  show ?case
    by (simp add: Let_def b64_digit_no_break b64_byte1 b64_byte2_last)
next
  case (4 p q r rest)
  then show ?case
    by (simp add: Let_def b64_digit_no_break b64_byte1 b64_byte2 b64_byte3)
qed simp

lemma b64_encode_no_break: "filter (\<lambda>c. c \<noteq> CHR 0x0A \<and> c \<noteq> CHR 0x0D) (b64_encode s) = b64_encode s"
  by (induction s rule: b64_encode.induct) (simp_all add: Let_def b64_digit_no_break)

lemma b64_decode_encode: "b64_decode (b64_encode s) = Some s"
  unfolding b64_decode_def b64_encode_no_break by (rule b64_groups_encode)

lemma b64_encode_Nil [simp]: "b64_encode s = [] \<longleftrightarrow> s = []"
  by (induction s rule: b64_encode.induct) (simp_all add: Let_def)


section \<open>Legacy credentials\<close>

definition decodeBase64Auth :: "auth_config \<Rightarrow> (string \<times> string) outcome" where
  "decodeBase64Auth auth =
     (if ac_Auth auth = '''' then Ok ('''', '''')
      else case b64_decode (ac_Auth auth) of
        None \<Rightarrow> Err (wrapf ''decode auth'' (Msg ''illegal base64 data''))
      | Some decoded \<Rightarrow>
          (case cut_at (CHR '':'') decoded of
             None \<Rightarrow> Err (Msg (''invalid auth: missing '' @ show_q '':'' @ '' separator''))
           | Some (user, pass) \<Rightarrow> Ok (user, pass)))"

end
