(* ===== verification/File_Tree.thy ===== *)
theory File_Tree
  imports Go_Prelude "HOL-Library.List_Lexorder" "HOL-Library.Char_ord"
begin

text \<open>
  The part of packages \<open>os\<close> and \<open>path/filepath\<close> that the config and context packages use, on a tree of
  directories: \<open>Stat\<close>, \<open>ReadFile\<close>, \<open>WriteFile\<close>, \<open>MkdirAll\<close>, \<open>RemoveAll\<close>. A path is the list of its
  components after \<open>filepath.Clean\<close>; the working directory is the root of the tree. Permissions,
  symbolic links and concurrent changes of the disk are not modelled. The locale \<open>file_store\<close> is the
  interface that the context store relies on; it is interpreted here on the tree.
\<close>

type_synonym path = "string list"

datatype node = FileN string | DirN "(string \<times> node) list"

datatype os_err = ENOENT | ENOTDIR | EISDIR

definition os_error :: "os_err \<Rightarrow> err" where
  "os_error e =
     (case e of ENOENT \<Rightarrow> Wrap ''open: '' (Sentinel ''file does not exist'') ''''
      | ENOTDIR \<Rightarrow> Msg ''not a directory'' | EISDIR \<Rightarrow> Msg ''is a directory'')"

fun clean_steps :: "path \<Rightarrow> string list \<Rightarrow> path" where
  "clean_steps acc [] = rev acc"
| "clean_steps acc (x # xs) =
     (if x = '''' \<or> x = ''.'' then clean_steps acc xs
      else if x = ''..'' then clean_steps (tl acc) xs
      else clean_steps (x # acc) xs)"

definition path_of :: "string \<Rightarrow> path" where
  "path_of s = clean_steps [] (split_on (CHR ''/'') s)"

definition show_path :: "path \<Rightarrow> string" where
  "show_path p = ''/'' @ intercalate ''/'' p"

fun node_at :: "node \<Rightarrow> path \<Rightarrow> os_err + node" where
  "node_at n [] = Inr n"
| "node_at (FileN c) (x # xs) = Inl ENOTDIR"
| "node_at (DirN es) (x # xs) = (case map_of es x of None \<Rightarrow> Inl ENOENT | Some n \<Rightarrow> node_at n xs)"

text \<open>A directory is kept in the order in which \<open>filepath.Walk\<close> visits it.\<close>

fun put_entry :: "string \<Rightarrow> 'a \<Rightarrow> (string \<times> 'a) list \<Rightarrow> (string \<times> 'a) list" where
  "put_entry x n [] = [(x, n)]"
| "put_entry x n ((y, m) # es) =
     (if x = y then (x, n) # es
      else if x < y then (x, n) # (y, m) # es
      else (y, m) # put_entry x n es)"

fun del_entry :: "string \<Rightarrow> (string \<times> 'a) list \<Rightarrow> (string \<times> 'a) list" where
  "del_entry x [] = []"
| "del_entry x ((y, m) # es) = (if x = y then del_entry x es else (y, m) # del_entry x es)"

fun mkdir_all :: "node \<Rightarrow> path \<Rightarrow> os_err + node" where
  "mkdir_all (FileN c) xs = Inl ENOTDIR"
| "mkdir_all (DirN es) [] = Inr (DirN es)"
| "mkdir_all (DirN es) (x # xs) =
     (case mkdir_all (case map_of es x of None \<Rightarrow> DirN [] | Some n \<Rightarrow> n) xs of
        Inl e \<Rightarrow> Inl e
      | Inr n \<Rightarrow> Inr (DirN (put_entry x n es)))"

fun write_file :: "node \<Rightarrow> path \<Rightarrow> string \<Rightarrow> os_err + node" where
  "write_file (FileN d) [] c = Inr (FileN c)"
| "write_file (DirN es) [] c = Inl EISDIR"
| "write_file (FileN d) (x # xs) c = Inl ENOTDIR"
| "write_file (DirN es) (x # xs) c =
     (case map_of es x of
        None \<Rightarrow> (if xs = [] then Inr (DirN (put_entry x (FileN c) es)) else Inl ENOENT)
      | Some n \<Rightarrow> (case write_file n xs c of
                     Inl e \<Rightarrow> Inl e
                   | Inr m \<Rightarrow> Inr (DirN (put_entry x m es))))"

text \<open>\<open>os.RemoveAll\<close>: removing what is not there is no error.\<close>

fun remove_all :: "node \<Rightarrow> path \<Rightarrow> os_err + node" where
  "remove_all n [] = Inl EISDIR"
| "remove_all (FileN c) (x # xs) = Inl ENOTDIR"
| "remove_all (DirN es) (x # xs) =
     (if xs = [] then Inr (DirN (del_entry x es))
      else case map_of es x of
        None \<Rightarrow> Inr (DirN es)
      | Some n \<Rightarrow> (case remove_all n xs of
                     Inl e \<Rightarrow> Inl e
                   | Inr m \<Rightarrow> Inr (DirN (put_entry x m es))))"

definition read_file :: "node \<Rightarrow> path \<Rightarrow> os_err + string" where
  "read_file r p =
     (case node_at r p of Inl e \<Rightarrow> Inl e | Inr (FileN c) \<Rightarrow> Inr c | Inr (DirN es) \<Rightarrow> Inl EISDIR)"

text \<open>
  \<open>if _, err := os.Stat(path); os.IsNotExist(err) { return false }; return true\<close>: a path through a
  regular file fails with ENOTDIR, for which \<open>os.IsNotExist\<close> is false.
\<close>

definition file_exists :: "node \<Rightarrow> path \<Rightarrow> bool" where
  "file_exists r p = (node_at r p \<noteq> Inl ENOENT)"


section \<open>Laws of the tree\<close>

lemma map_of_put_entry [simp]: "map_of (put_entry x n es) y = (if y = x then Some n else map_of es y)"
  by (induction x n es rule: put_entry.induct) auto

text \<open>The keys of a Go map, in the order in which they are printed.\<close>

abbreviation keys_ordered :: "(string \<times> 'a) list \<Rightarrow> bool" where
  "keys_ordered m \<equiv> sorted_wrt (<) (map fst m)"

lemma put_entry_keys: "fst ` set (put_entry k v m) = insert k (fst ` set m)"
  by (induction k v m rule: put_entry.induct) auto

lemma put_entry_ordered: "keys_ordered m \<Longrightarrow> keys_ordered (put_entry k v m)"
  by (induction k v m rule: put_entry.induct)
    (auto simp: put_entry_keys [simplified image_iff] image_iff dest: order.strict_trans)

lemma map_of_del_entry [simp]: "map_of (del_entry x es) y = (if y = x then None else map_of es y)"
  by (induction x es rule: del_entry.induct) auto

lemma node_at_append:
  "node_at r (p @ q) = (case node_at r p of Inl e \<Rightarrow> Inl e | Inr n \<Rightarrow> node_at n q)"
  by (induction r p rule: node_at.induct) (auto split: option.split)

lemma write_file_same: "write_file r p c = Inr r' \<Longrightarrow> node_at r' p = Inr (FileN c)"
  by (induction r p c arbitrary: r' rule: write_file.induct)
    (auto split: option.splits sum.splits if_splits)

text \<open>Two paths that fork: neither is a prefix of the other.\<close>

definition forks :: "path \<Rightarrow> path \<Rightarrow> bool" where
  "forks p q = (\<exists>xs y ys z zs. p = xs @ y # ys \<and> q = xs @ z # zs \<and> y \<noteq> z)"

lemma forks_Cons: "forks (x # p) (y # q) \<longleftrightarrow> x \<noteq> y \<or> (x = y \<and> forks p q)"
proof
  assume "forks (x # p) (y # q)"
  then obtain xs a as b bs where "x # p = xs @ a # as" "y # q = xs @ b # bs" "a \<noteq> b"
    unfolding forks_def by blast
  then show "x \<noteq> y \<or> (x = y \<and> forks p q)"
    by (cases xs) (auto simp: forks_def)
next
  assume *: "x \<noteq> y \<or> (x = y \<and> forks p q)"
  show "forks (x # p) (y # q)"
  proof (cases "x = y")
    case True
    with * obtain xs a as b bs where "p = xs @ a # as" "q = xs @ b # bs" "a \<noteq> b"
      unfolding forks_def by blast
    with True show ?thesis
      unfolding forks_def by (intro exI [of _ "x # xs"]) auto
  next
    case False
    then have "x # p = [] @ x # p \<and> y # q = [] @ y # q \<and> x \<noteq> y" by simp
    then show ?thesis unfolding forks_def by blast
  qed
qed

lemma forks_Nil [simp]: "\<not> forks [] q" "\<not> forks p []"
  by (simp_all add: forks_def)

lemma forks_sym: "forks p q \<longleftrightarrow> forks q p"
  unfolding forks_def by metis

lemma forks_siblings [simp]: "forks (p @ x # xs) (p @ y # ys) \<longleftrightarrow> x \<noteq> y \<or> forks xs ys"
  by (induction p) (auto simp: forks_Cons)

lemma write_file_other:
  "write_file r p c = Inr r' \<Longrightarrow> forks p q \<Longrightarrow> node_at r' q = node_at r q"
proof (induction r p c arbitrary: r' q rule: write_file.induct)
  case (4 es x xs c)
  from "4.prems"(2) obtain y ys where q: "q = y # ys" by (cases q) auto
  show ?case
    using "4.prems" "4.IH" q
    by (auto simp: forks_Cons split: option.splits sum.splits if_splits)
qed auto

lemma mkdir_all_same: "mkdir_all r p = Inr r' \<Longrightarrow> \<exists>es. node_at r' p = Inr (DirN es)"
  by (induction r p arbitrary: r' rule: mkdir_all.induct) (auto split: sum.splits)

lemma mkdir_all_other:
  "mkdir_all r p = Inr r' \<Longrightarrow> forks p q \<Longrightarrow> node_at r' q = node_at r q"
proof (induction r p arbitrary: r' q rule: mkdir_all.induct)
  case (3 es x xs)
  from "3.prems"(2) obtain y ys where q: "q = y # ys" by (cases q) auto
  let ?sub = "case map_of es x of None \<Rightarrow> DirN [] | Some n \<Rightarrow> n"
  from "3.prems"(1) obtain n where n: "mkdir_all ?sub xs = Inr n" and r': "r' = DirN (put_entry x n es)"
    by (auto split: sum.splits)
  show ?case
  proof (cases "y = x")
    case True
    with "3.prems"(2) q have f: "forks xs ys" by (simp add: forks_Cons)
    from "3.IH" [OF n f] have sub: "node_at n ys = node_at ?sub ys" .
    from f obtain z zs where "ys = z # zs" by (cases ys) auto
    with sub True q r' show ?thesis by (auto split: option.splits)
  next
    case False
    with q r' show ?thesis by simp
  qed
qed auto

lemma mkdir_all_exists:
  "mkdir_all r p = Inr r' \<Longrightarrow> node_at r p = Inr n \<Longrightarrow> node_at r' p = Inr n"
  by (induction r p arbitrary: r' rule: mkdir_all.induct) (auto split: sum.splits option.splits)

lemma mkdir_all_fresh:
  "mkdir_all r p = Inr r' \<Longrightarrow> node_at r p = Inl ENOENT \<Longrightarrow> node_at r' p = Inr (DirN [])"
proof (induction r p arbitrary: r' rule: mkdir_all.induct)
  case (3 es x xs)
  then show ?case
  proof (cases "map_of es x")
    case None
    have "mkdir_all (DirN []) ys = Inr n \<Longrightarrow> node_at n ys = Inr (DirN [])" for ys n
      by (induction ys arbitrary: n) (auto split: sum.splits)
    with 3 None show ?thesis by (auto split: sum.splits)
  next
    case (Some n)
    with 3 show ?thesis by (auto split: sum.splits)
  qed
qed auto

lemma remove_all_gone: "remove_all r p = Inr r' \<Longrightarrow> node_at r' p = Inl ENOENT"
  by (induction r p arbitrary: r' rule: remove_all.induct)
    (auto split: option.splits sum.splits if_splits)

lemma remove_all_other:
  "remove_all r p = Inr r' \<Longrightarrow> forks p q \<Longrightarrow> node_at r' q = node_at r q"
proof (induction r p arbitrary: r' q rule: remove_all.induct)
  case (3 es x xs)
  from "3.prems"(2) obtain y ys where q: "q = y # ys" by (cases q) auto
  show ?case
    using "3.prems" "3.IH" q
    by (auto simp: forks_Cons split: option.splits sum.splits if_splits)
qed auto

text \<open>
  The interface of the context store: writing a file below a directory that \<open>MkdirAll\<close> made, reading
  it back, removing the directory, and none of it touching other paths.
\<close>

locale file_store =
  fixes at :: "'r \<Rightarrow> path \<Rightarrow> os_err + node"
    and mk :: "'r \<Rightarrow> path \<Rightarrow> os_err + 'r"
    and wr :: "'r \<Rightarrow> path \<Rightarrow> string \<Rightarrow> os_err + 'r"
    and rm :: "'r \<Rightarrow> path \<Rightarrow> os_err + 'r"
  assumes mk_fresh: "mk r p = Inr r' \<Longrightarrow> at r p = Inl ENOENT \<Longrightarrow> at r' p = Inr (DirN [])"
    and mk_other: "mk r p = Inr r' \<Longrightarrow> forks p q \<Longrightarrow> at r' q = at r q"
    and wr_same: "wr r p c = Inr r' \<Longrightarrow> at r' p = Inr (FileN c)"
    and wr_other: "wr r p c = Inr r' \<Longrightarrow> forks p q \<Longrightarrow> at r' q = at r q"
    and rm_gone: "rm r p = Inr r' \<Longrightarrow> at r' p = Inl ENOENT"
    and rm_other: "rm r p = Inr r' \<Longrightarrow> forks p q \<Longrightarrow> at r' q = at r q"
begin

text \<open>Making a directory, writing a file in it: the file reads back, other trees are untouched.\<close>

lemma mk_wr_same:
  assumes "mk r p = Inr r1" and "wr r1 (p @ [x]) c = Inr r2"
  shows "at r2 (p @ [x]) = Inr (FileN c)"
  using assms(2) by (rule wr_same)

lemma mk_wr_other:
  assumes "mk r p = Inr r1" and "wr r1 (p @ [x]) c = Inr r2" and "forks p q"
  shows "at r2 q = at r q"
proof -
  from assms(3) obtain xs y ys z zs where "p = xs @ y # ys" "q = xs @ z # zs" "y \<noteq> z"
    unfolding forks_def by blast
  then have "forks (p @ [x]) q" by simp
  with wr_other [OF assms(2)] mk_other [OF assms(1) assms(3)] show ?thesis by simp
qed

lemma mk_wr_rm_other:
  assumes "mk r p = Inr r1" and "wr r1 (p @ [x]) c = Inr r2" and "rm r2 p = Inr r3" and "forks p q"
  shows "at r3 q = at r q"
  using rm_other [OF assms(3,4)] mk_wr_other [OF assms(1,2,4)] by simp

end

interpretation tree_store: file_store node_at mkdir_all write_file remove_all
  by unfold_locales
    (auto intro: mkdir_all_fresh mkdir_all_other write_file_same write_file_other
      remove_all_gone remove_all_other)

lemma write_file_ok:
  "node_at r p = Inr (DirN es) \<Longrightarrow> map_of es x = None \<Longrightarrow>
     \<exists>r'. write_file r (p @ [x]) c = Inr r'"
  by (induction r p rule: node_at.induct) (auto split: option.splits)

lemma write_file_update_ok:
  "node_at r p = Inr (FileN d) \<Longrightarrow> \<exists>r'. write_file r p c = Inr r'"
  by (induction r p rule: node_at.induct) (auto split: option.splits)

lemma remove_all_ok:
  "node_at r p = Inr (DirN es) \<Longrightarrow> \<exists>r'. remove_all r (p @ [x]) = Inr r'"
proof (induction r p rule: node_at.induct)
  case (3 es' y ys)
  then show ?case by (cases "ys @ [x]") (auto split: option.splits)
qed auto



section \<open>An operation below a directory\<close>

lemma put_entry_twice [simp]: "put_entry x n (put_entry x m es) = put_entry x n es"
  by (induction x m es rule: put_entry.induct) auto

lemma put_entry_fresh:
  "map_of es x = None \<Longrightarrow> \<exists>as bs. es = as @ bs \<and> put_entry x n es = as @ (x, n) # bs"
proof (induction x n es rule: put_entry.induct)
  case (2 x n y m es)
  show ?case
  proof (cases "x < y")
    case True
    then have "x \<noteq> y" by auto
    with True have "(y, m) # es = [] @ (y, m) # es \<and> put_entry x n ((y, m) # es) = [] @ (x, n) # (y, m) # es" by simp
    then show ?thesis by blast
  next
    case False
    with 2 obtain as bs where "es = as @ bs \<and> put_entry x n es = as @ (x, n) # bs"
      by (auto split: if_splits)
    with 2 False have "(y, m) # es = ((y, m) # as) @ bs \<and> put_entry x n ((y, m) # es) = ((y, m) # as) @ (x, n) # bs"
      by (auto split: if_splits)
    then show ?thesis by blast
  qed
qed simp

lemma del_entry_filter: "del_entry x es = filter (\<lambda>e. fst e \<noteq> x) es"
  by (induction x es rule: del_entry.induct) auto

lemma mkdir_all_at:
  "mkdir_all r (p @ q) = Inr r' \<Longrightarrow> node_at r p = Inr n \<Longrightarrow>
     \<exists>n'. mkdir_all n q = Inr n' \<and> node_at r' p = Inr n'"
proof (induction r p arbitrary: r' rule: node_at.induct)
  case (3 es x xs)
  then show ?case by (auto split: sum.splits option.splits)
qed auto

lemma mkdir_all_at_fresh:
  "mkdir_all r (p @ q) = Inr r' \<Longrightarrow> node_at r p = Inl ENOENT \<Longrightarrow>
     \<exists>n'. mkdir_all (DirN []) q = Inr n' \<and> node_at r' p = Inr n'"
proof (induction r p arbitrary: r' rule: node_at.induct)
  case (3 es x xs)
  show ?case
  proof (cases "map_of es x")
    case None
    have fresh: "mkdir_all (DirN []) (ys @ q) = Inr m \<Longrightarrow>
        \<exists>n'. mkdir_all (DirN []) q = Inr n' \<and> node_at m ys = Inr n'" for ys m
      by (induction ys arbitrary: m) (auto split: sum.splits)
    with 3 None show ?thesis by (auto split: sum.splits)
  next
    case (Some n)
    with 3 show ?thesis by (auto split: sum.splits)
  qed
qed auto

lemma write_file_at:
  "write_file r (p @ q) c = Inr r' \<Longrightarrow> node_at r p = Inr n \<Longrightarrow>
     \<exists>n'. write_file n q c = Inr n' \<and> node_at r' p = Inr n'"
proof (induction r p arbitrary: r' rule: node_at.induct)
  case (3 es x xs)
  then show ?case by (auto split: sum.splits option.splits)
qed auto

lemma remove_all_at:
  "remove_all r (p @ x # q) = Inr r' \<Longrightarrow> node_at r p = Inr n \<Longrightarrow>
     \<exists>n'. remove_all n (x # q) = Inr n' \<and> node_at r' p = Inr n'"
proof (induction r p arbitrary: r' rule: node_at.induct)
  case (3 es y ys)
  then show ?case by (cases "ys @ x # q") (auto split: sum.splits option.splits if_splits)
qed auto

text \<open>The entries of a directory: none when it does not exist.\<close>

definition entries_at :: "node \<Rightarrow> path \<Rightarrow> (string \<times> node) list option" where
  "entries_at r p =
     (case node_at r p of Inr (DirN es) \<Rightarrow> Some es | Inl ENOENT \<Rightarrow> Some [] | _ \<Rightarrow> None)"

lemma entries_at_dir [simp]: "node_at r p = Inr (DirN es) \<Longrightarrow> entries_at r p = Some es"
  by (simp add: entries_at_def)

text \<open>Making a new directory below \<open>p\<close> and a file in it.\<close>

lemma new_entry:
  assumes "\<not> file_exists r (p @ [x])" and "mkdir_all r (p @ [x]) = Inr r1"
    and "write_file r1 (p @ [x, f]) c = Inr r2"
  shows "\<exists>es. entries_at r p = Some es \<and> map_of es x = None \<and>
           node_at r2 p = Inr (DirN (put_entry x (DirN [(f, FileN c)]) es))"
proof -
  have no: "node_at r (p @ [x]) = Inl ENOENT" using assms(1) by (simp add: file_exists_def)
  have "\<exists>es. entries_at r p = Some es \<and> map_of es x = None \<and> node_at r1 p = Inr (DirN (put_entry x (DirN []) es))"
  proof (cases "node_at r p")
    case (Inl e)
    with no have "node_at r p = Inl ENOENT" by (simp add: node_at_append)
    with mkdir_all_at_fresh [OF assms(2)] Inl show ?thesis by (auto simp: entries_at_def)
  next
    case (Inr n)
    with no obtain es where n: "n = DirN es" and "map_of es x = None"
      by (cases n) (auto simp: node_at_append split: option.splits)
    with mkdir_all_at [OF assms(2) Inr] Inr show ?thesis by auto
  qed
  then obtain es where es: "entries_at r p = Some es" "map_of es x = None"
    and r1: "node_at r1 p = Inr (DirN (put_entry x (DirN []) es))" by blast
  with write_file_at [of r1 p "[x, f]", OF assms(3) r1] show ?thesis by auto
qed

lemma remove_entry:
  assumes "remove_all r (p @ [x]) = Inr r'" and "node_at r p = Inr (DirN es)"
  shows "node_at r' p = Inr (DirN (filter (\<lambda>e. fst e \<noteq> x) es))"
  using remove_all_at [OF assms] by (auto simp: del_entry_filter)

end
