(* ===== verification/Docker_Config.thy ===== *)
theory Docker_Config
  imports Registry_Auth File_Tree "HOL-Library.Multiset"
begin

text \<open>
  Package \<open>config\<close>: where the Docker CLI configuration is found and loaded from (\<open>load.go\<close>), the
  credentials of a registry from credential helpers and stored entries (\<open>credentials_helpers.go\<close>,
  \<open>config.go\<close>), the per-configuration cache of resolved credentials, and the proxy settings of a
  container. The record \<open>platform\<close> holds what the package calls outside this repository: the
  process environment, the credential helper programs (which act on a world \<open>'w\<close>), the JSON form of
  a configuration, and the reference parser.
\<close>


section \<open>Data\<close>

record proxy_config =
  px_HTTPProxy :: string
  px_HTTPSProxy :: string
  px_NoProxy :: string
  px_FTPProxy :: string
  px_AllProxy :: string

definition empty_proxy :: proxy_config where
  "empty_proxy = \<lparr>px_HTTPProxy = '''', px_HTTPSProxy = '''', px_NoProxy = '''', px_FTPProxy = '''',
     px_AllProxy = ''''\<rparr>"

record kubernetes_config =
  kc_AllNamespaces :: string

record auth_cache =
  ca_entries :: "auth_config smap"
  ca_key :: string

text \<open>The maps are only read through their keys, except \<open>AuthConfigs\<close> and \<open>Proxies\<close>, which the legacy adapters walk.\<close>

record config =
  cfg_filepath :: "path option"
  cfg_AuthConfigs :: "(string \<times> auth_config) list"
  cfg_HTTPHeaders :: "string smap"
  cfg_PsFormat :: string
  cfg_ImagesFormat :: string
  cfg_NetworksFormat :: string
  cfg_PluginsFormat :: string
  cfg_VolumesFormat :: string
  cfg_StatsFormat :: string
  cfg_DetachKeys :: string
  cfg_CredentialsStore :: string
  cfg_CredentialHelpers :: "string smap"
  cfg_Filename :: string
  cfg_ServiceInspectFormat :: string
  cfg_ServicesFormat :: string
  cfg_TasksFormat :: string
  cfg_SecretFormat :: string
  cfg_ConfigFormat :: string
  cfg_NodesFormat :: string
  cfg_PruneFilters :: "string list"
  cfg_Proxies :: "(string \<times> proxy_config) list"
  cfg_Experimental :: string
  cfg_StackOrchestrator :: string
  cfg_Kubernetes :: "kubernetes_config option"
  cfg_CurrentContext :: string
  cfg_CLIPluginsExtraDirs :: "string list"
  cfg_Aliases :: "string smap"
  cfg_cache :: "auth_cache option"

text \<open>The zero value of \<open>Config\<close>.\<close>

definition zero_config :: config where
  "zero_config = \<lparr>cfg_filepath = None, cfg_AuthConfigs = [], cfg_HTTPHeaders = Map.empty,
     cfg_PsFormat = '''', cfg_ImagesFormat = '''', cfg_NetworksFormat = '''', cfg_PluginsFormat = '''',
     cfg_VolumesFormat = '''', cfg_StatsFormat = '''', cfg_DetachKeys = '''', cfg_CredentialsStore = '''',
     cfg_CredentialHelpers = Map.empty, cfg_Filename = '''', cfg_ServiceInspectFormat = '''',
     cfg_ServicesFormat = '''', cfg_TasksFormat = '''', cfg_SecretFormat = '''', cfg_ConfigFormat = '''',
     cfg_NodesFormat = '''', cfg_PruneFilters = [], cfg_Proxies = [], cfg_Experimental = '''',
     cfg_StackOrchestrator = '''', cfg_Kubernetes = None, cfg_CurrentContext = '''',
     cfg_CLIPluginsExtraDirs = [], cfg_Aliases = Map.empty, cfg_cache = None\<rparr>"

record run_result =
  run_out :: string
  run_errout :: string
  run_err :: "err option"

record 'w platform =
  pf_goos :: string
  pf_getenv :: "string \<Rightarrow> string option"
  pf_home :: string
  pf_user :: "string option"
  pf_lookPath :: "string \<Rightarrow> string outcome"
  pf_run :: "string \<Rightarrow> string \<Rightarrow> 'w \<Rightarrow> run_result \<times> 'w"
  pf_creds :: "string \<Rightarrow> (string \<times> string \<times> string) outcome"
  pf_unmarshal :: "string \<Rightarrow> config outcome"
  pf_decode :: "string \<Rightarrow> config outcome"
  pf_marshal :: "config \<Rightarrow> string outcome"
  pf_md5hex :: "string \<Rightarrow> string"
  pf_now :: nat
  pf_parse_ref :: "string \<Rightarrow> any_reference outcome"

text \<open>\<open>os.Getenv\<close>: the empty string for a variable that is not set.\<close>

definition getenv :: "'w platform \<Rightarrow> string \<Rightarrow> string" where
  "getenv pf k = (case pf_getenv pf k of None \<Rightarrow> '''' | Some v \<Rightarrow> v)"


section \<open>Credential helpers\<close>

definition tokenUsername :: string where
  "tokenUsername = ''<token>''"

definition ErrCredentialsNotFound :: string where
  "ErrCredentialsNotFound = ''credentials not found in native keychain''"

definition ErrCredentialsMissingServerURL :: string where
  "ErrCredentialsMissingServerURL = ''no credentials server URL''"

definition exec_ErrNotFound :: string where
  "exec_ErrNotFound = ''executable file not found in $PATH''"

definition getCredentialHelper :: "'w platform \<Rightarrow> string outcome" where
  "getCredentialHelper pf =
     (if pf_goos pf = ''linux'' then
        (case pf_lookPath pf ''pass'' of
           Err e \<Rightarrow> (if errors_is e exec_ErrNotFound then Ok ''secretservice''
                     else Err (wrapf ''look up pass'' e))
         | Ok _ \<Rightarrow> Ok ''pass''
         | Panic p \<Rightarrow> Panic p)
      else if pf_goos pf = ''darwin'' then Ok ''osxkeychain''
      else if pf_goos pf = ''windows'' then Ok ''wincred''
      else Ok '''')"

text \<open>The part of \<open>credentialsFromHelper\<close> after the helper's name is known.\<close>

definition run_credential_helper ::
    "'w platform \<Rightarrow> string \<Rightarrow> string \<Rightarrow> 'w \<Rightarrow> auth_config outcome \<times> 'w" where
  "run_credential_helper pf credHelperName hostname w =
     (let helper = ''docker-credential-'' @ credHelperName in
      case pf_lookPath pf helper of
        Panic p \<Rightarrow> (Panic p, w)
      | Err e \<Rightarrow>
          (if errors_is e exec_ErrNotFound then (Ok empty_auth, w)
           else (Err (wrapf (''look up '' @ show_q helper) e), w))
      | Ok p \<Rightarrow>
          (case pf_run pf p hostname w of (r, w') \<Rightarrow>
             (case run_err r of
                Some e \<Rightarrow>
                  (let out = trim_space (run_out r) in
                   if out = ErrCredentialsNotFound then (Ok empty_auth, w')
                   else if out = ErrCredentialsMissingServerURL
                     then (Err (Sentinel ErrCredentialsMissingServerURL), w')
                   else (Err (wrapf (''execute '' @ show_q helper @ '' stdout: '' @ show_q out @ '' stderr: ''
                                @ show_q (trim_space (run_errout r))) e), w'))
              | None \<Rightarrow>
                  (case pf_creds pf (run_out r) of
                     Panic q \<Rightarrow> (Panic q, w')
                   | Err e \<Rightarrow> (Err (wrapf (''unmarshal credentials from: '' @ show_q helper) e), w')
                   | Ok (user, secret, url) \<Rightarrow>
                       (Ok (empty_auth\<lparr>ac_Username := (if user = tokenUsername then '''' else user),
                              ac_Password := secret, ac_ServerAddress := url\<rparr>), w')))))"

definition credentialsFromHelper ::
    "'w platform \<Rightarrow> string \<Rightarrow> string \<Rightarrow> 'w \<Rightarrow> auth_config outcome \<times> 'w" where
  "credentialsFromHelper pf helper hostname w =
     (if helper = '''' then
        (case getCredentialHelper pf of
           Panic p \<Rightarrow> (Panic p, w)
         | Err e \<Rightarrow> (Err (wrapf ''get credential helper'' e), w)
         | Ok h \<Rightarrow> (if h = '''' then (Ok empty_auth, w) else run_credential_helper pf h hostname w))
      else run_credential_helper pf helper hostname w)"

definition resolveFromCredentialHelper ::
    "'w platform \<Rightarrow> string \<Rightarrow> string \<Rightarrow> 'w \<Rightarrow> auth_config outcome \<times> 'w" where
  "resolveFromCredentialHelper pf helper hostname w =
     st_do (credentialsFromHelper pf helper hostname w) (\<lambda>credentials w'. (Ok credentials, w'))"

lemma resolveFromCredentialHelper_eq [simp]:
  "resolveFromCredentialHelper pf helper hostname w = credentialsFromHelper pf helper hostname w"
  by (cases "credentialsFromHelper pf helper hostname w"; cases "fst (credentialsFromHelper pf helper hostname w)")
    (auto simp: resolveFromCredentialHelper_def)


section \<open>Resolving the credentials of a host\<close>

definition processStoredAuthConfig ::
    "'w platform \<Rightarrow> auth_config \<Rightarrow> string \<Rightarrow> 'w \<Rightarrow> auth_config outcome \<times> 'w" where
  "processStoredAuthConfig pf stored hostname w =
     (let authConfig = \<lparr>ac_Username = ac_Username stored, ac_Password = ac_Password stored,
            ac_Auth = ac_Auth stored, ac_ServerAddress = hostname,
            ac_IdentityToken = ac_IdentityToken stored, ac_RegistryToken = ac_RegistryToken stored\<rparr>
      in if ac_IdentityToken authConfig \<noteq> '''' then
           (Ok (authConfig\<lparr>ac_Username := '''', ac_Password := ac_IdentityToken authConfig\<rparr>), w)
         else if ac_Username authConfig \<noteq> '''' \<and> ac_Password authConfig \<noteq> '''' then
           (Ok authConfig, w)
         else if ac_Auth authConfig \<noteq> '''' then
           (then_wrap ''decode base64 auth'' (decodeBase64Auth authConfig)
              (\<lambda>(user, pass). Ok (authConfig\<lparr>ac_Username := user, ac_Password := pass\<rparr>)), w)
         else resolveFromCredentialHelper pf '''' hostname w)"

text \<open>What remains of \<open>resolveAuthConfigForHostname\<close> when the credential store has not answered.\<close>

definition resolve_stored ::
    "'w platform \<Rightarrow> config \<Rightarrow> string \<Rightarrow> 'w \<Rightarrow> auth_config outcome \<times> 'w" where
  "resolve_stored pf c hostname w =
     (case map_of (cfg_AuthConfigs c) hostname of
        Some authConfig \<Rightarrow> processStoredAuthConfig pf authConfig hostname w
      | None \<Rightarrow> resolveFromCredentialHelper pf '''' hostname w)"

definition resolveAuthConfigForHostname ::
    "'w platform \<Rightarrow> config \<Rightarrow> string \<Rightarrow> 'w \<Rightarrow> auth_config outcome \<times> 'w" where
  "resolveAuthConfigForHostname pf c host w =
     (let hostname = ResolveRegistryHost host in
      case cfg_CredentialHelpers c hostname of
        Some helper \<Rightarrow> resolveFromCredentialHelper pf helper hostname w
      | None \<Rightarrow>
          (if cfg_CredentialsStore c \<noteq> '''' then
             (case resolveFromCredentialHelper pf (cfg_CredentialsStore c) hostname w of
                (Ok authConfig, w') \<Rightarrow>
                  (if ac_Username authConfig \<noteq> '''' \<or> ac_Password authConfig \<noteq> ''''
                   then (Ok authConfig, w') else resolve_stored pf c hostname w')
              | (Err e, w') \<Rightarrow> resolve_stored pf c hostname w'
              | (Panic p, w') \<Rightarrow> (Panic p, w'))
           else resolve_stored pf c hostname w))"


section \<open>The cache of resolved credentials\<close>

definition generateCacheKey :: "'w platform \<Rightarrow> config \<Rightarrow> string" where
  "generateCacheKey pf c =
     (case pf_marshal pf c of
        Ok data \<Rightarrow> pf_md5hex pf (data @ ''\<newline>'')
      | _ \<Rightarrow> ''fallback-'' @ show_nat (pf_now pf))"

definition initCache :: "'w platform \<Rightarrow> config \<Rightarrow> config" where
  "initCache pf c =
     (if cfg_cache c \<noteq> None then c
      else c\<lparr>cfg_cache := Some \<lparr>ca_entries = Map.empty, ca_key = generateCacheKey pf c\<rparr>\<rparr>)"

definition getCache :: "'w platform \<Rightarrow> config \<Rightarrow> auth_cache \<times> config" where
  "getCache pf c = (let c' = initCache pf c in (the (cfg_cache c'), c'))"

definition clearAuthCache :: "'w platform \<Rightarrow> config \<Rightarrow> config" where
  "clearAuthCache pf c =
     (case getCache pf c of (cache, c') \<Rightarrow> c'\<lparr>cfg_cache := Some (cache\<lparr>ca_entries := Map.empty\<rparr>)\<rparr>)"

record cache_stats =
  cs_Size :: nat
  cs_CacheKey :: string

definition cacheStats :: "'w platform \<Rightarrow> config \<Rightarrow> cache_stats \<times> config" where
  "cacheStats pf c =
     (case getCache pf c of (cache, c') \<Rightarrow>
        (\<lparr>cs_Size = card (dom (ca_entries cache)), cs_CacheKey = ca_key cache\<rparr>, c'))"

definition AuthConfigForHostname ::
    "'w platform \<Rightarrow> string \<Rightarrow> config \<times> 'w \<Rightarrow> auth_config outcome \<times> config \<times> 'w" where
  "AuthConfigForHostname pf hostname s =
     (case s of (c0, w) \<Rightarrow> case getCache pf c0 of (cache, c) \<Rightarrow>
        (case ca_entries cache hostname of
           Some authConfig \<Rightarrow> (Ok authConfig, c, w)
         | None \<Rightarrow>
             (case resolveAuthConfigForHostname pf c hostname w of
                (Ok authConfig, w') \<Rightarrow>
                  (Ok authConfig,
                   c\<lparr>cfg_cache := Some (cache\<lparr>ca_entries := (ca_entries cache)(hostname \<mapsto> authConfig)\<rparr>)\<rparr>, w')
              | (Err e, w') \<Rightarrow> (Err e, c, w')
              | (Panic p, w') \<Rightarrow> (Panic p, c, w'))))"

text \<open>\<open>AuthConfigForImage\<close> returns the registry also when it fails.\<close>

definition AuthConfigForImage ::
    "'w platform \<Rightarrow> string \<Rightarrow> config \<times> 'w \<Rightarrow> (string \<times> auth_config outcome) \<times> config \<times> 'w" where
  "AuthConfigForImage pf img s =
     (case ParseImageRef (pf_parse_ref pf) img of
        Panic p \<Rightarrow> (('''', Panic p), s)
      | Err e \<Rightarrow> (('''', Err (wrapf ''parse image ref'' e)), s)
      | Ok ref \<Rightarrow>
          (case AuthConfigForHostname pf (ir_Registry ref) s of
             (Ok authConfig, s') \<Rightarrow>
               ((ir_Registry ref, Ok (authConfig\<lparr>ac_ServerAddress := ir_Registry ref\<rparr>)), s')
           | (r, s') \<Rightarrow> ((ir_Registry ref, r), s')))"

text \<open>The loop of \<open>AuthConfigsForImages\<close> over the images, with \<open>result\<close> and \<open>errs\<close> as accumulators.\<close>

fun auth_images_loop ::
    "'w platform \<Rightarrow> string list \<Rightarrow> auth_config smap \<Rightarrow> err list \<Rightarrow> config \<times> 'w
       \<Rightarrow> (auth_config smap \<times> err list) outcome \<times> config \<times> 'w" where
  "auth_images_loop pf [] result errs s = (Ok (result, errs), s)"
| "auth_images_loop pf (img # imgs) result errs s =
     (case AuthConfigForImage pf img s of
        ((registry, Ok authConfig), s') \<Rightarrow>
          auth_images_loop pf imgs
            (result(registry \<mapsto> authConfig\<lparr>ac_ServerAddress := registry\<rparr>)) errs s'
      | ((registry, Err e), s') \<Rightarrow>
          auth_images_loop pf imgs result
            (if \<not> errors_is e ErrCredentialsNotFound
             then errs @ [wrapf (''auth config for '' @ show_q registry) e] else errs) s'
      | ((registry, Panic p), s') \<Rightarrow> (Panic p, s'))"

definition AuthConfigsForImages ::
    "'w platform \<Rightarrow> string list \<Rightarrow> config \<times> 'w \<Rightarrow> auth_config smap outcome \<times> config \<times> 'w" where
  "AuthConfigsForImages pf images s =
     st_do (auth_images_loop pf images Map.empty [] s) (\<lambda>(result, errs) s'.
       (if errs \<noteq> [] then Err (Join errs) else Ok result, s'))"


section \<open>Proxy settings\<close>

definition permitted :: "proxy_config \<Rightarrow> (string \<times> string) list" where
  "permitted conf =
     [(''HTTP_PROXY'', px_HTTPProxy conf), (''HTTPS_PROXY'', px_HTTPSProxy conf),
      (''NO_PROXY'', px_NoProxy conf), (''FTP_PROXY'', px_FTPProxy conf),
      (''ALL_PROXY'', px_AllProxy conf)]"

definition proxy_step :: "string \<times> string \<Rightarrow> string option smap \<Rightarrow> string option smap" where
  "proxy_step kv m =
     (case kv of (k, v) \<Rightarrow>
        if v = '''' then m
        else let m1 = (if m k = None then m(k \<mapsto> Some v) else m) in
             if m1 (to_lower k) = None then m1(to_lower k \<mapsto> Some v) else m1)"

text \<open>
  The map \<open>permitted\<close> is walked in Go's unspecified order: \<open>walk\<close> gives the entries in the order of
  this run. A value \<open>None\<close> of the environment map is a nil pointer.
\<close>

definition ParseProxyConfig ::
    "((string \<times> string) list \<Rightarrow> (string \<times> string) list) \<Rightarrow> config \<Rightarrow> string
       \<Rightarrow> string option smap option \<Rightarrow> string option smap" where
  "ParseProxyConfig walk c host runOpts =
     (let cfgKey = (if map_of (cfg_Proxies c) host = None then ''default'' else host);
          conf = (case map_of (cfg_Proxies c) cfgKey of None \<Rightarrow> empty_proxy | Some p \<Rightarrow> p);
          m = nilmap_read runOpts
      in fold proxy_step (walk (permitted conf)) m)"


section \<open>Finding and loading the configuration\<close>

definition getHomeDir :: "'w platform \<Rightarrow> string outcome" where
  "getHomeDir pf =
     (let home = pf_home pf in
      if home = '''' \<and> pf_goos pf \<noteq> ''windows'' \<and> pf_user pf \<noteq> None then Ok (the (pf_user pf))
      else if home = '''' then Err (Msg ''user home directory not determined'')
      else Ok home)"

definition EnvOverrideDir :: string where
  "EnvOverrideDir = ''DOCKER_CONFIG''"

definition configFileDir :: string where
  "configFileDir = ''.docker''"

definition FileName :: string where
  "FileName = ''config.json''"

definition Dir :: "'w platform \<Rightarrow> node \<Rightarrow> path outcome" where
  "Dir pf disk =
     (let dir = getenv pf EnvOverrideDir in
      if dir \<noteq> '''' then
        (if \<not> file_exists disk (path_of dir) then Err (Msg (''file does not exist ('' @ dir @ '')''))
         else Ok (path_of dir))
      else then_wrap ''user home dir'' (getHomeDir pf) (\<lambda>home.
        let configDir = path_of home @ [configFileDir] in
        if \<not> file_exists disk configDir then Err (Msg (''file does not exist ('' @ show_path configDir @ '')'')) else Ok configDir))"

definition Filepath :: "'w platform \<Rightarrow> node \<Rightarrow> path outcome" where
  "Filepath pf disk =
     then_wrap ''config dir'' (Dir pf disk) (\<lambda>dir.
       let configFilePath = dir @ [FileName] in
       if \<not> file_exists disk configFilePath then Err (Msg (''config file does not exist ('' @ show_path configFilePath @ '')''))
       else Ok configFilePath)"

definition loadFromFilepath :: "'w platform \<Rightarrow> node \<Rightarrow> path \<Rightarrow> config outcome" where
  "loadFromFilepath pf disk configPath =
     (case read_file disk configPath of
        Inl e \<Rightarrow> Err (wrapf ''open config'' (os_error e))
      | Inr data \<Rightarrow> then_wrap ''decode config'' (pf_decode pf data) Ok)"

definition Load :: "'w platform \<Rightarrow> node \<Rightarrow> config outcome" where
  "Load pf disk =
     (let env = getenv pf ''DOCKER_AUTH_CONFIG'' in
      if env \<noteq> '''' then then_wrap ''unmarshal DOCKER_AUTH_CONFIG'' (pf_unmarshal pf env) Ok
      else then_wrap ''config path'' (Filepath pf disk) (\<lambda>p.
        then_wrap ''load config'' (loadFromFilepath pf disk p) (\<lambda>cfg.
          Ok (cfg\<lparr>cfg_filepath := Some p\<rparr>))))"

text \<open>Saving a configuration that was not loaded from a file is a write to the empty path.\<close>

definition Save :: "'w platform \<Rightarrow> config \<Rightarrow> node \<Rightarrow> unit outcome \<times> node" where
  "Save pf c disk =
     (case pf_marshal pf c of
        Panic p \<Rightarrow> (Panic p, disk)
      | Err e \<Rightarrow> (Err (wrapf ''json marshal'' e), disk)
      | Ok data \<Rightarrow>
          (case cfg_filepath c of
             None \<Rightarrow> (Err (os_error ENOENT), disk)
           | Some p \<Rightarrow>
               (case write_file disk p data of
                  Inl e \<Rightarrow> (Err (os_error e), disk)
                | Inr disk' \<Rightarrow> (Ok (), disk'))))"

definition AuthConfigs ::
    "'w platform \<Rightarrow> node \<Rightarrow> string list \<Rightarrow> 'w \<Rightarrow> auth_config smap outcome \<times> 'w" where
  "AuthConfigs pf disk images w =
     (case Load pf disk of
        Panic p \<Rightarrow> (Panic p, w)
      | Err e \<Rightarrow> (Err (wrapf ''load config'' e), w)
      | Ok cfg \<Rightarrow> (case AuthConfigsForImages pf images (cfg, w) of (r, _, w') \<Rightarrow> (r, w')))"

definition AuthConfigForHostname_default ::
    "'w platform \<Rightarrow> node \<Rightarrow> string \<Rightarrow> 'w \<Rightarrow> auth_config outcome \<times> 'w" where
  "AuthConfigForHostname_default pf disk hostname w =
     (case Load pf disk of
        Panic p \<Rightarrow> (Panic p, w)
      | Err e \<Rightarrow> (Err (wrapf ''load config'' e), w)
      | Ok cfg \<Rightarrow> (case AuthConfigForHostname pf hostname (cfg, w) of (r, _, w') \<Rightarrow> (r, w')))"


section \<open>Credential helpers: lemmas\<close>

lemma run_credential_helper_Ok:
  "run_credential_helper pf name hostname w = (Ok a, w') \<Longrightarrow>
     ac_Username a \<noteq> tokenUsername \<and> ac_IdentityToken a = '''' \<and> ac_RegistryToken a = '''' \<and> ac_Auth a = ''''"
  by (auto simp: run_credential_helper_def Let_def empty_auth_def tokenUsername_def
      split: outcome.splits if_splits prod.splits option.splits)

lemma credentialsFromHelper_Ok:
  "credentialsFromHelper pf helper hostname w = (Ok a, w') \<Longrightarrow>
     ac_Username a \<noteq> tokenUsername \<and> ac_IdentityToken a = '''' \<and> ac_RegistryToken a = '''' \<and> ac_Auth a = ''''"
  by (auto simp: credentialsFromHelper_def empty_auth_def tokenUsername_def
      split: outcome.splits if_splits dest: run_credential_helper_Ok)

text \<open>
  The errors of the environment: none of them is the error variable \<open>name\<close>. The variables of the
  package are private to the process, so a helper program or \<open>exec.LookPath\<close> never returns them.
\<close>

definition env_errors_avoid :: "'w platform \<Rightarrow> string \<Rightarrow> bool" where
  "env_errors_avoid pf name \<longleftrightarrow>
     (\<forall>x e. pf_lookPath pf x = Err e \<longrightarrow> \<not> errors_is e name) \<and>
     (\<forall>p h w r w' e. pf_run pf p h w = (r, w') \<longrightarrow> run_err r = Some e \<longrightarrow> \<not> errors_is e name) \<and>
     (\<forall>d e. pf_creds pf d = Err e \<longrightarrow> \<not> errors_is e name) \<and>
     (\<forall>i e. pf_parse_ref pf i = Err e \<longrightarrow> \<not> errors_is e name)"

lemma env_errors_avoidD:
  assumes "env_errors_avoid pf name"
  shows "pf_lookPath pf x = Err e \<Longrightarrow> \<not> errors_is e name"
    and "pf_run pf p h w = (r, w') \<Longrightarrow> run_err r = Some e \<Longrightarrow> \<not> errors_is e name"
    and "pf_creds pf d = Err e \<Longrightarrow> \<not> errors_is e name"
    and "pf_parse_ref pf i = Err e \<Longrightarrow> \<not> errors_is e name"
  using assms unfolding env_errors_avoid_def by blast+

lemma run_credential_helper_Err:
  assumes "env_errors_avoid pf ErrCredentialsNotFound"
    and "run_credential_helper pf name hostname w = (Err e, w')"
  shows "\<not> errors_is e ErrCredentialsNotFound"
  using assms(2) env_errors_avoidD [OF assms(1)]
  by (auto simp: run_credential_helper_def Let_def ErrCredentialsNotFound_def
      ErrCredentialsMissingServerURL_def split: outcome.splits if_splits prod.splits option.splits)

lemma getCredentialHelper_Err:
  assumes "env_errors_avoid pf ErrCredentialsNotFound" and "getCredentialHelper pf = Err e"
  shows "\<not> errors_is e ErrCredentialsNotFound"
  using assms(2) env_errors_avoidD [OF assms(1)]
  by (auto simp: getCredentialHelper_def split: outcome.splits if_splits)

lemma credentialsFromHelper_Err:
  assumes "env_errors_avoid pf ErrCredentialsNotFound"
    and "credentialsFromHelper pf helper hostname w = (Err e, w')"
  shows "\<not> errors_is e ErrCredentialsNotFound"
  using assms(2) run_credential_helper_Err [OF assms(1)] getCredentialHelper_Err [OF assms(1)]
  by (auto simp: credentialsFromHelper_def split: outcome.splits if_splits)

lemma decodeBase64Auth_Err: "decodeBase64Auth auth = Err e \<Longrightarrow> \<not> errors_is e name"
  by (auto simp: decodeBase64Auth_def split: if_splits option.splits prod.splits)

lemma processStoredAuthConfig_Err:
  assumes "env_errors_avoid pf ErrCredentialsNotFound"
    and "processStoredAuthConfig pf stored hostname w = (Err e, w')"
  shows "\<not> errors_is e ErrCredentialsNotFound"
  using assms(2) credentialsFromHelper_Err [OF assms(1)]
  by (auto simp: processStoredAuthConfig_def Let_def then_wrap_def dest: decodeBase64Auth_Err
      split: if_splits outcome.splits prod.splits)

lemma resolve_stored_Err:
  assumes "env_errors_avoid pf ErrCredentialsNotFound" and "resolve_stored pf c hostname w = (Err e, w')"
  shows "\<not> errors_is e ErrCredentialsNotFound"
  using assms(2) processStoredAuthConfig_Err [OF assms(1)] credentialsFromHelper_Err [OF assms(1)]
  by (auto simp: resolve_stored_def split: option.splits)

lemma resolveAuthConfigForHostname_Err:
  assumes "env_errors_avoid pf ErrCredentialsNotFound"
    and "resolveAuthConfigForHostname pf c host w = (Err e, w')"
  shows "\<not> errors_is e ErrCredentialsNotFound"
  using assms(2) resolve_stored_Err [OF assms(1)] credentialsFromHelper_Err [OF assms(1)]
  by (auto simp: resolveAuthConfigForHostname_def Let_def
      split: option.splits if_splits prod.splits outcome.splits)

text \<open>
  C30: the branch of \<open>AuthConfigsForImages\<close> that skips an image because its credentials were not found
  is never taken: whatever the configuration, no lookup fails with \<open>ErrCredentialsNotFound\<close>, because
  \<open>credentialsFromHelper\<close> turns that answer of a helper into empty credentials. (Errors of the
  environment are never that package variable.)
\<close>

theorem resolve_never_ErrCredentialsNotFound:
  assumes "env_errors_avoid pf ErrCredentialsNotFound"
    and "AuthConfigForHostname pf host (c, w) = (Err e, s')"
  shows "\<not> errors_is e ErrCredentialsNotFound"
  using assms(2) resolveAuthConfigForHostname_Err [OF assms(1)]
  by (auto simp: AuthConfigForHostname_def split: prod.splits option.splits outcome.splits)

text \<open>A platform for the witnesses: Linux, no helper installed, every image on Docker Hub.\<close>

definition demo_platform :: "unit platform" where
  "demo_platform = \<lparr>pf_goos = ''linux'', pf_getenv = (\<lambda>_. None), pf_home = ''/root'', pf_user = None,
     pf_lookPath = (\<lambda>_. Err (Sentinel exec_ErrNotFound)),
     pf_run = (\<lambda>_ _ w. (\<lparr>run_out = '''', run_errout = '''', run_err = None\<rparr>, w)),
     pf_creds = (\<lambda>_. Err (Msg ''unexpected end of JSON input'')),
     pf_unmarshal = (\<lambda>_. Ok zero_config), pf_decode = (\<lambda>_. Ok zero_config),
     pf_marshal = (\<lambda>_. Ok ''{}''), pf_md5hex = (\<lambda>s. s), pf_now = 0,
     pf_parse_ref = (\<lambda>s. Ok \<lparr>ref_named = Some (''docker.io'', s), ref_tagged = None, ref_digested = None\<rparr>)\<rparr>"

lemma demo_avoid: "env_errors_avoid demo_platform ErrCredentialsNotFound"
  by (simp add: env_errors_avoid_def demo_platform_def exec_ErrNotFound_def ErrCredentialsNotFound_def)

definition demo_bad_auth :: config where
  "demo_bad_auth = zero_config\<lparr>cfg_AuthConfigs := [(''r'', empty_auth\<lparr>ac_Auth := ''!''\<rparr>)]\<rparr>"

lemma demo_bad_auth_lookup:
  "\<exists>e s'. AuthConfigForHostname demo_platform ''r'' (demo_bad_auth, ()) = (Err e, s')"
  by (simp add: AuthConfigForHostname_def getCache_def initCache_def Let_def demo_bad_auth_def
      zero_config_def resolveAuthConfigForHostname_def ResolveRegistryHost_def hub_aliases_def
      IndexDockerIO_def resolve_stored_def processStoredAuthConfig_def decodeBase64Auth_def
      b64_decode_def empty_auth_def)

theorem resolve_never_ErrCredentialsNotFound_witness:
  "\<exists>e s'. AuthConfigForHostname demo_platform ''r'' (demo_bad_auth, ()) = (Err e, s')
     \<and> \<not> errors_is e ErrCredentialsNotFound"
  using demo_bad_auth_lookup resolve_never_ErrCredentialsNotFound [OF demo_avoid] by blast



section \<open>The cache\<close>

text \<open>A sequence of lookups, as a client that keeps the configuration makes them.\<close>

fun lookups :: "'w platform \<Rightarrow> string list \<Rightarrow> config \<times> 'w \<Rightarrow> config \<times> 'w" where
  "lookups pf [] s = s"
| "lookups pf (h # hs) s = lookups pf hs (snd (AuthConfigForHostname pf h s))"

definition cached :: "config \<Rightarrow> string \<Rightarrow> auth_config option" where
  "cached c h = (case cfg_cache c of None \<Rightarrow> None | Some cache \<Rightarrow> ca_entries cache h)"

lemma getCache_fst: "ca_entries (fst (getCache pf c)) h = cached c h"
  by (auto simp: getCache_def initCache_def cached_def Let_def)

lemma cached_getCache [simp]: "cached (snd (getCache pf c)) h = cached c h"
  by (auto simp: getCache_def initCache_def cached_def Let_def)

lemma getCache_cache_only: "\<exists>x. snd (getCache pf c) = c\<lparr>cfg_cache := x\<rparr>"
proof (cases "cfg_cache c")
  case None
  then show ?thesis by (auto simp: getCache_def initCache_def Let_def)
next
  case (Some a)
  then have "snd (getCache pf c) = c\<lparr>cfg_cache := cfg_cache c\<rparr>"
    by (simp add: getCache_def initCache_def Let_def)
  then show ?thesis by blast
qed

lemma getCache_again [simp]:
  "cfg_cache c \<noteq> None \<Longrightarrow> getCache pf c = (the (cfg_cache c), c)"
  by (simp add: getCache_def initCache_def)

lemma AuthConfigForHostname_hit:
  "cached c h = Some a \<Longrightarrow>
     AuthConfigForHostname pf h (c, w) = (Ok a, snd (getCache pf c), w)"
  using getCache_fst [of pf c h]
  by (cases "getCache pf c") (simp add: AuthConfigForHostname_def)

lemma AuthConfigForHostname_miss:
  "cached c h = None \<Longrightarrow>
     AuthConfigForHostname pf h (c, w) =
       (case getCache pf c of (cache, c1) \<Rightarrow>
          case resolveAuthConfigForHostname pf c1 h w of
            (Ok a, w') \<Rightarrow>
              (Ok a, c1\<lparr>cfg_cache := Some (cache\<lparr>ca_entries := (ca_entries cache)(h \<mapsto> a)\<rparr>)\<rparr>, w')
          | (Err e, w') \<Rightarrow> (Err e, c1, w')
          | (Panic p, w') \<Rightarrow> (Panic p, c1, w'))"
  using getCache_fst [of pf c h]
  by (cases "getCache pf c") (simp add: AuthConfigForHostname_def)


lemma cached_after_store [simp]:
  "cached (c\<lparr>cfg_cache := Some \<lparr>ca_entries = f, ca_key = k\<rparr>\<rparr>) = f"
  "cached (c\<lparr>cfg_cache := Some (cache\<lparr>ca_entries := f\<rparr>)\<rparr>) = f"
  by (auto simp: cached_def)

lemma AuthConfigForHostname_cached:
  assumes "AuthConfigForHostname pf h (c, w) = (r, c', w')"
  shows "cached c' = (case r of Ok a \<Rightarrow> (cached c)(h \<mapsto> a) | _ \<Rightarrow> cached c)"
proof (cases "cached c h")
  case (Some a)
  with assms have "r = Ok a" and "c' = snd (getCache pf c)"
    by (simp_all add: AuthConfigForHostname_hit)
  with Some show ?thesis by (auto simp: fun_eq_iff)
next
  case None
  obtain cache c1 where g: "getCache pf c = (cache, c1)" by (cases "getCache pf c")
  have e: "ca_entries cache = cached c" using getCache_fst [of pf c] g by (auto simp: fun_eq_iff)
  have c1: "cached c1 = cached c" using cached_getCache [of pf c] g by (auto simp: fun_eq_iff)
  from assms None c1 show ?thesis
    by (auto simp: AuthConfigForHostname_miss g e split: prod.splits outcome.splits)
qed

lemma lookups_keep: "cached c h = Some a \<Longrightarrow> cached (fst (lookups pf hs (c, w))) h = Some a"
proof (induction hs arbitrary: c w)
  case Nil
  then show ?case by simp
next
  case (Cons k hs)
  obtain r c' w' where l: "AuthConfigForHostname pf k (c, w) = (r, c', w')"
    by (cases "AuthConfigForHostname pf k (c, w)") auto
  have "cached c' h = Some a"
  proof (cases "k = h")
    case True
    with l Cons.prems AuthConfigForHostname_hit [OF Cons.prems, of pf w] have "r = Ok a" by simp
    with True AuthConfigForHostname_cached [OF l] show ?thesis by simp
  next
    case False
    with Cons.prems AuthConfigForHostname_cached [OF l] show ?thesis by (cases r) auto
  qed
  with Cons.IH l show ?case by simp
qed

text \<open>
  C11: a lookup that succeeded is answered from the cache from then on. After any further lookups on
  the same configuration, of this host or others, failing or not, asking again gives the same
  credentials and runs no helper: the world is untouched.
\<close>

theorem AuthConfigForHostname_stable:
  assumes "AuthConfigForHostname pf h (c, w) = (Ok a, c', w')"
    and "lookups pf hs (c', w') = (c2, w2)"
  shows "\<exists>c3. AuthConfigForHostname pf h (c2, w2) = (Ok a, c3, w2)"
proof -
  have "cached c' h = Some a" using AuthConfigForHostname_cached [OF assms(1)] by simp
  then have "cached c2 h = Some a" using lookups_keep [of c' h a pf hs w'] assms(2) by simp
  then show ?thesis by (simp add: AuthConfigForHostname_hit)
qed

definition demo_auth :: auth_config where
  "demo_auth = empty_auth\<lparr>ac_Username := ''u'', ac_Password := ''p''\<rparr>"

definition demo_config :: config where
  "demo_config = zero_config\<lparr>cfg_AuthConfigs := [(''r'', demo_auth)]\<rparr>"

lemmas demo_lookup_simps =
  AuthConfigForHostname_def getCache_def initCache_def Let_def demo_config_def zero_config_def
  resolveAuthConfigForHostname_def ResolveRegistryHost_def hub_aliases_def IndexDockerIO_def
  resolve_stored_def processStoredAuthConfig_def demo_auth_def empty_auth_def

lemma demo_lookup:
  "AuthConfigForHostname demo_platform ''r'' (demo_config, ()) =
     (Ok (demo_auth\<lparr>ac_ServerAddress := ''r''\<rparr>),
      demo_config\<lparr>cfg_cache := Some \<lparr>ca_entries = [''r'' \<mapsto> demo_auth\<lparr>ac_ServerAddress := ''r''\<rparr>],
         ca_key = generateCacheKey demo_platform demo_config\<rparr>\<rparr>, ())"
  by (simp add: demo_lookup_simps)

theorem AuthConfigForHostname_stable_witness:
  "\<exists>c2 w2 c3. lookups demo_platform [''s'', ''r''] (snd (AuthConfigForHostname demo_platform ''r'' (demo_config, ())))
        = (c2, w2)
     \<and> AuthConfigForHostname demo_platform ''r'' (c2, w2) = (Ok (demo_auth\<lparr>ac_ServerAddress := ''r''\<rparr>), c3, w2)"
proof -
  let ?s = "snd (AuthConfigForHostname demo_platform ''r'' (demo_config, ()))"
  obtain c2 w2 where l: "lookups demo_platform [''s'', ''r''] ?s = (c2, w2)"
    by (cases "lookups demo_platform [''s'', ''r''] ?s")
  have "AuthConfigForHostname demo_platform ''r'' (demo_config, ())
      = (Ok (demo_auth\<lparr>ac_ServerAddress := ''r''\<rparr>), fst ?s, snd ?s)"
    by (simp add: demo_lookup)
  moreover have "lookups demo_platform [''s'', ''r''] (fst ?s, snd ?s) = (c2, w2)"
    using l by (simp only: prod.collapse)
  ultimately have "\<exists>c3. AuthConfigForHostname demo_platform ''r'' (c2, w2)
      = (Ok (demo_auth\<lparr>ac_ServerAddress := ''r''\<rparr>), c3, w2)"
    by (rule AuthConfigForHostname_stable)
  with l show ?thesis by blast
qed

text \<open>What the cache holds is what resolving gave, and resolving does not look at the cache.\<close>

lemma resolve_stored_ignores_cache [simp]:
  "resolve_stored pf (c\<lparr>cfg_cache := x\<rparr>) h w = resolve_stored pf c h w"
  by (simp add: resolve_stored_def)

lemma resolve_ignores_cache [simp]:
  "resolveAuthConfigForHostname pf (c\<lparr>cfg_cache := x\<rparr>) h w = resolveAuthConfigForHostname pf c h w"
  by (auto simp: resolveAuthConfigForHostname_def Let_def split: option.split prod.split outcome.split)

definition cache_sound :: "'w platform \<Rightarrow> config \<Rightarrow> bool" where
  "cache_sound pf c \<longleftrightarrow>
     (\<forall>h a. cached c h = Some a \<longrightarrow> (\<exists>w w'. resolveAuthConfigForHostname pf c h w = (Ok a, w')))"

lemma getCache_resolve:
  "resolveAuthConfigForHostname pf (snd (getCache pf c)) h w = resolveAuthConfigForHostname pf c h w"
  using getCache_cache_only [of pf c] by auto

lemma AuthConfigForHostname_resolve_same:
  assumes "AuthConfigForHostname pf h (c, w) = (r, c', w')"
  shows "resolveAuthConfigForHostname pf c' k v = resolveAuthConfigForHostname pf c k v"
proof -
  obtain cache c1 where g: "getCache pf c = (cache, c1)" by (cases "getCache pf c")
  from assms g have "c' = c1 \<or> (\<exists>x. c' = c1\<lparr>cfg_cache := x\<rparr>)"
    by (auto simp: AuthConfigForHostname_def split: option.splits prod.splits outcome.splits)
  with getCache_resolve [of pf c k v] g show ?thesis by auto
qed

lemma AuthConfigForHostname_sound:
  assumes "cache_sound pf c" and "AuthConfigForHostname pf h (c, w) = (r, c', w')"
  shows "cache_sound pf c'"
proof (cases r)
  case (Ok a)
  have "\<exists>v v'. resolveAuthConfigForHostname pf c h v = (Ok a, v')"
  proof (cases "cached c h")
    case (Some b)
    with assms(2) Ok have "b = a" by (simp add: AuthConfigForHostname_hit)
    with assms(1) Some show ?thesis unfolding cache_sound_def by blast
  next
    case None
    obtain cache c1 where g: "getCache pf c = (cache, c1)" by (cases "getCache pf c")
    with assms(2) None Ok have "resolveAuthConfigForHostname pf c1 h w = (Ok a, w')"
      by (auto simp: AuthConfigForHostname_miss split: prod.splits outcome.splits)
    with getCache_resolve [of pf c h w] g show ?thesis by (metis snd_conv)
  qed
  with assms(1) Ok AuthConfigForHostname_cached [OF assms(2)]
    AuthConfigForHostname_resolve_same [OF assms(2)]
  show ?thesis by (auto simp: cache_sound_def)
qed (use assms(1) AuthConfigForHostname_cached [OF assms(2)]
      AuthConfigForHostname_resolve_same [OF assms(2)] in \<open>auto simp: cache_sound_def\<close>)

lemma clearAuthCache_cached [simp]: "cached (clearAuthCache pf c) h = None"
  by (auto simp: clearAuthCache_def split: prod.splits)

text \<open>The operations on a configuration's cache, in any order.\<close>

datatype cache_op = LookupHost string | ClearCache | StatsCache

fun cache_step :: "'w platform \<Rightarrow> cache_op \<Rightarrow> config \<times> 'w \<Rightarrow> config \<times> 'w" where
  "cache_step pf (LookupHost h) s = snd (AuthConfigForHostname pf h s)"
| "cache_step pf ClearCache (c, w) = (clearAuthCache pf c, w)"
| "cache_step pf StatsCache (c, w) = (snd (cacheStats pf c), w)"

lemma cache_step_sound: "cache_sound pf (fst s) \<Longrightarrow> cache_sound pf (fst (cache_step pf op s))"
proof (cases op)
  case (LookupHost h)
  moreover assume "cache_sound pf (fst s)"
  ultimately show ?thesis
    using AuthConfigForHostname_sound [of pf "fst s" h "snd s"]
    by (cases s; cases "AuthConfigForHostname pf h s") auto
next
  case ClearCache
  then show ?thesis by (cases s) (simp add: cache_sound_def)
next
  case StatsCache
  moreover assume "cache_sound pf (fst s)"
  ultimately show ?thesis
    by (cases s; cases "getCache pf (fst s)")
      (use getCache_resolve [of pf "fst s"] cached_getCache [of pf "fst s"] in
        \<open>auto simp: cache_sound_def cacheStats_def\<close>)
qed

text \<open>
  Whatever sequence of lookups, clearings and statistics runs on a fresh configuration, every
  cached entry is what \<open>resolveAuthConfigForHostname\<close> returned for that host: an entry is never stored
  under another host and no failed lookup leaves one.
\<close>

theorem cache_entries_are_resolved:
  assumes "cfg_cache c = None" and "fold (cache_step pf) ops (c, w) = (c', w')"
    and "cached c' h = Some a"
  shows "\<exists>v v'. resolveAuthConfigForHostname pf c' h v = (Ok a, v')"
proof -
  have "cache_sound pf (fst s) \<Longrightarrow> cache_sound pf (fst (fold (cache_step pf) ops s))" for s
  proof (induction ops arbitrary: s)
    case (Cons op ops)
    from Cons.IH [OF cache_step_sound [OF Cons.prems]] show ?case by simp
  qed simp
  moreover have "cache_sound pf c" using assms(1) by (simp add: cache_sound_def cached_def)
  ultimately have "cache_sound pf c'" using assms(2) by (metis fst_conv)
  with assms(3) show ?thesis by (simp add: cache_sound_def)
qed

theorem cache_entries_are_resolved_witness:
  "\<exists>c' v v'. fold (cache_step demo_platform) [StatsCache, LookupHost ''r''] (demo_config, ()) = (c', ())
     \<and> cached c' ''r'' = Some (demo_auth\<lparr>ac_ServerAddress := ''r''\<rparr>)
     \<and> resolveAuthConfigForHostname demo_platform c' ''r'' v = (Ok (demo_auth\<lparr>ac_ServerAddress := ''r''\<rparr>), v')"
proof -
  let ?ops = "[StatsCache, LookupHost ''r'']"
  let ?c = "fst (fold (cache_step demo_platform) ?ops (demo_config, ()))"
  have f: "fold (cache_step demo_platform) ?ops (demo_config, ()) = (?c, ())"
    by (simp add: prod_eq_iff)
  have n: "cfg_cache demo_config = None" by (simp add: demo_config_def zero_config_def)
  have h: "cached ?c ''r'' = Some (demo_auth\<lparr>ac_ServerAddress := ''r''\<rparr>)"
    by (simp add: cached_def cacheStats_def demo_lookup_simps)
  show ?thesis using f h cache_entries_are_resolved [OF n f h] by blast
qed



section \<open>Which credentials a host gets\<close>

text \<open>
  Every spelling of Docker Hub (its registry name, the index host with or without the path, the
  canonical URL) resolves to the same credentials.
\<close>

theorem docker_hub_aliases_alike:
  assumes "h1 \<in> set hub_aliases" and "h2 \<in> set hub_aliases"
  shows "resolveAuthConfigForHostname pf c h1 w = resolveAuthConfigForHostname pf c h2 w"
  using assms by (simp add: resolveAuthConfigForHostname_def ResolveRegistryHost_def)

theorem docker_hub_aliases_alike_witness:
  "''docker.io'' \<in> set hub_aliases \<and> ''registry-1.docker.io'' \<in> set hub_aliases \<and>
   resolveAuthConfigForHostname demo_platform demo_config ''docker.io'' ()
     = resolveAuthConfigForHostname demo_platform demo_config ''registry-1.docker.io'' ()"
proof -
  have "''docker.io'' \<in> set hub_aliases" and "''registry-1.docker.io'' \<in> set hub_aliases"
    by (simp_all add: hub_aliases_def)
  with docker_hub_aliases_alike [of "''docker.io''" "''registry-1.docker.io''"] show ?thesis by simp
qed

text \<open>
  Credentials stored as the base64 form of \<open>user:password\<close> are found and decoded. When no helper
  is set for the host, and the credential store is unset, fails, or has nothing for it, the lookup
  returns exactly that user and password, with the host as the server address.
\<close>

theorem stored_base64_credentials:
  assumes "cfg_CredentialHelpers c (ResolveRegistryHost host) = None"
    and "cfg_CredentialsStore c = '''' \<or>
         (\<exists>r w0. credentialsFromHelper pf (cfg_CredentialsStore c) (ResolveRegistryHost host) w = (r, w0)
            \<and> (r = Ok empty_auth \<or> (\<exists>e. r = Err e)))"
    and "map_of (cfg_AuthConfigs c) (ResolveRegistryHost host) = Some stored"
    and "ac_Auth stored = b64_encode (user @ '':'' @ pass)"
    and "ac_IdentityToken stored = ''''" and "ac_Username stored = '''' \<or> ac_Password stored = ''''"
    and "CHR '':'' \<notin> set user"
  shows "\<exists>a w'. resolveAuthConfigForHostname pf c host w = (Ok a, w')
     \<and> ac_Username a = user \<and> ac_Password a = pass \<and> ac_ServerAddress a = ResolveRegistryHost host"
proof -
  let ?h = "ResolveRegistryHost host"
  have stored: "resolve_stored pf c ?h v =
      (Ok (stored\<lparr>ac_ServerAddress := ?h, ac_Username := user, ac_Password := pass\<rparr>), v)" for v
    using assms(3-7)
    by (auto simp: resolve_stored_def processStoredAuthConfig_def decodeBase64Auth_def b64_decode_encode)
  from assms(2) show ?thesis
    using assms(1) stored
    by (auto simp: resolveAuthConfigForHostname_def Let_def empty_auth_def)
qed

definition demo_b64 :: config where
  "demo_b64 = zero_config\<lparr>cfg_CredentialsStore := ''desktop'',
     cfg_AuthConfigs := [(IndexDockerIO, empty_auth\<lparr>ac_Auth := b64_encode ''me:pa:ss''\<rparr>)]\<rparr>"

theorem stored_base64_credentials_witness:
  "\<exists>a w'. resolveAuthConfigForHostname demo_platform demo_b64 ''docker.io'' () = (Ok a, w')
     \<and> ac_Username a = ''me'' \<and> ac_Password a = ''pa:ss'' \<and> ac_ServerAddress a = IndexDockerIO"
proof -
  have h: "ResolveRegistryHost ''docker.io'' = IndexDockerIO"
    by (simp add: ResolveRegistryHost_def hub_aliases_def)
  show ?thesis
    using stored_base64_credentials [of demo_b64 "''docker.io''" demo_platform "()"
        "empty_auth\<lparr>ac_Auth := b64_encode ''me:pa:ss''\<rparr>" "''me''" "''pa:ss''"]
    by (simp add: h demo_b64_def zero_config_def empty_auth_def credentialsFromHelper_def
        run_credential_helper_def demo_platform_def)
qed

text \<open>Processing images: what one step leaves in the cache.\<close>

definition image_entry :: "config \<Rightarrow> string \<Rightarrow> auth_config \<Rightarrow> bool" where
  "image_entry c r a \<longleftrightarrow> (\<exists>a0. cached c r = Some a0 \<and> a = a0\<lparr>ac_ServerAddress := r\<rparr>)"

definition image_registry :: "'w platform \<Rightarrow> string \<Rightarrow> string \<Rightarrow> bool" where
  "image_registry pf img r \<longleftrightarrow> (\<exists>ref. ParseImageRef (pf_parse_ref pf) img = Ok ref \<and> ir_Registry ref = r)"

lemma ParseImageRef_Err:
  "ParseImageRef f img = Err e \<Longrightarrow> \<exists>d. f img = Err d \<and> e = wrapf ''parse image ref'' d"
  by (cases "f img") (auto simp: ParseImageRef_def Let_def)

lemma AuthConfigForImage_Err:
  assumes "env_errors_avoid pf ErrCredentialsNotFound"
    and "AuthConfigForImage pf img (c, w) = ((r, Err e), s')"
  shows "\<not> errors_is e ErrCredentialsNotFound"
proof (cases "ParseImageRef (pf_parse_ref pf) img")
  case (Ok ref)
  obtain q c1 w1 where l: "AuthConfigForHostname pf (ir_Registry ref) (c, w) = (q, c1, w1)"
    by (cases "AuthConfigForHostname pf (ir_Registry ref) (c, w)") auto
  from assms(2) Ok l have q: "q = Err e" by (auto simp: AuthConfigForImage_def split: outcome.splits)
  from l q have "AuthConfigForHostname pf (ir_Registry ref) (c, w) = (Err e, c1, w1)" by simp
  then show ?thesis
    using resolveAuthConfigForHostname_Err [OF assms(1)]
    by (auto simp: AuthConfigForHostname_def split: prod.splits option.splits outcome.splits)
next
  case (Err d)
  then show ?thesis
    using assms(2) ParseImageRef_Err [OF Err] env_errors_avoidD(4) [OF assms(1)]
    by (auto simp: AuthConfigForImage_def)
next
  case (Panic p)
  with assms(2) show ?thesis by (simp add: AuthConfigForImage_def)
qed

lemma AuthConfigForImage_Ok:
  assumes "AuthConfigForImage pf img (c, w) = ((r, Ok a), c', w')"
  shows "image_registry pf img r" and "image_entry c' r a"
    and "\<And>k b. image_entry c k b \<Longrightarrow> image_entry c' k b"
proof -
  from assms obtain ref a0 where p: "ParseImageRef (pf_parse_ref pf) img = Ok ref"
    and l: "AuthConfigForHostname pf (ir_Registry ref) (c, w) = (Ok a0, c', w')"
    and r: "r = ir_Registry ref" and a: "a = a0\<lparr>ac_ServerAddress := r\<rparr>"
    by (auto simp: AuthConfigForImage_def split: outcome.splits prod.splits)
  show "image_registry pf img r" using p r by (auto simp: image_registry_def)
  show "image_entry c' r a"
    using AuthConfigForHostname_cached [OF l] r a by (simp add: image_entry_def)
  fix k b
  assume "image_entry c k b"
  then obtain b0 where b0: "cached c k = Some b0" "b = b0\<lparr>ac_ServerAddress := k\<rparr>"
    by (auto simp: image_entry_def)
  from lookups_keep [OF b0(1), of pf "[ir_Registry ref]" w] l have "cached c' k = Some b0" by simp
  with b0 show "image_entry c' k b" by (simp add: image_entry_def)
qed

text \<open>
  The failures of the images, in their order: each image is looked up with the cache that the ones before it left,
  and its failure names its registry.
\<close>

fun image_failures :: "'w platform \<Rightarrow> string list \<Rightarrow> config \<times> 'w \<Rightarrow> err list" where
  "image_failures pf [] s = []"
| "image_failures pf (img # imgs) s =
     (case AuthConfigForImage pf img s of ((registry, r), s') \<Rightarrow>
        (case r of Err e \<Rightarrow> [wrapf (''auth config for '' @ show_q registry) e] | _ \<Rightarrow> []) @ image_failures pf imgs s')"

lemma auth_images_loop_failures:
  assumes "env_errors_avoid pf ErrCredentialsNotFound"
  shows "auth_images_loop pf imgs result errs s = (Ok (m, errs'), s') \<Longrightarrow> errs' = errs @ image_failures pf imgs s"
proof (induction imgs arbitrary: result errs s)
  case (Cons img imgs)
  obtain r q s1 where i: "AuthConfigForImage pf img s = ((r, q), s1)" by (metis surj_pair)
  show ?case
  proof (cases q)
    case (Err e)
    with AuthConfigForImage_Err [OF assms, of img "fst s" "snd s"] i have "\<not> errors_is e ErrCredentialsNotFound" by simp
    with Cons.prems i Err show ?thesis by (auto dest: Cons.IH)
  qed (use Cons.prems i in \<open>auto dest: Cons.IH\<close>)
qed simp

lemma auth_images_loop_no_error: "fst (auth_images_loop pf imgs result errs s) \<noteq> Err e"
  by (induction imgs arbitrary: result errs s) (auto split: prod.split outcome.split)

lemma auth_images_loop_Ok:
  assumes "env_errors_avoid pf ErrCredentialsNotFound"
    and "auth_images_loop pf imgs result [] (c, w) = (Ok (m, []), c', w')"
    and "\<And>r a. result r = Some a \<Longrightarrow> image_entry c r a"
  shows "dom m = dom result \<union> {r. \<exists>img\<in>set imgs. image_registry pf img r}
     \<and> (\<forall>r a. m r = Some a \<longrightarrow> image_entry c' r a)"
  using assms(2,3)
proof (induction imgs arbitrary: result c w)
  case Nil
  then show ?case by simp
next
  case (Cons img imgs)
  obtain r q c1 w1 where i: "AuthConfigForImage pf img (c, w) = ((r, q), c1, w1)"
    by (metis surj_pair)
  show ?case
  proof (cases q)
    case (Ok a)
    note ok = AuthConfigForImage_Ok [OF i [unfolded Ok]]
    have a: "a\<lparr>ac_ServerAddress := r\<rparr> = a" using ok(2) by (auto simp: image_entry_def)
    have l: "auth_images_loop pf imgs (result(r \<mapsto> a)) [] (c1, w1) = (Ok (m, []), c', w')"
      using Cons.prems(1) i Ok a by simp
    have keep: "(result(r \<mapsto> a)) k = Some b \<Longrightarrow> image_entry c1 k b" for k b
      using ok(2,3) Cons.prems(2) by (auto split: if_splits)
    have uniq: "image_registry pf img k \<longleftrightarrow> k = r" for k
      using ok(1) by (auto simp: image_registry_def)
    have d: "dom m = dom (result(r \<mapsto> a)) \<union> {r. \<exists>img\<in>set imgs. image_registry pf img r}"
      and e: "\<forall>r a. m r = Some a \<longrightarrow> image_entry c' r a"
      using Cons.IH [OF l keep] by blast+
    have "dom (result(r \<mapsto> a)) = insert r (dom result)" by simp
    with d e uniq show ?thesis by (simp only: list.set bex_simps) auto
  next
    case (Err e)
    then have "\<not> errors_is e ErrCredentialsNotFound"
      using AuthConfigForImage_Err [OF assms(1)] i by blast
    with Cons.prems(1) i Err show ?thesis by (auto dest: auth_images_loop_failures [OF assms(1)])
  next
    case (Panic p)
    with Cons.prems(1) i show ?thesis by simp
  qed
qed

text \<open>
  C31: \<open>AuthConfigsForImages\<close> succeeds exactly when the lookup of no image fails, and otherwise its error joins the
  failures of all images, in their order, each with its registry, so that whatever one of them is can be found with
  \<open>errors.Is\<close>. When it succeeds, the result has one entry for the registry of every image (also for the images
  without any credentials) and no other, and the entry is the resolved credentials of that registry with the registry
  as its server address.
\<close>

theorem AuthConfigsForImages_entries:
  assumes "env_errors_avoid pf ErrCredentialsNotFound"
    and "AuthConfigsForImages pf images (c, w) = (r, c', w')"
  shows "(\<forall>m. r = Ok m \<longrightarrow> image_failures pf images (c, w) = []
            \<and> dom m = {r. \<exists>img\<in>set images. image_registry pf img r}
            \<and> (\<forall>r a. m r = Some a \<longrightarrow> image_entry c' r a))
     \<and> (\<forall>e. r = Err e \<longrightarrow> image_failures pf images (c, w) \<noteq> [] \<and> e = Join (image_failures pf images (c, w))
            \<and> (\<forall>f\<in>set (image_failures pf images (c, w)). \<forall>n. errors_is f n \<longrightarrow> errors_is e n))"
proof -
  obtain q s1 where Pair: "auth_images_loop pf images Map.empty [] (c, w) = (q, s1)" by (metis surj_pair)
  show ?thesis
  proof (cases q)
    case (Ok x)
    obtain m errs where x: "x = (m, errs)" by (cases x)
    with Pair Ok auth_images_loop_failures [OF assms(1), of images Map.empty "[]" "(c, w)" m errs s1]
    have errs: "errs = image_failures pf images (c, w)" by simp
    show ?thesis
    proof (cases "errs = []")
      case True
      with assms(2) Pair Ok x have "r = Ok m" "auth_images_loop pf images Map.empty [] (c, w) = (Ok (m, []), c', w')"
        by (simp_all add: AuthConfigsForImages_def)
      with auth_images_loop_Ok [OF assms(1) this(2)] True errs show ?thesis by simp
    next
      case False
      with assms(2) Pair Ok x have "r = Err (Join errs)" by (simp add: AuthConfigsForImages_def)
      with False errs show ?thesis by auto
    qed
  next
    case (Err e)
    with Pair auth_images_loop_no_error [of pf images Map.empty "[]" "(c, w)" e] show ?thesis by simp
  next
    case (Panic p)
    with assms(2) Pair have "r = Panic p" by (simp add: AuthConfigsForImages_def)
    then show ?thesis by simp
  qed
qed

text \<open>Two images of a registry whose stored credentials are not base64: both failures are reported.\<close>

definition demo_bad_hub :: config where
  "demo_bad_hub = zero_config\<lparr>cfg_AuthConfigs := [(IndexDockerIO, empty_auth\<lparr>ac_Auth := ''!''\<rparr>)]\<rparr>"

definition demo_bad_failure :: err where
  "demo_bad_failure = wrapf (''auth config for '' @ show_q ''docker.io'')
     (wrapf ''decode base64 auth'' (wrapf ''decode auth'' (Msg ''illegal base64 data'')))"

theorem AuthConfigsForImages_entries_witness:
  "(\<exists>m c'. AuthConfigsForImages demo_platform [''alpine''] (demo_config, ()) = (Ok m, c', ()) \<and> dom m = {''docker.io''})
   \<and> (\<exists>c'. AuthConfigsForImages demo_platform [''alpine'', ''redis''] (demo_bad_hub, ())
        = (Err (Join [demo_bad_failure, demo_bad_failure]), c', ()))"
proof
  obtain m c' where r: "AuthConfigsForImages demo_platform [''alpine''] (demo_config, ()) = (Ok m, c', ())"
    by (simp add: AuthConfigsForImages_def AuthConfigForImage_def ParseImageRef_def empty_ref_def
        demo_lookup_simps credentialsFromHelper_def getCredentialHelper_def run_credential_helper_def
        demo_platform_def)
  have "image_registry demo_platform ''alpine'' k \<longleftrightarrow> k = ''docker.io''" for k
    by (auto simp: image_registry_def ParseImageRef_def empty_ref_def demo_platform_def)
  with AuthConfigsForImages_entries [OF demo_avoid r] r
  show "\<exists>m c'. AuthConfigsForImages demo_platform [''alpine''] (demo_config, ()) = (Ok m, c', ()) \<and> dom m = {''docker.io''}"
    by auto
  obtain e c2 where r2: "AuthConfigsForImages demo_platform [''alpine'', ''redis''] (demo_bad_hub, ()) = (Err e, c2, ())"
    and f: "image_failures demo_platform [''alpine'', ''redis''] (demo_bad_hub, ()) = [demo_bad_failure, demo_bad_failure]"
    by (simp add: AuthConfigsForImages_def AuthConfigForImage_def ParseImageRef_def empty_ref_def demo_bad_hub_def
        AuthConfigForHostname_def getCache_def initCache_def Let_def zero_config_def demo_bad_failure_def
        resolveAuthConfigForHostname_def ResolveRegistryHost_def hub_aliases_def IndexDockerIO_def b64_decode_def
        resolve_stored_def processStoredAuthConfig_def decodeBase64Auth_def empty_auth_def demo_platform_def)
  with AuthConfigsForImages_entries [OF demo_avoid r2, unfolded f]
  show "\<exists>c'. AuthConfigsForImages demo_platform [''alpine'', ''redis''] (demo_bad_hub, ())
        = (Err (Join [demo_bad_failure, demo_bad_failure]), c', ())" by auto
qed


section \<open>Proxy settings: lemmas\<close>

text \<open>The variables the configuration sets: each non-empty setting under its two spellings.\<close>

fun proxy_vars :: "(string \<times> string) list \<Rightarrow> string smap" where
  "proxy_vars [] = Map.empty"
| "proxy_vars ((k, v) # xs) =
     (if v = '''' then proxy_vars xs else (proxy_vars xs)(k \<mapsto> v, to_lower k \<mapsto> v))"

definition names_of :: "(string \<times> string) list \<Rightarrow> string list" where
  "names_of xs = map fst xs @ map (to_lower \<circ> fst) xs"

lemma names_of_simps [simp]:
  "set (names_of []) = {}"
  "set (names_of ((k, v) # xs)) = insert k (insert (to_lower k) (set (names_of xs)))"
  "distinct (names_of ((k, v) # xs)) \<longleftrightarrow>
     k \<noteq> to_lower k \<and> k \<notin> set (names_of xs) \<and> to_lower k \<notin> set (names_of xs) \<and> distinct (names_of xs)"
  by (auto simp: names_of_def)

lemma proxy_vars_fresh: "k \<notin> set (names_of xs) \<Longrightarrow> proxy_vars xs k = None"
  by (induction xs rule: proxy_vars.induct) auto

lemma proxy_vars_Some_iff:
  "distinct (names_of xs) \<Longrightarrow>
     proxy_vars xs x = Some v \<longleftrightarrow> v \<noteq> '''' \<and> (\<exists>k. (k, v) \<in> set xs \<and> (x = k \<or> x = to_lower k))"
proof (induction xs rule: proxy_vars.induct)
  case (2 k u xs)
  have *: "(l, v) \<in> set xs \<Longrightarrow> l \<in> set (names_of xs) \<and> to_lower l \<in> set (names_of xs)" for l
    by (force simp: names_of_def)
  with 2 show ?case by auto
qed simp

lemma fold_proxy_step:
  "distinct (names_of xs) \<Longrightarrow>
     fold proxy_step xs m x = (case m x of Some p \<Rightarrow> Some p | None \<Rightarrow> map_option Some (proxy_vars xs x))"
proof (induction xs arbitrary: m rule: proxy_vars.induct)
  case 1
  then show ?case by (simp split: option.split)
next
  case (2 k v xs)
  have IH: "fold proxy_step xs m' x = (case m' x of Some p \<Rightarrow> Some p | None \<Rightarrow> map_option Some (proxy_vars xs x))" for m'
    using 2 by (cases "v = ''''") auto
  have step: "fold proxy_step ((k, v) # xs) m x = fold proxy_step xs (proxy_step (k, v) m) x" by simp
  show ?case
    unfolding step IH using "2.prems" by (auto simp: proxy_step_def Let_def split: option.split)
qed

lemma map_ext_Some: "(\<And>x v. f x = Some v \<longleftrightarrow> g x = Some v) \<Longrightarrow> f = g"
  by (rule ext) (metis not_None_eq)

lemma proxy_vars_perm:
  assumes "distinct (names_of xs)" and "mset ys = mset xs"
  shows "distinct (names_of ys)" and "proxy_vars ys = proxy_vars xs"
proof -
  have "mset (names_of ys) = mset (names_of xs)" using assms(2) by (simp add: names_of_def)
  with assms(1) show d: "distinct (names_of ys)" by (metis mset_eq_imp_distinct_iff)
  show "proxy_vars ys = proxy_vars xs"
    by (rule map_ext_Some)
      (simp add: proxy_vars_Some_iff [OF d] proxy_vars_Some_iff [OF assms(1)] mset_eq_setD [OF assms(2)])
qed

lemma proxy_names_lower:
  "to_lower ''HTTP_PROXY'' = ''http_proxy''" "to_lower ''HTTPS_PROXY'' = ''https_proxy''"
  "to_lower ''NO_PROXY'' = ''no_proxy''" "to_lower ''FTP_PROXY'' = ''ftp_proxy''"
  "to_lower ''ALL_PROXY'' = ''all_proxy''"
  by code_simp+

lemma permitted_distinct: "distinct (names_of (permitted conf))"
  by (simp add: permitted_def proxy_names_lower names_of_def)

text \<open>
  C32: the environment that \<open>ParseProxyConfig\<close> computes does not depend on the order in which Go walks
  its map: every variable the container already has keeps its value (also a nil one), every other
  variable is set exactly when it is the upper- or lower-case name of a non-empty setting of the
  host's entry, or of the entry \<open>default\<close> when the host has none.
\<close>

theorem ParseProxyConfig_closed_form:
  assumes "mset (walk (permitted conf)) = mset (permitted conf)"
    and "conf = (case map_of (cfg_Proxies c) host of
           Some p \<Rightarrow> p
         | None \<Rightarrow> (case map_of (cfg_Proxies c) ''default'' of Some p \<Rightarrow> p | None \<Rightarrow> empty_proxy))"
  shows "ParseProxyConfig walk c host runOpts x =
     (case nilmap_read runOpts x of
        Some p \<Rightarrow> Some p
      | None \<Rightarrow> map_option Some (proxy_vars (permitted conf) x))"
proof -
  have "ParseProxyConfig walk c host runOpts = fold proxy_step (walk (permitted conf)) (nilmap_read runOpts)"
    using assms(2) by (auto simp: ParseProxyConfig_def Let_def split: option.splits)
  then show ?thesis
    using fold_proxy_step [OF proxy_vars_perm(1) [OF permitted_distinct assms(1)]]
    by (simp only: proxy_vars_perm(2) [OF permitted_distinct assms(1)])
qed

definition demo_proxies :: config where
  "demo_proxies = zero_config\<lparr>cfg_Proxies := [(''default'', empty_proxy\<lparr>px_HTTPProxy := ''http://p''\<rparr>)]\<rparr>"

theorem ParseProxyConfig_closed_form_witness:
  "ParseProxyConfig rev demo_proxies ''tcp://h'' (Some [''http_proxy'' \<mapsto> None]) ''HTTP_PROXY'' = Some (Some ''http://p'')
   \<and> ParseProxyConfig rev demo_proxies ''tcp://h'' (Some [''http_proxy'' \<mapsto> None]) ''http_proxy'' = Some None"
proof -
  let ?conf = "empty_proxy\<lparr>px_HTTPProxy := ''http://p''\<rparr>"
  have "mset (rev (permitted ?conf)) = mset (permitted ?conf)" by simp
  moreover have "?conf = (case map_of (cfg_Proxies demo_proxies) ''tcp://h'' of
           Some p \<Rightarrow> p
         | None \<Rightarrow> (case map_of (cfg_Proxies demo_proxies) ''default'' of Some p \<Rightarrow> p | None \<Rightarrow> empty_proxy))"
    by (simp add: demo_proxies_def)
  ultimately have "ParseProxyConfig rev demo_proxies ''tcp://h'' (Some [''http_proxy'' \<mapsto> None]) x =
      (case nilmap_read (Some [''http_proxy'' \<mapsto> None]) x of
         Some p \<Rightarrow> Some p | None \<Rightarrow> map_option Some (proxy_vars (permitted ?conf) x))" for x
    by (rule ParseProxyConfig_closed_form)
  then show ?thesis
    by (simp add: permitted_def proxy_names_lower empty_proxy_def)
qed


section \<open>Saving and loading again\<close>

lemma file_exists_below: "node_at r (p @ q) = Inr n \<Longrightarrow> file_exists r p"
  by (auto simp: node_at_append file_exists_def split: sum.splits)

lemma Filepath_Ok:
  assumes "Filepath pf disk = Ok p"
  shows "\<exists>dir. p = dir @ [FileName] \<and> Dir pf disk = Ok dir \<and> file_exists disk p"
  using assms by (auto simp: Filepath_def outcome_simps Let_def split: if_splits)

lemma Dir_cong:
  assumes "Dir pf disk = Ok dir" and "file_exists disk' dir"
  shows "Dir pf disk' = Ok dir"
  using assms by (auto simp: Dir_def outcome_simps Let_def split: if_splits)

lemma Load_file:
  assumes "getenv pf ''DOCKER_AUTH_CONFIG'' = ''''" and "Load pf disk = Ok c"
  obtains p data where "cfg_filepath c = Some p" and "Filepath pf disk = Ok p"
    and "node_at disk p = Inr (FileN data)"
  using assms
  by (auto simp: Load_def outcome_simps loadFromFilepath_def read_file_def
      split: sum.splits node.splits if_splits)

lemma Save_Ok:
  assumes "Save pf c disk = (Ok (), disk')"
  shows "\<exists>p data. pf_marshal pf c = Ok data \<and> cfg_filepath c = Some p \<and> write_file disk p data = Inr disk'"
  using assms by (auto simp: Save_def split: outcome.splits option.splits sum.splits)

lemma Load_after_Save:
  assumes "getenv pf ''DOCKER_AUTH_CONFIG'' = ''''" and "Filepath pf disk = Ok p"
    and "cfg_filepath c = Some p" and "Save pf c disk = (Ok (), disk')"
    and "pf_marshal pf c = Ok data" and "pf_decode pf data = Ok d"
  shows "Load pf disk' = Ok (d\<lparr>cfg_filepath := Some p\<rparr>)"
proof -
  from Filepath_Ok [OF assms(2)] obtain dir where p: "p = dir @ [FileName]" and dir: "Dir pf disk = Ok dir"
    by auto
  from Save_Ok [OF assms(4)] assms(3,5) have "write_file disk p data = Inr disk'" by auto
  then have at: "node_at disk' p = Inr (FileN data)" by (rule tree_store.wr_same)
  then have ex: "file_exists disk' dir" "file_exists disk' p"
    using file_exists_below [of disk' dir "[FileName]"] by (auto simp: p file_exists_def)
  have "Filepath pf disk' = Ok p"
    using Dir_cong [OF dir ex(1)] ex(2) p by (simp add: Filepath_def)
  with assms(1,6) at show ?thesis
    by (simp add: Load_def loadFromFilepath_def read_file_def)
qed

text \<open>
  C33: what \<open>Save\<close> writes is what \<open>Load\<close> reads. A configuration loaded from a file, changed and saved
  without error, is loaded again with the change, provided the JSON form of that configuration decodes
  to it. Nothing but the configuration file changes on the disk.
\<close>

theorem Save_then_Load:
  assumes "getenv pf ''DOCKER_AUTH_CONFIG'' = ''''" and "Load pf disk = Ok c"
    and "Save pf (c\<lparr>cfg_CurrentContext := x\<rparr>) disk = (Ok (), disk')"
    and "\<And>data. pf_marshal pf (c\<lparr>cfg_CurrentContext := x\<rparr>) = Ok data \<Longrightarrow>
           pf_decode pf data = Ok (c\<lparr>cfg_CurrentContext := x, cfg_filepath := None, cfg_cache := None\<rparr>)"
  shows "Load pf disk' = Ok (c\<lparr>cfg_CurrentContext := x, cfg_cache := None\<rparr>)
     \<and> (\<exists>p. cfg_filepath c = Some p \<and> (\<forall>q. forks p q \<longrightarrow> node_at disk' q = node_at disk q))"
proof -
  from Load_file [OF assms(1,2)] obtain p where p: "cfg_filepath c = Some p" "Filepath pf disk = Ok p"
    by metis
  from Save_Ok [OF assms(3)] p(1) obtain data
    where m: "pf_marshal pf (c\<lparr>cfg_CurrentContext := x\<rparr>) = Ok data" and w: "write_file disk p data = Inr disk'"
    by auto
  have "Load pf disk' = Ok (c\<lparr>cfg_CurrentContext := x, cfg_cache := None\<rparr>)"
    using Load_after_Save [OF assms(1) p(2) _ assms(3) m assms(4) [OF m]] p(1) by simp
  with p(1) tree_store.wr_other [OF w] show ?thesis by auto
qed

definition demo_disk :: node where
  "demo_disk = DirN [(''root'', DirN [(''.docker'', DirN [(''config.json'', FileN ''{}'')])])]"

definition demo_saved :: "unit platform" where
  "demo_saved = demo_platform\<lparr>pf_marshal := (\<lambda>c. Ok (cfg_CurrentContext c)),
     pf_decode := (\<lambda>s. Ok (zero_config\<lparr>cfg_CurrentContext := if s = ''{}'' then '''' else s\<rparr>))\<rparr>"

theorem Save_then_Load_witness:
  "\<exists>c disk'. Load demo_saved demo_disk = Ok c
     \<and> Save demo_saved (c\<lparr>cfg_CurrentContext := ''prod''\<rparr>) demo_disk = (Ok (), disk')
     \<and> Load demo_saved disk' = Ok (c\<lparr>cfg_CurrentContext := ''prod'', cfg_cache := None\<rparr>)"
proof -
  let ?c = "zero_config\<lparr>cfg_filepath := Some [''root'', ''.docker'', ''config.json'']\<rparr>"
  have env: "getenv demo_saved ''DOCKER_AUTH_CONFIG'' = ''''"
    by (simp add: getenv_def demo_saved_def demo_platform_def)
  have l: "Load demo_saved demo_disk = Ok ?c"
    by (simp add: Load_def Filepath_def Dir_def getHomeDir_def getenv_def loadFromFilepath_def
        read_file_def file_exists_def path_of_def demo_saved_def demo_platform_def demo_disk_def
        EnvOverrideDir_def configFileDir_def FileName_def zero_config_def)
  obtain disk' where s: "Save demo_saved (?c\<lparr>cfg_CurrentContext := ''prod''\<rparr>) demo_disk = (Ok (), disk')"
    by (simp add: Save_def demo_saved_def demo_platform_def demo_disk_def)
  have "Load demo_saved disk' = Ok (?c\<lparr>cfg_CurrentContext := ''prod'', cfg_cache := None\<rparr>)"
    using Save_then_Load [OF env l s] by (auto simp: demo_saved_def zero_config_def)
  with l s show ?thesis by blast
qed

end
