(* ===== verification/Json_Codec.thy ===== *)
theory Json_Codec
  imports Go_Prelude
begin

text \<open>
  The part of package \<open>encoding/json\<close> that the SDK's files go through: the values, the compact
  printer of \<open>json.Marshal\<close> (with its HTML escapes), the parser of \<open>json.Unmarshal\<close>, and the proof
  that the parser reads back what the printer writes. Numbers keep their literal text; bytes from 128
  on are copied as they are (valid UTF-8 is assumed); surrogate pairs are not combined.
\<close>

datatype json =
    JNull
  | JBool bool
  | JNum string
  | JStr string
  | JArr "json list"
  | JObj "(string \<times> json) list"


section \<open>Printing\<close>

definition hex_digit :: "nat \<Rightarrow> char" where
  "hex_digit d = (if d < 10 then char_of (48 + d) else char_of (87 + d))"

definition hex_val :: "char \<Rightarrow> nat option" where
  "hex_val c =
     (let n = of_char c :: nat in
      if 48 \<le> n \<and> n \<le> 57 then Some (n - 48)
      else if 97 \<le> n \<and> n \<le> 102 then Some (n - 87)
      else if 65 \<le> n \<and> n \<le> 70 then Some (n - 55)
      else None)"

definition escape_char :: "char \<Rightarrow> string" where
  "escape_char c =
     (let n = of_char c :: nat in
      if n = 34 \<or> n = 92 then [char_of (92 :: nat), c]
      else if n = 8 then char_of (92 :: nat) # ''b''
      else if n = 12 then char_of (92 :: nat) # ''f''
      else if n = 10 then char_of (92 :: nat) # ''n''
      else if n = 13 then char_of (92 :: nat) # ''r''
      else if n = 9 then char_of (92 :: nat) # ''t''
      else if n < 32 \<or> n = 60 \<or> n = 62 \<or> n = 38
        then char_of (92 :: nat) # ''u00'' @ [hex_digit (n div 16), hex_digit (n mod 16)]
      else [c])"

abbreviation dquote :: char where
  "dquote \<equiv> CHR 0x22"

abbreviation backslash :: char where
  "backslash \<equiv> CHR 0x5C"

definition print_string :: "string \<Rightarrow> string" where
  "print_string s = dquote # concat (map escape_char s) @ [dquote]"

fun jprint :: "json \<Rightarrow> string"
  and jprint_items :: "json list \<Rightarrow> string"
  and jprint_members :: "(string \<times> json) list \<Rightarrow> string" where
  "jprint JNull = ''null''"
| "jprint (JBool b) = (if b then ''true'' else ''false'')"
| "jprint (JNum s) = s"
| "jprint (JStr s) = print_string s"
| "jprint (JArr js) = ''['' @ (if js = [] then '']'' else jprint_items js)"
| "jprint (JObj ms) = ''{'' @ (if ms = [] then ''}'' else jprint_members ms)"
| "jprint_items [] = '']''"
| "jprint_items (j # js) = jprint j @ (if js = [] then '']'' else '','' @ jprint_items js)"
| "jprint_members [] = ''}''"
| "jprint_members ((k, j) # ms) =
     print_string k @ '':'' @ jprint j @ (if ms = [] then ''}'' else '','' @ jprint_members ms)"


section \<open>Parsing\<close>

definition json_space :: "char \<Rightarrow> bool" where
  "json_space c = (let n = of_char c :: nat in n = 32 \<or> n = 9 \<or> n = 10 \<or> n = 13)"

definition skip_ws :: "string \<Rightarrow> string" where
  "skip_ws s = dropWhile json_space s"

text \<open>The UTF-8 encoding of a code point below 65536.\<close>

definition utf8 :: "nat \<Rightarrow> string" where
  "utf8 n =
     (if n < 128 then [char_of n]
      else if n < 2048 then [char_of (192 + n div 64), char_of (128 + n mod 64)]
      else [char_of (224 + n div 4096), char_of (128 + n div 64 mod 64), char_of (128 + n mod 64)])"

definition hex4 :: "char \<Rightarrow> char \<Rightarrow> char \<Rightarrow> char \<Rightarrow> nat option" where
  "hex4 a b c d =
     (case (hex_val a, hex_val b, hex_val c, hex_val d) of
        (Some p, Some q, Some r, Some s) \<Rightarrow> Some (((p * 16 + q) * 16 + r) * 16 + s)
      | _ \<Rightarrow> None)"

definition unescape :: "char \<Rightarrow> char option" where
  "unescape c =
     (if c = dquote \<or> c = backslash \<or> c = CHR ''/'' then Some c
      else if c = CHR ''b'' then Some (char_of (8 :: nat))
      else if c = CHR ''f'' then Some (char_of (12 :: nat))
      else if c = CHR ''n'' then Some (char_of (10 :: nat))
      else if c = CHR ''r'' then Some (char_of (13 :: nat))
      else if c = CHR ''t'' then Some (char_of (9 :: nat))
      else None)"

text \<open>What follows the opening quote: the string, and the input after the closing quote.\<close>

fun parse_string :: "string \<Rightarrow> (string \<times> string) option" where
  "parse_string [] = None"
| "parse_string (c # cs) =
     (if c = dquote then Some ([], cs)
      else if c = backslash then
        (case cs of
           [] \<Rightarrow> None
         | e # r \<Rightarrow>
             if e = CHR ''u'' then
               (case r of
                  h1 # h2 # h3 # h4 # r' \<Rightarrow>
                    (case hex4 h1 h2 h3 h4 of
                       None \<Rightarrow> None
                     | Some n \<Rightarrow> map_option (\<lambda>(s, t). (utf8 n @ s, t)) (parse_string r'))
                | _ \<Rightarrow> None)
             else (case unescape e of
                     None \<Rightarrow> None
                   | Some x \<Rightarrow> map_option (\<lambda>(s, t). (x # s, t)) (parse_string r)))
      else if (of_char c :: nat) < 32 then None
      else map_option (\<lambda>(s, t). (c # s, t)) (parse_string cs))"

definition is_digit :: "char \<Rightarrow> bool" where
  "is_digit c = (digit_val c \<noteq> None)"

definition number_char :: "char \<Rightarrow> bool" where
  "number_char c = (is_digit c \<or> c \<in> set ''+-.eE'')"

text \<open>The number grammar: sign, integer part without leading zeros, fraction, exponent.\<close>

definition exponent_ok :: "string \<Rightarrow> bool" where
  "exponent_ok s =
     (s = [] \<or> (hd s \<in> set ''eE'' \<and>
       (let r = (if tl s \<noteq> [] \<and> hd (tl s) \<in> set ''+-'' then tl (tl s) else tl s)
        in r \<noteq> [] \<and> list_all is_digit r)))"

definition fraction_ok :: "string \<Rightarrow> bool" where
  "fraction_ok s =
     (if s \<noteq> [] \<and> hd s = CHR ''.''
      then takeWhile is_digit (tl s) \<noteq> [] \<and> exponent_ok (dropWhile is_digit (tl s))
      else exponent_ok s)"

definition number_ok :: "string \<Rightarrow> bool" where
  "number_ok s =
     (let u = (if s \<noteq> [] \<and> hd s = CHR ''-'' then tl s else s);
          i = takeWhile is_digit u
      in i \<noteq> [] \<and> (hd i = CHR ''0'' \<longrightarrow> length i = 1) \<and> fraction_ok (dropWhile is_digit u))"

text \<open>
  Two calls in a row consume at least one character, so that fuel of twice the length is enough.
\<close>

fun parse_value :: "nat \<Rightarrow> string \<Rightarrow> (json \<times> string) option"
  and parse_items :: "nat \<Rightarrow> string \<Rightarrow> (json list \<times> string) option"
  and parse_members :: "nat \<Rightarrow> string \<Rightarrow> ((string \<times> json) list \<times> string) option" where
  "parse_value 0 s = None"
| "parse_value (Suc n) s =
     (let t = skip_ws s in
      if t = [] then None
      else if hd t = CHR ''{'' then
        (let u = skip_ws (tl t) in
         if u \<noteq> [] \<and> hd u = CHR ''}'' then Some (JObj [], tl u)
         else map_option (\<lambda>(ms, r). (JObj ms, r)) (parse_members n u))
      else if hd t = CHR ''['' then
        (let u = skip_ws (tl t) in
         if u \<noteq> [] \<and> hd u = CHR '']'' then Some (JArr [], tl u)
         else map_option (\<lambda>(js, r). (JArr js, r)) (parse_items n u))
      else if hd t = dquote then map_option (\<lambda>(x, r). (JStr x, r)) (parse_string (tl t))
      else if has_prefix t ''null'' then Some (JNull, drop 4 t)
      else if has_prefix t ''true'' then Some (JBool True, drop 4 t)
      else if has_prefix t ''false'' then Some (JBool False, drop 5 t)
      else if number_ok (takeWhile number_char t)
        then Some (JNum (takeWhile number_char t), dropWhile number_char t)
      else None)"
| "parse_items 0 s = None"
| "parse_items (Suc n) s =
     (case parse_value n s of
        None \<Rightarrow> None
      | Some (j, r) \<Rightarrow>
          (let u = skip_ws r in
           if u = [] then None
           else if hd u = CHR '']'' then Some ([j], tl u)
           else if hd u = CHR '','' then map_option (\<lambda>(js, r'). (j # js, r')) (parse_items n (tl u))
           else None))"
| "parse_members 0 s = None"
| "parse_members (Suc n) s =
     (let t = skip_ws s in
      if t = [] \<or> hd t \<noteq> dquote then None
      else case parse_string (tl t) of
        None \<Rightarrow> None
      | Some (k, r) \<Rightarrow>
          (let u = skip_ws r in
           if u = [] \<or> hd u \<noteq> CHR '':'' then None
           else case parse_value n (tl u) of
             None \<Rightarrow> None
           | Some (j, r2) \<Rightarrow>
               (let v = skip_ws r2 in
                if v = [] then None
                else if hd v = CHR ''}'' then Some ([(k, j)], tl v)
                else if hd v = CHR '','' then
                  map_option (\<lambda>(ms, r'). ((k, j) # ms, r')) (parse_members n (tl v))
                else None)))"

definition jparse :: "string \<Rightarrow> json option" where
  "jparse s =
     (case parse_value (Suc (2 * length s)) s of
        None \<Rightarrow> None
      | Some (j, r) \<Rightarrow> (if skip_ws r = [] then Some j else None))"


section \<open>The parser reads what the printer writes\<close>

lemma hex_val_digit [simp]: "d < 16 \<Longrightarrow> hex_val (hex_digit d) = Some d"
  by (simp add: hex_val_def hex_digit_def Let_def)

lemma hex4_00 [simp]: "d < 256 \<Longrightarrow> hex4 (CHR ''0'') (CHR ''0'') (hex_digit (d div 16)) (hex_digit (d mod 16)) = Some d"
  by (simp add: hex4_def hex_val_def [of "CHR ''0''"] less_mult_imp_div_less)

lemma utf8_ascii [simp]: "n < 128 \<Longrightarrow> utf8 n = [char_of n]"
  by (simp add: utf8_def)

lemma code_dquote: "(of_char c :: nat) = 34 \<longleftrightarrow> c = dquote"
proof -
  have "(of_char c :: nat) = of_char dquote \<longleftrightarrow> c = dquote" by (rule of_char_eq_iff)
  moreover have "(of_char dquote :: nat) = 34" by simp
  ultimately show ?thesis by (simp only:)
qed

lemma code_backslash: "(of_char c :: nat) = 92 \<longleftrightarrow> c = backslash"
proof -
  have "(of_char c :: nat) = of_char backslash \<longleftrightarrow> c = backslash" by (rule of_char_eq_iff)
  moreover have "(of_char backslash :: nat) = 92" by simp
  ultimately show ?thesis by (simp only:)
qed

lemma char_of_backslash: "char_of (92 :: nat) = backslash"
  using code_backslash [of "char_of (92 :: nat)"] by simp

lemma parse_string_escape:
  "parse_string (escape_char c @ t) = map_option (\<lambda>(s, r). (c # s, r)) (parse_string t)"
proof -
  let ?n = "of_char c :: nat"
  consider "?n = 34 \<or> ?n = 92" | "?n \<in> {8, 12, 10, 13, 9}"
    | "?n \<notin> {8, 12, 10, 13, 9}" "?n < 32 \<or> ?n = 60 \<or> ?n = 62 \<or> ?n = 38"
    | "32 \<le> ?n" "?n \<notin> {34, 92, 60, 62, 38}" by force
  then show ?thesis
  proof cases
    case 1
    then have u: "unescape c = Some c" and nu: "c \<noteq> CHR ''u''"
      by (auto simp: code_dquote code_backslash unescape_def)
    from 1 have "escape_char c = [backslash, c]"
      by (simp add: escape_char_def Let_def char_of_backslash)
    with u nu show ?thesis by simp
  next
    case 2
    have ck: "char_of ?n = c" by simp
    from 2 consider "?n = 8" | "?n = 12" | "?n = 10" | "?n = 13" | "?n = 9" by blast
    then show ?thesis
    proof cases
      case 1
      with ck have "escape_char c = [backslash, CHR ''b'']" "unescape (CHR ''b'') = Some c"
        by (simp_all add: escape_char_def unescape_def Let_def char_of_backslash)
      then show ?thesis by simp
    next
      case 2
      with ck have "escape_char c = [backslash, CHR ''f'']" "unescape (CHR ''f'') = Some c"
        by (simp_all add: escape_char_def unescape_def Let_def char_of_backslash)
      then show ?thesis by simp
    next
      case 3
      with ck have "escape_char c = [backslash, CHR ''n'']" "unescape (CHR ''n'') = Some c"
        by (simp_all add: escape_char_def unescape_def Let_def char_of_backslash)
      then show ?thesis by simp
    next
      case 4
      with ck have "escape_char c = [backslash, CHR ''r'']" "unescape (CHR ''r'') = Some c"
        by (simp_all add: escape_char_def unescape_def Let_def char_of_backslash)
      then show ?thesis by simp
    next
      case 5
      with ck have "escape_char c = [backslash, CHR ''t'']" "unescape (CHR ''t'') = Some c"
        by (simp_all add: escape_char_def unescape_def Let_def char_of_backslash)
      then show ?thesis by simp
    qed
  next
    case 3
    then have lt: "?n < 128" and ne: "?n \<noteq> 34" "?n \<noteq> 92" by auto
    from 3 ne have "escape_char c = backslash # ''u00'' @ [hex_digit (?n div 16), hex_digit (?n mod 16)]"
      by (auto simp: escape_char_def Let_def char_of_backslash)
    with lt show ?thesis by simp
  next
    case 4
    then have "escape_char c = [c]" "c \<noteq> dquote" "c \<noteq> backslash" by (auto simp: escape_char_def Let_def)
    with 4 show ?thesis by simp
  qed
qed

lemma parse_print_string:
  "parse_string (concat (map escape_char s) @ dquote # rest) = Some (s, rest)"
  by (induction s) (simp_all add: parse_string_escape)

text \<open>A value is well formed when its numbers are number literals.\<close>

fun json_wf :: "json \<Rightarrow> bool" where
  "json_wf (JNum s) = (number_ok s \<and> list_all number_char s)"
| "json_wf (JArr js) = list_all json_wf js"
| "json_wf (JObj ms) = list_all (\<lambda>(k, j). json_wf j) ms"
| "json_wf _ = True"

text \<open>What may follow a value: nothing, or a character that ends it.\<close>

definition ends_value :: "string \<Rightarrow> bool" where
  "ends_value r = (r = [] \<or> hd r \<in> {CHR '','', CHR '']'', CHR ''}''})"

lemma ends_value_simps [simp]:
  "ends_value []" "ends_value (CHR '','' # r)" "ends_value (CHR '']'' # r)" "ends_value (CHR ''}'' # r)"
  by (simp_all add: ends_value_def)

lemma not_number_char:
  "\<not> number_char (CHR '','')" "\<not> number_char (CHR '']'')" "\<not> number_char (CHR ''}'')"
  by (simp_all add: number_char_def is_digit_def digit_val_def)

lemma takeWhile_ends:
  assumes "list_all number_char s" and "ends_value r"
  shows "takeWhile number_char (s @ r) = s" and "dropWhile number_char (s @ r) = r"
proof -
  have r: "takeWhile number_char r = [] \<and> dropWhile number_char r = r"
    using assms(2) by (cases r) (auto simp: ends_value_def not_number_char)
  have s: "\<forall>x\<in>set s. number_char x" using assms(1) by (simp add: list_all_iff)
  from r s show "takeWhile number_char (s @ r) = s" by (simp add: takeWhile_append2)
  from r s show "dropWhile number_char (s @ r) = r" by (simp add: dropWhile_append2)
qed

text \<open>The first character of a printed value.\<close>

definition starts_value :: "char \<Rightarrow> bool" where
  "starts_value c = (\<not> json_space c \<and> c \<notin> {CHR '','', CHR '']'', CHR ''}'', CHR '':''})"

lemma digit_starts: "is_digit c \<Longrightarrow> starts_value c"
  by (auto simp: is_digit_def digit_val_def starts_value_def json_space_def Let_def split: if_splits)

lemma number_first: "number_ok s \<Longrightarrow> \<exists>c cs. s = c # cs \<and> (is_digit c \<or> c = CHR ''-'')"
  by (cases s) (auto simp: number_ok_def Let_def split: if_splits)

lemma minus_starts: "starts_value (CHR ''-'')"
  by (simp add: starts_value_def json_space_def)

lemma jprint_first:
  assumes "json_wf j"
  shows "\<exists>c cs. jprint j = c # cs \<and> starts_value c"
proof (cases j)
  case (JNum s)
  with assms obtain c cs where "s = c # cs" and "is_digit c \<or> c = CHR ''-''"
    using number_first [of s] by auto
  then have "s = c # cs \<and> starts_value c" by (auto intro: digit_starts simp: minus_starts)
  with JNum show ?thesis by auto
qed (auto simp: starts_value_def json_space_def print_string_def)

lemma skip_ws_first [simp]: "starts_value c \<Longrightarrow> skip_ws (c # cs) = c # cs"
  by (simp add: skip_ws_def starts_value_def)

lemma skip_ws_punct [simp]:
  "skip_ws (CHR '','' # r) = CHR '','' # r" "skip_ws (CHR '']'' # r) = CHR '']'' # r"
  "skip_ws (CHR ''}'' # r) = CHR ''}'' # r" "skip_ws (CHR '':'' # r) = CHR '':'' # r"
  "skip_ws (CHR ''{'' # r) = CHR ''{'' # r" "skip_ws (CHR ''['' # r) = CHR ''['' # r"
  "skip_ws (dquote # r) = dquote # r" "skip_ws [] = []"
  by (simp_all add: skip_ws_def json_space_def)


lemma parse_value_string:
  "parse_value (Suc n) (print_string s @ rest) = Some (JStr s, rest)"
  by (simp add: print_string_def parse_print_string)

lemma parse_value_number:
  assumes "number_ok s" and "list_all number_char s" and "ends_value rest"
  shows "parse_value (Suc n) (s @ rest) = Some (JNum s, rest)"
proof -
  from number_first [OF assms(1)] obtain c cs where s: "s = c # cs" and c: "is_digit c \<or> c = CHR ''-''"
    by auto
  from c have st: "starts_value c" by (auto intro: digit_starts simp: minus_starts)
  from c have ne: "c \<noteq> CHR ''{''" "c \<noteq> CHR ''[''" "c \<noteq> dquote" "c \<noteq> CHR ''n''" "c \<noteq> CHR ''t''" "c \<noteq> CHR ''f''"
    by (auto simp: is_digit_def digit_val_def)
  have "parse_value (Suc n) (s @ rest) =
      (if number_ok (takeWhile number_char (s @ rest))
       then Some (JNum (takeWhile number_char (s @ rest)), dropWhile number_char (s @ rest)) else None)"
    using st ne by (simp add: s)
  with takeWhile_ends [OF assms(2,3)] assms(1) show ?thesis by simp
qed

lemma print_string_length [simp]: "2 \<le> length (print_string s)"
  by (simp add: print_string_def)

lemma jprint_length: "json_wf j \<Longrightarrow> 1 \<le> length (jprint j)"
  using jprint_first [of j] by auto

lemma parse_jprint:
  "json_wf j \<Longrightarrow> ends_value rest \<Longrightarrow> 2 * length (jprint j) \<le> n \<Longrightarrow>
     parse_value n (jprint j @ rest) = Some (j, rest)"
  "list_all json_wf js \<Longrightarrow> js \<noteq> [] \<Longrightarrow> 2 * length (jprint_items js) < n \<Longrightarrow>
     parse_items n (jprint_items js @ rest) = Some (js, rest)"
  "list_all (\<lambda>(k, j). json_wf j) ms \<Longrightarrow> ms \<noteq> [] \<Longrightarrow> 2 * length (jprint_members ms) < n \<Longrightarrow>
     parse_members n (jprint_members ms @ rest) = Some (ms, rest)"
proof (induction j and js and ms arbitrary: n rest and n rest and n rest
    rule: jprint_jprint_items_jprint_members.induct)
  case (3 s)
  have "1 \<le> length s" using number_first [of s] 3 by (cases s) (auto simp: number_ok_def Let_def)
  with 3 obtain m where "n = Suc m" by (cases n) auto
  with 3 show ?case using parse_value_number by simp
next
  case (4 s)
  with print_string_length [of s] obtain m where "n = Suc m" by (cases n) (simp_all del: print_string_length)
  with parse_value_string show ?case by simp
next
  case (5 js)
  obtain m where n: "n = Suc m" using 5 by (cases n) auto
  show ?case
  proof (cases "js = []")
    case True
    with n show ?thesis by simp
  next
    case False
    then obtain j js' where js: "js = j # js'" by (cases js) auto
    with 5 jprint_first [of j] obtain c cs where j: "jprint j = c # cs" "starts_value c" by auto
    have "parse_items m (jprint_items js @ rest) = Some (js, rest)"
      using 5 False n by simp
    with False n js j show ?thesis by (auto simp: starts_value_def)
  qed
next
  case (6 ms)
  obtain m where n: "n = Suc m" using 6 by (cases n) auto
  show ?case
  proof (cases "ms = []")
    case True
    with n show ?thesis by simp
  next
    case False
    then obtain k j ms' where ms: "ms = (k, j) # ms'" by (cases ms) auto
    have "parse_members m (jprint_members ms @ rest) = Some (ms, rest)"
      using 6 False n by simp
    with False n ms show ?thesis by (simp add: print_string_def)
  qed
next
  case (8 j js)
  obtain m where n: "n = Suc m" using 8 by (cases n) auto
  let ?more = "(if js = [] then '']'' else '','' @ jprint_items js) @ rest"
  have "parse_value m (jprint j @ ?more) = Some (j, ?more)"
    using 8 n by (intro "8.IH"(1)) auto
  moreover have "js \<noteq> [] \<Longrightarrow> parse_items m (jprint_items js @ rest) = Some (js, rest)"
    using 8 n by (intro "8.IH"(2)) auto
  ultimately show ?case using n by (cases "js = []") auto
next
  case (10 k j ms)
  obtain m where n: "n = Suc m" using 10 by (cases n) auto
  let ?more = "(if ms = [] then ''}'' else '','' @ jprint_members ms) @ rest"
  have v: "parse_value m (jprint j @ ?more) = Some (j, ?more)"
    using 10 n by (intro "10.IH"(1)) auto
  have ms: "ms \<noteq> [] \<Longrightarrow> parse_members m (jprint_members ms @ rest) = Some (ms, rest)"
    using 10 n by (intro "10.IH"(2)) auto
  have "parse_string (concat (map escape_char k) @ dquote # CHR '':'' # jprint j @ ?more)
      = Some (k, CHR '':'' # jprint j @ ?more)"
    by (rule parse_print_string)
  with v ms n show ?case by (cases "ms = []") (auto simp: print_string_def)
next
  case 1
  then obtain m where "n = Suc m" by (cases n) auto
  then show ?case by (simp add: skip_ws_def json_space_def)
next
  case (2 b)
  then obtain m where "n = Suc m" by (cases n) (auto split: if_splits)
  then show ?case by (simp add: skip_ws_def json_space_def)
qed auto

theorem jparse_jprint: "json_wf j \<Longrightarrow> jparse (jprint j) = Some j"
  using parse_jprint(1) [of j "[]" "Suc (2 * length (jprint j))"] by (simp add: jparse_def)

end
