(* ===== verification/Go_Url.thy ===== *)
theory Go_Url
  imports Go_Prelude
begin

text \<open>
  \<open>url.Parse\<close> of package \<open>net/url\<close>, as far as the SDK reads its result: the scheme, the host and the
  hostname, and every error. The user information is kept as it is written, the path and the query; the fragment is checked but not kept;
  IPv6 zones (\<open>%25\<close> inside brackets) are treated as ordinary host text.
\<close>

record url =
  url_scheme :: string
  url_opaque :: string
  url_user :: "string option"
  url_host :: string
  url_path :: string
  url_query :: string

definition code :: "char \<Rightarrow> nat" where
  "code c = of_char c"

definition is_alpha :: "char \<Rightarrow> bool" where
  "is_alpha c = (let n = code c in (97 \<le> n \<and> n \<le> 122) \<or> (65 \<le> n \<and> n \<le> 90))"

definition is_dec :: "char \<Rightarrow> bool" where
  "is_dec c = (let n = code c in 48 \<le> n \<and> n \<le> 57)"

definition is_hex :: "char \<Rightarrow> bool" where
  "is_hex c = (let n = code c in is_dec c \<or> (97 \<le> n \<and> n \<le> 102) \<or> (65 \<le> n \<and> n \<le> 70))"

text \<open>\<open>getScheme\<close>: the scheme and what follows the colon; an error when the colon comes first.\<close>

fun scheme_scan :: "string \<Rightarrow> string \<Rightarrow> string \<Rightarrow> (string \<times> string) outcome" where
  "scheme_scan whole acc [] = Ok ('''', whole)"
| "scheme_scan whole acc (c # cs) =
     (if is_alpha c then scheme_scan whole (acc @ [c]) cs
      else if is_dec c \<or> c = CHR ''+'' \<or> c = CHR ''-'' \<or> c = CHR ''.'' then
        (if acc = [] then Ok ('''', whole) else scheme_scan whole (acc @ [c]) cs)
      else if c = CHR '':'' then
        (if acc = [] then Err (Msg ''missing protocol scheme'') else Ok (acc, cs))
      else Ok ('''', whole))"

text \<open>A percent sign is followed by two hexadecimal digits.\<close>

fun escapes_ok :: "string \<Rightarrow> bool" where
  "escapes_ok [] = True"
| "escapes_ok (c # cs) =
     (if c = CHR ''%'' then
        (case cs of a # b # r \<Rightarrow> is_hex a \<and> is_hex b \<and> escapes_ok r | _ \<Rightarrow> False)
      else escapes_ok cs)"

definition host_char :: "char \<Rightarrow> bool" where
  "host_char c =
     (128 \<le> code c \<or> is_alpha c \<or> is_dec c \<or> c \<in> set ''-_.~!$&()*+,;=:[]<>'' \<or> code c = 39 \<or> code c = 34)"

text \<open>In a host only bytes from 128 on, and the percent sign itself, may be written with an escape.\<close>

fun host_ok :: "string \<Rightarrow> bool" where
  "host_ok [] = True"
| "host_ok (c # cs) =
     (if c = CHR ''%'' then
        (case cs of
           a # b # r \<Rightarrow> is_hex a \<and> is_hex b \<and> (is_dec a \<and> code a < 56 \<longrightarrow> a = CHR ''2'' \<and> b = CHR ''5'')
             \<and> host_ok r
         | _ \<Rightarrow> False)
      else host_char c \<and> host_ok cs)"

definition port_ok :: "string \<Rightarrow> bool" where
  "port_ok p = (p = [] \<or> (hd p = CHR '':'' \<and> list_all is_dec (tl p)))"

text \<open>The text before and from the last occurrence of a character on.\<close>

fun cut_last :: "char \<Rightarrow> string \<Rightarrow> (string \<times> string) option" where
  "cut_last c [] = None"
| "cut_last c (x # xs) =
     (case cut_last c xs of
        Some (a, b) \<Rightarrow> Some (x # a, b)
      | None \<Rightarrow> (if x = c then Some ([], xs) else None))"

definition host_port_ok :: "string \<Rightarrow> bool" where
  "host_port_ok h =
     (if has_prefix h ''['' then
        (case cut_last (CHR '']'') h of None \<Rightarrow> False | Some (a, p) \<Rightarrow> port_ok p)
      else (case cut_last (CHR '':'') h of None \<Rightarrow> True | Some (a, p) \<Rightarrow> port_ok (CHR '':'' # p)))"

definition user_char :: "char \<Rightarrow> bool" where
  "user_char c = (is_alpha c \<or> is_dec c \<or> c \<in> set ''-._:~!$&()*+,;=%@'' \<or> code c = 39)"

text \<open>\<open>parseAuthority\<close>: the user information, and the host after it.\<close>

definition parse_authority :: "string \<Rightarrow> (string option \<times> string) outcome" where
  "parse_authority a =
     (let (user, h) = (case cut_last (CHR ''@'') a of None \<Rightarrow> (None, a) | Some (u, r) \<Rightarrow> (Some u, r)) in
      if \<not> host_port_ok h then Err (Msg ''invalid port after host'')
      else if \<not> host_ok h then Err (Msg ''invalid character in host name'')
      else case user of
        None \<Rightarrow> Ok (None, h)
      | Some u \<Rightarrow> (if list_all user_char u \<and> escapes_ok u then Ok (Some u, h)
                   else Err (Msg ''net/url: invalid userinfo'')))"

definition before :: "char \<Rightarrow> string \<Rightarrow> string" where
  "before c s = takeWhile (\<lambda>x. x \<noteq> c) s"

definition after :: "char \<Rightarrow> string \<Rightarrow> string" where
  "after c s = drop 1 (dropWhile (\<lambda>x. x \<noteq> c) s)"

definition parse_path :: "string \<Rightarrow> string option \<Rightarrow> string \<Rightarrow> string \<Rightarrow> url outcome" where
  "parse_path scheme user host p =
     (if escapes_ok p then
        Ok \<lparr>url_scheme = scheme, url_opaque = '''', url_user = user, url_host = host, url_path = p, url_query = ''''\<rparr>
      else Err (Msg ''invalid URL escape''))"

definition url_parse :: "string \<Rightarrow> url outcome" where
  "url_parse raw =
     (let u = before (CHR ''#'') raw in
      if list_ex (\<lambda>c. code c < 32 \<or> code c = 127) raw
      then Err (Msg ''net/url: invalid control character in URL'')
      else if u = ''*'' then
        Ok \<lparr>url_scheme = '''', url_opaque = '''', url_user = None, url_host = '''', url_path = ''*'', url_query = ''''\<rparr>
      else then_do (scheme_scan u [] u) (\<lambda>(sch, rest0).
        let scheme = to_lower sch; rest = before (CHR ''?'') rest0 in
        then_do
          (if \<not> has_prefix rest ''/'' \<and> scheme \<noteq> '''' then
             Ok \<lparr>url_scheme = scheme, url_opaque = rest, url_user = None, url_host = '''', url_path = '''', url_query = ''''\<rparr>
           else if \<not> has_prefix rest ''/'' \<and> CHR '':'' \<in> set (before (CHR ''/'') rest) then
             Err (Msg ''first path segment in URL cannot contain colon'')
           else if (scheme \<noteq> '''' \<or> \<not> has_prefix rest ''///'') \<and> has_prefix rest ''//'' then
             (let a = before (CHR ''/'') (drop 2 rest) in
              then_do (parse_authority a) (\<lambda>(user, h). parse_path scheme user h (drop (2 + length a) rest)))
           else parse_path scheme None '''' rest)
          (\<lambda>r. if escapes_ok (after (CHR ''#'') raw) then Ok (r\<lparr>url_query := after (CHR ''?'') rest0\<rparr>) else Err (Msg ''invalid URL escape''))))"

text \<open>\<open>URL.Hostname\<close>: without the port, and without the brackets of an IPv6 address.\<close>

definition url_hostname :: "url \<Rightarrow> string" where
  "url_hostname u =
     (let h = url_host u;
          np = (case cut_last (CHR '':'') h of
                  Some (a, p) \<Rightarrow> (if port_ok (CHR '':'' # p) then a else h) | None \<Rightarrow> h)
      in if has_prefix np ''['' \<and> has_suffix np '']'' then butlast (tl np) else np)"


section \<open>Schemes\<close>

lemma scheme_scan_append:
  assumes "list_all is_alpha s" and "acc @ s \<noteq> []"
  shows "scheme_scan whole acc (s @ CHR '':'' # r) = Ok (acc @ s, r)"
  using assms
proof (induction s arbitrary: acc)
  case Nil
  then show ?case by (simp add: is_alpha_def is_dec_def code_def)
next
  case (Cons c s)
  have "scheme_scan whole (acc @ [c]) (s @ CHR '':'' # r) = Ok ((acc @ [c]) @ s, r)"
    using Cons.prems by (intro Cons.IH) auto
  with Cons.prems show ?case by simp
qed

lemma scheme_scan_Ok:
  "scheme_scan whole acc s = Ok (sch, r) \<Longrightarrow>
     (sch = '''' \<and> r = whole) \<or> (acc @ s = sch @ CHR '':'' # r \<and> sch \<noteq> [])"
  by (induction whole acc s rule: scheme_scan.induct) (auto split: if_splits)

lemma url_parse_scheme:
  assumes "url_parse s = Ok u" and "url_scheme u \<noteq> ''''"
  shows "\<exists>sch r. s = sch @ CHR '':'' # r \<and> to_lower sch = url_scheme u"
proof -
  obtain sch rest where sc: "scheme_scan (before (CHR ''#'') s) [] (before (CHR ''#'') s) = Ok (sch, rest)"
    and eq: "url_scheme u = to_lower sch"
    using assms
    by (auto simp: url_parse_def outcome_simps Let_def parse_path_def split: if_splits)
  from assms(2) eq have "sch \<noteq> ''''" by (auto simp: to_lower_def)
  with scheme_scan_Ok [OF sc] have b: "before (CHR ''#'') s = sch @ CHR '':'' # rest" by auto
  have "s = before (CHR ''#'') s @ dropWhile (\<lambda>x. x \<noteq> CHR ''#'') s" by (simp add: before_def)
  with b have "s = sch @ CHR '':'' # (rest @ dropWhile (\<lambda>x. x \<noteq> CHR ''#'') s)" by simp
  with eq show ?thesis by metis
qed


text \<open>Parsing never panics.\<close>

lemma scheme_scan_no_panic: "scheme_scan whole acc s \<noteq> Panic p"
  by (induction whole acc s rule: scheme_scan.induct) auto

lemma then_do_no_panic: "\<lbrakk>r \<noteq> Panic p; \<And>x. k x \<noteq> Panic p\<rbrakk> \<Longrightarrow> then_do r k \<noteq> Panic p"
  by (cases r) auto

lemma parse_no_panic: "parse_authority a \<noteq> Panic p" "parse_path sch u h q \<noteq> Panic p"
  by (auto simp: parse_authority_def parse_path_def split: prod.splits option.splits)

lemma url_parse_no_panic: "url_parse s \<noteq> Panic p"
proof (cases "scheme_scan (before (CHR ''#'') s) [] (before (CHR ''#'') s)")
  case (Ok x)
  obtain sch rest where "x = (sch, rest)" by (cases x)
  with Ok show ?thesis
    by (simp add: url_parse_def Let_def then_do_no_panic parse_no_panic split: prod.split)
qed (auto simp: url_parse_def Let_def scheme_scan_no_panic)

end
