(* ===== verification/Docker_Context.thy ===== *)
theory Docker_Context
  imports Docker_Config Json_Codec Go_Url
begin

text \<open>
  Package \<open>context\<close>: the Docker contexts kept as files below the configuration directory. The data
  and its JSON form (\<open>store.go\<close>), the store (\<open>list\<close>, \<open>inspect\<close>, \<open>add\<close>, \<open>delete\<close>), creating and deleting a
  context (\<open>context.add.go\<close>, \<open>context.delete.go\<close>), and the choice of the current context and of the
  Docker host (\<open>current.go\<close>, \<open>rootless.go\<close>). The disk is a \<open>File_Tree\<close>; the digest of go-digest is the
  parameter \<open>dg\<close>. A Go map with string keys that is printed or walked is an association list in the
  order of its keys. The values of the additional fields are JSON values.
\<close>


section \<open>Data\<close>

record metadata =
  md_Description :: string
  md_additionalFields :: "(string \<times> json) list option"

record endpoint =
  ep_Host :: string
  ep_SkipTLSVerify :: bool

record dcontext =
  dc_Name :: string
  dc_encodedName :: string
  dc_isCurrent :: bool
  dc_Metadata :: "metadata option"
  dc_Endpoints :: "(string \<times> endpoint option) list"

definition zero_metadata :: metadata where
  "zero_metadata = \<lparr>md_Description = '''', md_additionalFields = None\<rparr>"

definition zero_endpoint :: endpoint where
  "zero_endpoint = \<lparr>ep_Host = '''', ep_SkipTLSVerify = False\<rparr>"

definition zero_dcontext :: dcontext where
  "zero_dcontext = \<lparr>dc_Name = '''', dc_encodedName = '''', dc_isCurrent = False, dc_Metadata = None,
     dc_Endpoints = []\<rparr>"

definition ErrDockerHostNotSet :: string where
  "ErrDockerHostNotSet = ''docker host not set in Docker context''"

definition ErrDockerContextNotFound :: string where
  "ErrDockerContextNotFound = ''docker context not found''"

definition put_all :: "(string \<times> 'a) list \<Rightarrow> (string \<times> 'a) list \<Rightarrow> (string \<times> 'a) list" where
  "put_all kvs m = fold (\<lambda>(k, v). put_entry k v) kvs m"


section \<open>The JSON form\<close>

definition Metadata_MarshalJSON :: "metadata \<Rightarrow> json" where
  "Metadata_MarshalJSON dc =
     (let result = (if md_Description dc = '''' then [] else [(''Description'', JStr (md_Description dc))])
      in JObj (put_all (case md_additionalFields dc of None \<Rightarrow> [] | Some fs \<Rightarrow> fs) result))"

definition Metadata_UnmarshalJSON :: "json \<Rightarrow> metadata \<Rightarrow> metadata outcome" where
  "Metadata_UnmarshalJSON data dc =
     (case data of
        JNull \<Rightarrow> Ok (dc\<lparr>md_additionalFields := None\<rparr>)
      | JObj ms \<Rightarrow>
          (let raw = put_all ms [] in
           case map_of raw ''Description'' of
             None \<Rightarrow> Ok (dc\<lparr>md_additionalFields := Some raw\<rparr>)
           | Some desc \<Rightarrow>
               Ok ((case desc of JStr s \<Rightarrow> dc\<lparr>md_Description := s\<rparr> | _ \<Rightarrow> dc)
                     \<lparr>md_additionalFields := Some (del_entry ''Description'' raw)\<rparr>))
      | _ \<Rightarrow> Err (Msg ''json: cannot unmarshal value into a map''))"

definition Field :: "metadata \<Rightarrow> string \<Rightarrow> json option" where
  "Field dc key = (case md_additionalFields dc of None \<Rightarrow> None | Some fs \<Rightarrow> map_of fs key)"

definition SetField :: "metadata \<Rightarrow> string \<Rightarrow> json \<Rightarrow> metadata" where
  "SetField dc key value =
     dc\<lparr>md_additionalFields :=
          Some (put_entry key value (case md_additionalFields dc of None \<Rightarrow> [] | Some fs \<Rightarrow> fs))\<rparr>"

definition Fields :: "metadata \<Rightarrow> (string \<times> json) list" where
  "Fields dc = (case md_additionalFields dc of None \<Rightarrow> [] | Some fs \<Rightarrow> fs)"

definition endpoint_json :: "endpoint \<Rightarrow> json" where
  "endpoint_json ep =
     JObj ((if ep_Host ep = '''' then [] else [(''Host'', JStr (ep_Host ep))])
           @ [(''SkipTLSVerify'', JBool (ep_SkipTLSVerify ep))])"

definition dcontext_json :: "dcontext \<Rightarrow> json" where
  "dcontext_json c =
     JObj ((if dc_Name c = '''' then [] else [(''Name'', JStr (dc_Name c))])
           @ (case dc_Metadata c of None \<Rightarrow> [] | Some m \<Rightarrow> [(''Metadata'', Metadata_MarshalJSON m)])
           @ (if dc_Endpoints c = [] then []
              else [(''Endpoints'',
                     JObj (map (\<lambda>(k, e). (k, case e of None \<Rightarrow> JNull | Some ep \<Rightarrow> endpoint_json ep))
                             (dc_Endpoints c)))]))"

text \<open>
  \<open>json.Unmarshal\<close> into a struct: the members in their order, each into the field whose name it has
  up to case; null leaves a string or bool as it is and empties a pointer or map; a value of another
  type is an error; unknown members are ignored.
\<close>

definition type_error :: "string \<Rightarrow> err" where
  "type_error what = Msg (''json: cannot unmarshal into Go struct field '' @ what)"

definition set_string :: "string \<Rightarrow> json \<Rightarrow> string \<Rightarrow> string outcome" where
  "set_string what j old = (case j of JStr s \<Rightarrow> Ok s | JNull \<Rightarrow> Ok old | _ \<Rightarrow> Err (type_error what))"

fun decode_members ::
    "(string \<Rightarrow> json \<Rightarrow> 'a \<Rightarrow> 'a outcome) \<Rightarrow> (string \<times> json) list \<Rightarrow> 'a \<Rightarrow> 'a outcome" where
  "decode_members step [] a = Ok a"
| "decode_members step ((k, j) # ms) a = then_do (step k j a) (decode_members step ms)"

definition endpoint_member :: "string \<Rightarrow> json \<Rightarrow> endpoint \<Rightarrow> endpoint outcome" where
  "endpoint_member k j ep =
     (if to_lower k = ''host'' then
        then_do (set_string ''endpoint.Host'' j (ep_Host ep)) (\<lambda>h. Ok (ep\<lparr>ep_Host := h\<rparr>))
      else if to_lower k = ''skiptlsverify'' then
        (case j of JBool b \<Rightarrow> Ok (ep\<lparr>ep_SkipTLSVerify := b\<rparr>) | JNull \<Rightarrow> Ok ep
         | _ \<Rightarrow> Err (type_error ''endpoint.SkipTLSVerify''))
      else Ok ep)"

definition endpoints_member ::
    "string \<Rightarrow> json \<Rightarrow> (string \<times> endpoint option) list \<Rightarrow> (string \<times> endpoint option) list outcome" where
  "endpoints_member k j eps =
     (case j of
        JNull \<Rightarrow> Ok (put_entry k None eps)
      | JObj ms \<Rightarrow> then_do (decode_members endpoint_member ms zero_endpoint)
                    (\<lambda>ep. Ok (put_entry k (Some ep) eps))
      | _ \<Rightarrow> Err (type_error ''Context.Endpoints''))"

definition dcontext_member :: "string \<Rightarrow> json \<Rightarrow> dcontext \<Rightarrow> dcontext outcome" where
  "dcontext_member k j c =
     (if to_lower k = ''name'' then
        then_do (set_string ''Context.Name'' j (dc_Name c)) (\<lambda>n. Ok (c\<lparr>dc_Name := n\<rparr>))
      else if to_lower k = ''metadata'' then
        (if j = JNull then Ok (c\<lparr>dc_Metadata := None\<rparr>)
         else then_do (Metadata_UnmarshalJSON j
                  (case dc_Metadata c of None \<Rightarrow> zero_metadata | Some m \<Rightarrow> m))
                (\<lambda>m. Ok (c\<lparr>dc_Metadata := Some m\<rparr>)))
      else if to_lower k = ''endpoints'' then
        (case j of
           JNull \<Rightarrow> Ok (c\<lparr>dc_Endpoints := []\<rparr>)
         | JObj ms \<Rightarrow> then_do (decode_members endpoints_member ms (dc_Endpoints c))
                       (\<lambda>eps. Ok (c\<lparr>dc_Endpoints := eps\<rparr>))
         | _ \<Rightarrow> Err (type_error ''Context.Endpoints''))
      else Ok c)"

definition decode_dcontext :: "string \<Rightarrow> dcontext outcome" where
  "decode_dcontext data =
     (case jparse data of
        None \<Rightarrow> Err (Msg ''invalid character in JSON text'')
      | Some JNull \<Rightarrow> Ok zero_dcontext
      | Some (JObj ms) \<Rightarrow> decode_members dcontext_member ms zero_dcontext
      | Some _ \<Rightarrow> Err (type_error ''Context''))"


section \<open>The store\<close>

definition metaFile :: string where
  "metaFile = ''meta.json''"

definition contextsDir :: string where
  "contextsDir = ''contexts''"

definition metadataDir :: string where
  "metadataDir = ''meta''"

definition metaRoot :: "'w platform \<Rightarrow> node \<Rightarrow> path outcome" where
  "metaRoot pf disk =
     then_wrap ''docker config dir'' (Dir pf disk) (\<lambda>dir. Ok (dir @ [contextsDir, metadataDir]))"

text \<open>A directory with a regular file \<open>meta.json\<close>.\<close>

definition hasMetaFile :: "node \<Rightarrow> bool" where
  "hasMetaFile n =
     (case node_at n [metaFile] of Inr (FileN c) \<Rightarrow> True | _ \<Rightarrow> False)"

text \<open>\<open>filepath.Walk\<close> with the callback of \<open>findMetadataDirs\<close>: no recursion into a context directory.\<close>

fun meta_dirs :: "path \<Rightarrow> node \<Rightarrow> path list"
  and meta_dirs_in :: "path \<Rightarrow> (string \<times> node) list \<Rightarrow> path list" where
  "meta_dirs p (FileN c) = []"
| "meta_dirs p (DirN es) = (if hasMetaFile (DirN es) then [p] else meta_dirs_in p es)"
| "meta_dirs_in p [] = []"
| "meta_dirs_in p ((x, n) # es) = meta_dirs (p @ [x]) n @ meta_dirs_in p es"

definition findMetadataDirs :: "node \<Rightarrow> path \<Rightarrow> path list outcome" where
  "findMetadataDirs disk root =
     (case node_at disk root of Inl e \<Rightarrow> Err (os_error e) | Inr n \<Rightarrow> Ok (meta_dirs root n))"

definition load :: "node \<Rightarrow> path \<Rightarrow> dcontext outcome" where
  "load disk dir =
     (case read_file disk (dir @ [metaFile]) of
        Inl e \<Rightarrow> Err (os_error e)
      | Inr data \<Rightarrow> then_wrap ''parse metadata'' (decode_dcontext data) Ok)"

definition os_ErrNotExist :: string where
  "os_ErrNotExist = ''file does not exist''"

fun load_all :: "node \<Rightarrow> path list \<Rightarrow> dcontext list outcome" where
  "load_all disk [] = Ok []"
| "load_all disk (d # ds) =
     (case load disk d of
        Err e \<Rightarrow> (if errors_is e os_ErrNotExist then load_all disk ds
                  else Err (wrapf (''load context '' @ show_path d) e))
      | Panic p \<Rightarrow> Panic p
      | Ok c \<Rightarrow> then_do (load_all disk ds) (\<lambda>cs. Ok (c # cs)))"

definition store_list :: "node \<Rightarrow> path \<Rightarrow> dcontext list outcome" where
  "store_list disk root =
     then_wrap ''find contexts'' (findMetadataDirs disk root) (load_all disk)"

definition docker_endpoint :: "dcontext \<Rightarrow> endpoint option" where
  "docker_endpoint c =
     (case map_of (dc_Endpoints c) ''docker'' of
        Some (Some ep) \<Rightarrow> (if ep_Host ep = '''' then None else Some ep)
      | _ \<Rightarrow> None)"

definition store_inspect ::
    "'w platform \<Rightarrow> (string \<Rightarrow> string) \<Rightarrow> node \<Rightarrow> path \<Rightarrow> string \<Rightarrow> dcontext outcome" where
  "store_inspect pf dg disk root ctxName =
     then_wrap ''list contexts'' (store_list disk root) (\<lambda>contexts.
       case find (\<lambda>c. dc_Name c = ctxName) contexts of
         None \<Rightarrow> Err (Sentinel ErrDockerContextNotFound)
       | Some c \<Rightarrow>
           (if docker_endpoint c = None then Err (Sentinel ErrDockerHostNotSet)
            else then_wrap ''load config'' (Load pf disk) (\<lambda>cfg.
              Ok (c\<lparr>dc_isCurrent := cfg_CurrentContext cfg = dc_Name c,
                    dc_encodedName := dg (dc_Name c)\<rparr>))))"

definition join_name :: "path \<Rightarrow> string \<Rightarrow> path" where
  "join_name root name = (if name = '''' then root else root @ [name])"

text \<open>\<open>add\<close> returns the context as well: it fills in the encoded name.\<close>

definition store_add ::
    "(string \<Rightarrow> string) \<Rightarrow> path \<Rightarrow> dcontext \<Rightarrow> node \<Rightarrow> dcontext outcome \<times> node" where
  "store_add dg root ctx disk =
     (let c = (if dc_encodedName ctx = '''' then ctx\<lparr>dc_encodedName := dg (dc_Name ctx)\<rparr> else ctx);
          dir = join_name root (dc_encodedName c) in
      if file_exists disk dir then (Err (Msg (''context already exists: '' @ dc_Name c)), disk)
      else case mkdir_all disk dir of
        Inl e \<Rightarrow> (Err (wrapf ''mkdir'' (os_error e)), disk)
      | Inr disk1 \<Rightarrow>
          (case write_file disk1 (dir @ [metaFile]) (jprint (dcontext_json c)) of
             Inl e \<Rightarrow> (Err (wrapf ''write'' (os_error e)), disk1)
           | Inr disk2 \<Rightarrow> (Ok c, disk2)))"

definition store_delete :: "path \<Rightarrow> string \<Rightarrow> node \<Rightarrow> unit outcome \<times> node" where
  "store_delete root encodedName disk =
     (case remove_all disk (join_name root encodedName) of
        Inl e \<Rightarrow> (Err (os_error e), disk)
      | Inr disk' \<Rightarrow> (Ok (), disk'))"


section \<open>Inspecting and listing\<close>

definition Inspect :: "'w platform \<Rightarrow> (string \<Rightarrow> string) \<Rightarrow> node \<Rightarrow> string \<Rightarrow> dcontext outcome" where
  "Inspect pf dg disk ctxName =
     then_wrap ''meta root'' (metaRoot pf disk) (\<lambda>root. store_inspect pf dg disk root ctxName)"

definition List_names :: "'w platform \<Rightarrow> node \<Rightarrow> string list outcome" where
  "List_names pf disk =
     then_wrap ''meta root'' (metaRoot pf disk) (\<lambda>root.
     then_wrap ''list contexts'' (store_list disk root) (\<lambda>contexts. Ok (map dc_Name contexts)))"

definition DockerHostFromContext ::
    "'w platform \<Rightarrow> (string \<Rightarrow> string) \<Rightarrow> node \<Rightarrow> string \<Rightarrow> string outcome" where
  "DockerHostFromContext pf dg disk ctxName =
     then_wrap ''inspect context'' (Inspect pf dg disk ctxName) (\<lambda>ctx.
       case map_of (dc_Endpoints ctx) ''docker'' of
         Some (Some ep) \<Rightarrow> Ok (ep_Host ep)
       | _ \<Rightarrow> Panic ''nil pointer dereference'')"


section \<open>Creating and deleting\<close>

record context_options =
  co_host :: string
  co_description :: string
  co_additionalFields :: "(string \<times> json) list option"
  co_skipTLSVerify :: bool
  co_current :: bool

definition zero_context_options :: context_options where
  "zero_context_options = \<lparr>co_host = '''', co_description = '''', co_additionalFields = None,
     co_skipTLSVerify = False, co_current = False\<rparr>"

type_synonym context_option = "context_options \<Rightarrow> context_options outcome"

definition WithHost :: "string \<Rightarrow> context_option" where
  "WithHost host c = Ok (c\<lparr>co_host := host\<rparr>)"

definition WithDescription :: "string \<Rightarrow> context_option" where
  "WithDescription description c = Ok (c\<lparr>co_description := description\<rparr>)"

definition WithAdditionalFields :: "(string \<times> json) list option \<Rightarrow> context_option" where
  "WithAdditionalFields flds c = Ok (c\<lparr>co_additionalFields := flds\<rparr>)"

definition WithSkipTLSVerify :: context_option where
  "WithSkipTLSVerify c = Ok (c\<lparr>co_skipTLSVerify := True\<rparr>)"

definition AsCurrent :: context_option where
  "AsCurrent c = Ok (c\<lparr>co_current := True\<rparr>)"

fun apply_options :: "('o \<Rightarrow> 'o outcome) list \<Rightarrow> 'o \<Rightarrow> 'o outcome" where
  "apply_options [] c = Ok c"
| "apply_options (opt # opts) c = then_wrap ''apply option'' (opt c) (apply_options opts)"

definition new_context :: "(string \<Rightarrow> string) \<Rightarrow> string \<Rightarrow> context_options \<Rightarrow> dcontext" where
  "new_context dg name o' =
     \<lparr>dc_Name = name, dc_encodedName = dg name, dc_isCurrent = False,
      dc_Metadata = Some \<lparr>md_Description = co_description o',
                          md_additionalFields = co_additionalFields o'\<rparr>,
      dc_Endpoints = [(''docker'', Some \<lparr>ep_Host = co_host o', ep_SkipTLSVerify = co_skipTLSVerify o'\<rparr>)]\<rparr>"

definition set_current ::
    "'w platform \<Rightarrow> string \<Rightarrow> node \<Rightarrow> unit outcome \<times> node" where
  "set_current pf name disk =
     (case Load pf disk of
        Err e \<Rightarrow> (Err (wrapf ''load config'' e), disk)
      | Panic p \<Rightarrow> (Panic p, disk)
      | Ok cfg \<Rightarrow> st_wrap ''save config'' (Save pf (cfg\<lparr>cfg_CurrentContext := name\<rparr>) disk)
                    (\<lambda>_ disk'. (Ok (), disk')))"

definition New ::
    "'w platform \<Rightarrow> (string \<Rightarrow> string) \<Rightarrow> string \<Rightarrow> context_option list \<Rightarrow> node
       \<Rightarrow> dcontext outcome \<times> node" where
  "New pf dg name opts disk =
     (if name = '''' then (Err (Msg ''name is required''), disk)
      else if name = ''default'' then (Err (Msg (''name cannot be '' @ [CHR 0x27] @ ''default'' @ [CHR 0x27])), disk)
      else case Inspect pf dg disk name of
        Ok c \<Rightarrow> (Err (Msg (''context '' @ name @ '' already exists'')), disk)
      | Panic p \<Rightarrow> (Panic p, disk)
      | Err _ \<Rightarrow>
          (case apply_options opts zero_context_options of
             Err e \<Rightarrow> (Err e, disk)
           | Panic p \<Rightarrow> (Panic p, disk)
           | Ok o' \<Rightarrow>
               (case metaRoot pf disk of
                  Err e \<Rightarrow> (Err (wrapf ''meta root'' e), disk)
                | Panic p \<Rightarrow> (Panic p, disk)
                | Ok root \<Rightarrow>
                    st_wrap ''add context'' (store_add dg root (new_context dg name o') disk) (\<lambda>ctx disk1.
                      if co_current o' then
                        st_do (set_current pf (dc_Name ctx) disk1)
                          (\<lambda>_ disk2. (Ok (ctx\<lparr>dc_isCurrent := True\<rparr>), disk2))
                      else (Ok ctx, disk1)))))"

definition DefaultContextName :: string where
  "DefaultContextName = ''default''"

definition Delete :: "'w platform \<Rightarrow> dcontext \<Rightarrow> node \<Rightarrow> unit outcome \<times> node" where
  "Delete pf ctx disk =
     (if dc_encodedName ctx = '''' then (Err (Msg ''context has no encoded name''), disk)
      else case metaRoot pf disk of
        Err e \<Rightarrow> (Err (wrapf ''meta root'' e), disk)
      | Panic p \<Rightarrow> (Panic p, disk)
      | Ok root \<Rightarrow>
          st_wrap ''delete'' (store_delete root (dc_encodedName ctx) disk) (\<lambda>_ disk1.
            if dc_isCurrent ctx then set_current pf DefaultContextName disk1 else (Ok (), disk1)))"



section \<open>The current context and the Docker host\<close>

definition EnvOverrideContext :: string where
  "EnvOverrideContext = ''DOCKER_CONTEXT''"

definition EnvOverrideHost :: string where
  "EnvOverrideHost = ''DOCKER_HOST''"

definition DefaultSchema :: "'w platform \<Rightarrow> string" where
  "DefaultSchema pf = (if pf_goos pf = ''windows'' then ''npipe://'' else ''unix://'')"

definition DefaultDockerHost :: "'w platform \<Rightarrow> string" where
  "DefaultDockerHost pf =
     DefaultSchema pf @ (if pf_goos pf = ''windows'' then ''//./pipe/docker_engine'' else ''/var/run/docker.sock'')"

definition TCPSchema :: string where
  "TCPSchema = ''tcp://''"

text \<open>A variable of the package: its text is made before \<open>init\<close> sets \<open>DefaultSchema\<close>, which is still empty.\<close>

definition ErrInvalidSchema :: err where
  "ErrInvalidSchema = Sentinel ''URL schema is not  or tcp''"

definition ErrRootlessDockerNotFoundXDGRuntimeDir :: string where
  "ErrRootlessDockerNotFoundXDGRuntimeDir = ''docker.sock not found in $XDG_RUNTIME_DIR''"

definition ErrXDGRuntimeDirNotSet :: string where
  "ErrXDGRuntimeDirNotSet = ''$XDG_RUNTIME_DIR is not set''"

definition getContextFromEnv :: "'w platform \<Rightarrow> string" where
  "getContextFromEnv pf =
     (if getenv pf EnvOverrideHost \<noteq> '''' then DefaultContextName
      else if getenv pf EnvOverrideContext \<noteq> '''' then getenv pf EnvOverrideContext
      else '''')"

text \<open>
  \<open>os.IsNotExist\<close>, other than \<open>errors.Is\<close>, looks at the error value itself (and below an error of
  package \<open>os\<close>, here the only errors with the prefix of \<open>os_error\<close>), never below \<open>fmt.Errorf\<close>.
\<close>

definition os_IsNotExist :: "err \<Rightarrow> bool" where
  "os_IsNotExist e = (e = Sentinel os_ErrNotExist \<or> e = os_error ENOENT)"

definition Current :: "'w platform \<Rightarrow> node \<Rightarrow> string outcome" where
  "Current pf disk =
     (if getContextFromEnv pf \<noteq> '''' then Ok (getContextFromEnv pf)
      else case Load pf disk of
        Err e \<Rightarrow> (if os_IsNotExist e then Ok DefaultContextName else Err (wrapf ''load docker config'' e))
      | Panic p \<Rightarrow> Panic p
      | Ok cfg \<Rightarrow> Ok (if cfg_CurrentContext cfg \<noteq> '''' then cfg_CurrentContext cfg else DefaultContextName))"

definition filepath_join :: "string \<Rightarrow> string \<Rightarrow> string" where
  "filepath_join a b =
     (let s = a @ ''/'' @ b in
      if has_prefix s ''/'' then show_path (path_of s) else intercalate ''/'' (path_of s))"

definition rootlessSocketPathFromEnv :: "'w platform \<Rightarrow> node \<Rightarrow> string outcome" where
  "rootlessSocketPathFromEnv pf disk =
     (if getenv pf ''XDG_RUNTIME_DIR'' \<noteq> '''' then
        (let f = filepath_join (getenv pf ''XDG_RUNTIME_DIR'') ''docker.sock'' in
         if file_exists disk (path_of f) then Ok (DefaultSchema pf @ f)
         else Err (Sentinel ErrRootlessDockerNotFoundXDGRuntimeDir))
      else Err (Sentinel ErrXDGRuntimeDirNotSet))"

definition parseURL :: "'w platform \<Rightarrow> string \<Rightarrow> string outcome" where
  "parseURL pf s =
     then_do (url_parse s) (\<lambda>hostURL.
       if url_scheme hostURL @ ''://'' = DefaultSchema pf then Ok s
       else if url_scheme hostURL @ ''://'' = TCPSchema then Ok s
       else Err ErrInvalidSchema)"

definition CurrentDockerHost :: "'w platform \<Rightarrow> (string \<Rightarrow> string) \<Rightarrow> node \<Rightarrow> string outcome" where
  "CurrentDockerHost pf dg disk =
     (case rootlessSocketPathFromEnv pf disk of
        Ok p \<Rightarrow> parseURL pf p
      | _ \<Rightarrow>
        then_wrap ''current context'' (Current pf disk) (\<lambda>current.
          if current = DefaultContextName then
            (if getenv pf EnvOverrideHost \<noteq> '''' then parseURL pf (getenv pf EnvOverrideHost)
             else parseURL pf (DefaultDockerHost pf))
          else then_wrap ''inspect context'' (Inspect pf dg disk current) (\<lambda>ctx.
            case map_of (dc_Endpoints ctx) ''docker'' of
              Some (Some ep) \<Rightarrow> parseURL pf (ep_Host ep)
            | _ \<Rightarrow> Panic ''nil pointer dereference'')))"


section \<open>The JSON form of the metadata\<close>

lemma map_of_put_all:
  "map_of (put_all kvs m) k = (case map_of (rev kvs) k of Some v \<Rightarrow> Some v | None \<Rightarrow> map_of m k)"
  by (induction kvs arbitrary: m)
    (auto simp: put_all_def map_add_def split: option.splits)

lemma put_all_ordered: "keys_ordered m \<Longrightarrow> keys_ordered (put_all kvs m)"
  by (induction kvs arbitrary: m) (auto simp: put_all_def put_entry_ordered)

text \<open>Two ordered association lists with the same entries are the same list.\<close>

lemma ordered_eqI:
  assumes "keys_ordered m" and "keys_ordered n" and "map_of m = map_of n"
  shows "m = n"
proof -
  have "sorted (map fst m)" "distinct (map fst m)" "sorted (map fst n)" "distinct (map fst n)"
    using assms(1,2) by (simp_all add: strict_sorted_iff)
  moreover have "set m = set n"
    using assms(3) calculation by (simp add: map_of_inject_set)
  ultimately show ?thesis
    using map_sorted_distinct_set_unique [of fst m n] by (simp add: distinct_map)
qed

lemma put_all_self [simp]: "keys_ordered m \<Longrightarrow> put_all m [] = m"
proof (rule ordered_eqI)
  assume m: "keys_ordered m"
  then have "distinct (map fst m)" by (simp add: strict_sorted_iff)
  then have "map_of (rev m) = map_of m" by (simp add: map_of_inject_set rev_map [symmetric])
  then show "map_of (put_all m []) = map_of m"
    by (intro ext) (simp add: map_of_put_all split: option.split)
qed (simp_all add: put_all_ordered)

lemma del_entry_subset: "set (del_entry k m) \<subseteq> set m"
  by (induction k m rule: del_entry.induct) auto

lemma del_entry_ordered: "keys_ordered m \<Longrightarrow> keys_ordered (del_entry k m)"
proof (induction k m rule: del_entry.induct)
  case (2 x y m es)
  then show ?case using del_entry_subset [of x es] by auto
qed simp

lemma map_of_rev_ordered: "keys_ordered m \<Longrightarrow> map_of (rev m) = map_of m"
  by (rule ext) (metis list.set_map distinct_rev map_of_inject_set rev_map set_rev strict_sorted_iff)

definition reread_metadata :: "metadata \<Rightarrow> metadata" where
  "reread_metadata m =
     \<lparr>md_Description = (case Field m ''Description'' of
                          None \<Rightarrow> md_Description m | Some (JStr s) \<Rightarrow> s | Some j \<Rightarrow> ''''),
      md_additionalFields = Some (del_entry ''Description'' (Fields m))\<rparr>"

lemma Metadata_reread:
  assumes "keys_ordered (Fields m)"
  shows "Metadata_UnmarshalJSON (Metadata_MarshalJSON m) zero_metadata = Ok (reread_metadata m)"
proof -
  let ?fs = "Fields m"
  let ?d = "if md_Description m = '''' then [] else [(''Description'', JStr (md_Description m))]"
  let ?raw = "put_all ?fs ?d"
  have raw: "Metadata_MarshalJSON m = JObj ?raw"
    by (simp add: Metadata_MarshalJSON_def Fields_def Let_def)
  have ord: "keys_ordered ?raw" by (rule put_all_ordered) simp
  have lk: "map_of ?raw k = (case map_of ?fs k of Some v \<Rightarrow> Some v | None \<Rightarrow> map_of ?d k)" for k
    by (simp only: map_of_put_all map_of_rev_ordered [OF assms])
  have del: "del_entry ''Description'' ?raw = del_entry ''Description'' ?fs"
    using ord assms by (intro ordered_eqI ext) (auto simp: del_entry_ordered lk split: option.split)
  have fs: "Field m ''Description'' = map_of ?fs ''Description''"
    by (simp add: Field_def Fields_def split: option.split)
  have none: "map_of ?raw ''Description'' = None \<Longrightarrow> ?raw = del_entry ''Description'' ?fs"
    using ord assms by (intro ordered_eqI ext) (auto simp: del_entry_ordered lk split: option.splits)
  show ?thesis
  proof (cases "map_of ?raw ''Description''")
    case None
    then have "md_Description m = ''''" "map_of ?fs ''Description'' = None"
      by (auto simp: lk split: option.splits if_splits)
    with None none ord fs show ?thesis
      by (simp add: raw Metadata_UnmarshalJSON_def Let_def zero_metadata_def reread_metadata_def)
  next
    case (Some j)
    then have "j = (case map_of ?fs ''Description'' of Some v \<Rightarrow> v | None \<Rightarrow> JStr (md_Description m))"
      by (auto simp: lk split: option.splits if_splits)
    with Some del ord fs show ?thesis
      by (auto simp: raw Metadata_UnmarshalJSON_def Let_def zero_metadata_def reread_metadata_def split: option.splits json.splits)
  qed
qed

text \<open>
  C34: the metadata read back from the JSON object that they are written as are the metadata. The
  exception is an additional field called \<open>Description\<close>: it replaces the description, and is not an
  additional field any more.
\<close>

theorem Metadata_JSON_roundtrip:
  assumes "keys_ordered (Fields m)"
  shows "Metadata_UnmarshalJSON (Metadata_MarshalJSON m) zero_metadata =
     Ok \<lparr>md_Description = (case Field m ''Description'' of
                             None \<Rightarrow> md_Description m | Some (JStr s) \<Rightarrow> s | Some j \<Rightarrow> ''''),
         md_additionalFields = Some (del_entry ''Description'' (Fields m))\<rparr>"
  using Metadata_reread [OF assms] by (simp add: reread_metadata_def)

theorem Metadata_JSON_roundtrip_witness:
  "Metadata_UnmarshalJSON (Metadata_MarshalJSON
       \<lparr>md_Description = ''d'', md_additionalFields = Some [(''k'', JBool True)]\<rparr>) zero_metadata =
     Ok \<lparr>md_Description = ''d'', md_additionalFields = Some [(''k'', JBool True)]\<rparr>"
  using Metadata_JSON_roundtrip [of "\<lparr>md_Description = ''d'', md_additionalFields = Some [(''k'', JBool True)]\<rparr>"]
  by (simp add: Field_def Fields_def)



section \<open>The JSON form of a context\<close>

lemma member_names:
  "to_lower ''Name'' = ''name''" "to_lower ''Metadata'' = ''metadata''"
  "to_lower ''Endpoints'' = ''endpoints''" "to_lower ''Host'' = ''host''"
  "to_lower ''SkipTLSVerify'' = ''skiptlsverify''"
  by code_simp+

lemma decode_members_append:
  "decode_members step (xs @ ys) a = then_do (decode_members step xs a) (decode_members step ys)"
proof (induction xs arbitrary: a)
  case (Cons x xs)
  obtain k j where x: "x = (k, j)" by (cases x)
  show ?case by (cases "step k j a") (simp_all add: x Cons.IH)
qed simp

lemma endpoint_reread:
  "endpoint_json ep = JObj ms \<Longrightarrow> decode_members endpoint_member ms zero_endpoint = Ok ep"
  by (cases ep) (auto simp: endpoint_json_def endpoint_member_def member_names set_string_def zero_endpoint_def)

lemma endpoints_reread_onto:
  "decode_members endpoints_member
      (map (\<lambda>(k, e). (k, case e of None \<Rightarrow> JNull | Some ep \<Rightarrow> endpoint_json ep)) eps) m = Ok (put_all eps m)"
proof (induction eps arbitrary: m)
  case (Cons x eps)
  obtain k e where x: "x = (k, e)" by (cases x)
  have "endpoints_member k (case e of None \<Rightarrow> JNull | Some ep \<Rightarrow> endpoint_json ep) m = Ok (put_entry k e m)"
    using endpoint_reread by (cases e) (auto simp: endpoints_member_def endpoint_json_def)
  with Cons show ?case by (simp add: x put_all_def)
qed (simp add: put_all_def)

definition reread :: "dcontext \<Rightarrow> dcontext" where
  "reread c = c\<lparr>dc_encodedName := '''', dc_isCurrent := False,
      dc_Metadata := map_option reread_metadata (dc_Metadata c)\<rparr>"

definition printable :: "dcontext \<Rightarrow> bool" where
  "printable c =
     (keys_ordered (dc_Endpoints c) \<and>
      (case dc_Metadata c of None \<Rightarrow> True
       | Some m \<Rightarrow> keys_ordered (Fields m) \<and> list_all (\<lambda>(k, j). json_wf j) (Fields m)))"

lemma put_entry_wf:
  "json_wf j \<Longrightarrow> list_all (\<lambda>(k, j). json_wf j) m \<Longrightarrow> list_all (\<lambda>(k, j). json_wf j) (put_entry k j m)"
  by (induction k j m rule: put_entry.induct) auto

lemma put_all_wf:
  "list_all (\<lambda>(k, j). json_wf j) kvs \<Longrightarrow> list_all (\<lambda>(k, j). json_wf j) m \<Longrightarrow>
     list_all (\<lambda>(k, j). json_wf j) (put_all kvs m)"
  by (induction kvs arbitrary: m) (auto simp: put_all_def put_entry_wf)

lemma Metadata_wf: "list_all (\<lambda>(k, j). json_wf j) (Fields m) \<Longrightarrow> json_wf (Metadata_MarshalJSON m)"
  unfolding Metadata_MarshalJSON_def Let_def json_wf.simps
  by (rule put_all_wf) (auto simp: Fields_def split: option.splits)

lemma dcontext_json_wf: "printable c \<Longrightarrow> json_wf (dcontext_json c)"
  by (auto simp: dcontext_json_def printable_def Metadata_wf list_all_iff endpoint_json_def
      split: option.splits)

lemma Metadata_JObj: "Metadata_MarshalJSON m \<noteq> JNull"
  by (simp add: Metadata_MarshalJSON_def Let_def)

lemma decode_dcontext_reread:
  assumes "printable c"
  shows "decode_dcontext (jprint (dcontext_json c)) = Ok (reread c)"
proof -
  let ?N = "if dc_Name c = '''' then [] else [(''Name'', JStr (dc_Name c))]"
  let ?M = "case dc_Metadata c of None \<Rightarrow> [] | Some m \<Rightarrow> [(''Metadata'', Metadata_MarshalJSON m)]"
  let ?E = "if dc_Endpoints c = [] then []
            else [(''Endpoints'', JObj (map (\<lambda>(k, e). (k, case e of None \<Rightarrow> JNull | Some ep \<Rightarrow> endpoint_json ep))
                                         (dc_Endpoints c)))]"
  have N: "decode_members dcontext_member ?N zero_dcontext = Ok (zero_dcontext\<lparr>dc_Name := dc_Name c\<rparr>)"
    by (simp add: dcontext_member_def member_names set_string_def zero_dcontext_def)
  have M: "decode_members dcontext_member ?M (zero_dcontext\<lparr>dc_Name := dc_Name c\<rparr>)
      = Ok (zero_dcontext\<lparr>dc_Name := dc_Name c, dc_Metadata := map_option reread_metadata (dc_Metadata c)\<rparr>)"
    using assms
    by (simp add: dcontext_member_def member_names printable_def Metadata_JObj Metadata_reread
        zero_dcontext_def split: option.splits)
  have E: "decode_members dcontext_member ?E
        (zero_dcontext\<lparr>dc_Name := dc_Name c, dc_Metadata := map_option reread_metadata (dc_Metadata c)\<rparr>)
      = Ok (reread c)"
    using assms
    by (cases c) (simp add: dcontext_member_def member_names printable_def endpoints_reread_onto
        zero_dcontext_def reread_def)
  have "decode_dcontext (jprint (dcontext_json c)) = decode_members dcontext_member (?N @ ?M @ ?E) zero_dcontext"
    using jparse_jprint [OF dcontext_json_wf [OF assms]]
    by (simp add: decode_dcontext_def dcontext_json_def)
  with N M E show ?thesis by (simp only: decode_members_append then_do_simps)
qed



section \<open>What the store's operations do to the list of contexts\<close>

lemma join_name_enc [simp]: "enc \<noteq> '''' \<Longrightarrow> join_name root enc = root @ [enc]"
  by (simp add: join_name_def)

lemma meta_dirs_below:
  "d \<in> set (meta_dirs p n) \<Longrightarrow> \<exists>q. d = p @ q"
  "d \<in> set (meta_dirs_in p es) \<Longrightarrow> \<exists>x n q. (x, n) \<in> set es \<and> d = p @ x # q"
proof (induction p n and p es rule: meta_dirs_meta_dirs_in.induct)
  case (2 p es)
  then show ?case by (auto split: if_splits)
next
  case (4 p x n es)
  then show ?case by auto
qed auto

lemma meta_dirs_in_append: "meta_dirs_in p (as @ bs) = meta_dirs_in p as @ meta_dirs_in p bs"
  by (induction as) auto

lemma load_all_append:
  "load_all disk (as @ bs) = then_do (load_all disk as) (\<lambda>cs. then_do (load_all disk bs) (\<lambda>ds. Ok (cs @ ds)))"
proof (induction as)
  case Nil
  then show ?case by (cases "load_all disk bs") auto
next
  case (Cons a as)
  then show ?case
    by (cases "load disk a"; cases "load_all disk as"; cases "load_all disk bs") auto
qed

lemma load_all_cong: "(\<And>d. d \<in> set ds \<Longrightarrow> load disk d = load disk' d) \<Longrightarrow> load_all disk ds = load_all disk' ds"
  by (induction ds) (auto split: outcome.split)

lemma load_cong: "node_at disk (d @ [metaFile]) = node_at disk' (d @ [metaFile]) \<Longrightarrow> load disk d = load disk' d"
  by (simp add: load_def read_file_def)

text \<open>The contexts below some entries of the root.\<close>

definition contexts_in :: "node \<Rightarrow> path \<Rightarrow> (string \<times> node) list \<Rightarrow> dcontext list outcome" where
  "contexts_in disk root es = load_all disk (meta_dirs_in root es)"

lemma contexts_in_append:
  "contexts_in disk root (as @ bs) =
     then_do (contexts_in disk root as) (\<lambda>cs. then_do (contexts_in disk root bs) (\<lambda>ds. Ok (cs @ ds)))"
  by (simp add: contexts_in_def meta_dirs_in_append load_all_append)

lemma contexts_in_cong:
  assumes "\<And>x q. x \<in> fst ` set es \<Longrightarrow> node_at disk (root @ x # q) = node_at disk' (root @ x # q)"
  shows "contexts_in disk root es = contexts_in disk' root es"
  unfolding contexts_in_def
proof (rule load_all_cong, rule load_cong)
  fix d
  assume "d \<in> set (meta_dirs_in root es)"
  with meta_dirs_below(2) obtain x n q where x: "(x, n) \<in> set es" and d: "d = root @ x # q" by blast
  from x have "x \<in> fst ` set es" by force
  with assms d show "node_at disk (d @ [metaFile]) = node_at disk' (d @ [metaFile])" by simp
qed

lemma store_list_entries:
  assumes "node_at disk root = Inr (DirN es)" and "map_of es metaFile = None"
  shows "store_list disk root = contexts_in disk root es"
  using assms by (simp add: store_list_def findMetadataDirs_def contexts_in_def hasMetaFile_def)

text \<open>The root directory is as \<open>add\<close> leaves it: no file \<open>meta.json\<close> of its own, entries told apart by name.\<close>

definition root_ok :: "node \<Rightarrow> path \<Rightarrow> bool" where
  "root_ok disk root =
     (case entries_at disk root of
        None \<Rightarrow> False
      | Some es \<Rightarrow> map_of es metaFile = None \<and> distinct (map fst es))"

definition stored :: "node \<Rightarrow> path \<Rightarrow> dcontext list outcome" where
  "stored disk root =
     (case entries_at disk root of None \<Rightarrow> Panic ''no directory'' | Some es \<Rightarrow> contexts_in disk root es)"

lemma stored_list:
  assumes "root_ok disk root" and "node_at disk root = Inr n"
  shows "store_list disk root = stored disk root"
  using assms
  by (cases n) (auto simp: root_ok_def stored_def store_list_entries entries_at_def split: option.splits)

lemma store_add_Ok:
  assumes "store_add dg root c disk = (Ok c', disk')" and "dc_encodedName c \<noteq> ''''"
  shows "c' = c \<and> (\<exists>disk1. \<not> file_exists disk (root @ [dc_encodedName c])
     \<and> mkdir_all disk (root @ [dc_encodedName c]) = Inr disk1
     \<and> write_file disk1 (root @ [dc_encodedName c, metaFile]) (jprint (dcontext_json c)) = Inr disk')"
  using assms by (auto simp: store_add_def Let_def split: if_splits sum.splits)

section \<open>The store as a map from names to contexts\<close>

text \<open>
  The invariant of the store: every entry of the root is the directory of one context, under the
  digest of its name. The abstract store is the map from names to contexts.
\<close>

definition store_ok :: "(string \<Rightarrow> string) \<Rightarrow> node \<Rightarrow> path \<Rightarrow> bool" where
  "store_ok dg disk root =
     (root_ok disk root \<and>
      (case entries_at disk root of
         None \<Rightarrow> False
       | Some es \<Rightarrow> list_all (\<lambda>e. case contexts_in disk root [e] of
                                  Ok [c] \<Rightarrow> fst e = dg (dc_Name c) | _ \<Rightarrow> False) es))"

definition abs_store :: "node \<Rightarrow> path \<Rightarrow> string \<Rightarrow> dcontext option" where
  "abs_store disk root name =
     (case stored disk root of Ok cs \<Rightarrow> find (\<lambda>c. dc_Name c = name) cs | _ \<Rightarrow> None)"

abbreviation placed :: "(string \<Rightarrow> string) \<Rightarrow> node \<Rightarrow> path \<Rightarrow> string \<times> node \<Rightarrow> dcontext \<Rightarrow> bool" where
  "placed dg disk root e c \<equiv> contexts_in disk root [e] = Ok [c] \<and> fst e = dg (dc_Name c)"

lemma placed_contexts:
  "list_all (\<lambda>e. case contexts_in disk root [e] of Ok [c] \<Rightarrow> fst e = dg (dc_Name c) | _ \<Rightarrow> False) es \<longleftrightarrow>
     (\<exists>cs. contexts_in disk root es = Ok cs \<and> list_all2 (placed dg disk root) es cs)"
proof (induction es)
  case Nil
  then show ?case by (simp add: contexts_in_def)
next
  case (Cons e es)
  have split: "contexts_in disk root (e # es) =
      then_do (contexts_in disk root [e]) (\<lambda>cs. then_do (contexts_in disk root es) (\<lambda>ds. Ok (cs @ ds)))"
    using contexts_in_append [of disk root "[e]" es] by simp
  show ?case
    unfolding list.pred_inject Cons.IH split
    by (fastforce simp: outcome_simps list_all2_Cons1 split: outcome.splits list.splits)
qed

lemma store_ok_iff:
  "store_ok dg disk root \<longleftrightarrow>
     (\<exists>es cs. entries_at disk root = Some es \<and> root_ok disk root \<and> stored disk root = Ok cs
        \<and> contexts_in disk root es = Ok cs \<and> list_all2 (placed dg disk root) es cs)"
  unfolding store_ok_def stored_def by (auto simp: placed_contexts split: option.splits)

lemma find_append: "find P (xs @ ys) = (case find P xs of None \<Rightarrow> find P ys | Some x \<Rightarrow> Some x)"
  by (induction xs) auto

lemma find_absent: "(\<And>x. x \<in> set xs \<Longrightarrow> \<not> P x) \<Longrightarrow> find P xs = None"
  by (simp add: find_None_iff)

lemma abs_store_insert:
  assumes "stored disk root = Ok (as @ bs)" and "stored disk' root = Ok (as @ c # bs)"
    and "dc_Name c \<notin> dc_Name ` set (as @ bs)"
  shows "abs_store disk' root = (abs_store disk root)(dc_Name c \<mapsto> c)"
proof
  fix n
  have "n = dc_Name c \<Longrightarrow> find (\<lambda>c. dc_Name c = n) as = None"
    using assms(3) by (intro find_absent) (metis UnCI image_eqI set_append)
  with assms(1,2) show "abs_store disk' root n = ((abs_store disk root)(dc_Name c \<mapsto> c)) n"
    by (auto simp: abs_store_def find_append split: option.split)
qed

lemma placed_names:
  assumes "list_all2 (placed dg disk root) es cs" and "c \<in> set cs"
  shows "dg (dc_Name c) \<in> fst ` set es"
  using assms by (induction rule: list_all2_induct) auto

text \<open>A file \<open>meta.json\<close> in a directory of its own adds the context that it decodes to, wherever the text comes from.\<close>

lemma entry_refines:
  assumes dir: "\<not> file_exists disk (root @ [e])" "mkdir_all disk (root @ [e]) = Inr disk1"
    and data: "write_file disk1 (root @ [e, metaFile]) data = Inr disk'" "decode_dcontext data = Ok c"
    and e: "e = dg (dc_Name c)" "e \<noteq> metaFile" and ok: "store_ok dg disk root"
  shows "store_ok dg disk' root \<and> abs_store disk' root = (abs_store disk root)(dc_Name c \<mapsto> c)
     \<and> (\<exists>es. node_at disk' root = Inr (DirN es))"
proof -
  let ?new = "DirN [(metaFile, FileN data)]"
  from ok obtain es cs where es: "entries_at disk root = Some es" and root: "root_ok disk root"
    and cs: "stored disk root = Ok cs" "contexts_in disk root es = Ok cs" "list_all2 (placed dg disk root) es cs"
    by (auto simp: store_ok_iff)
  from new_entry [OF dir data(1)] es have fresh: "map_of es e = None"
    and new: "node_at disk' root = Inr (DirN (put_entry e ?new es))" by auto
  have absent: "e \<notin> fst ` set es" using fresh by (simp add: map_of_eq_None_iff)
  have other: "contexts_in disk' root xs = contexts_in disk root xs" if "set xs \<subseteq> set es" for xs
  proof (rule contexts_in_cong)
    fix x q
    assume "x \<in> fst ` set xs"
    with that absent have "x \<noteq> e" by force
    with dir(2) data(1) show "node_at disk' (root @ x # q) = node_at disk (root @ x # q)"
      using tree_store.mk_wr_other [of disk "root @ [e]" disk1 metaFile data disk' "root @ x # q"] by simp
  qed
  have "load disk' (root @ [e]) = Ok c"
    using new data(2) by (simp add: load_def read_file_def node_at_append)
  then have new_c: "contexts_in disk' root [(e, ?new)] = Ok [c]" by (simp add: contexts_in_def hasMetaFile_def)
  from put_entry_fresh [OF fresh, of ?new] obtain as bs where ab: "es = as @ bs"
    and put: "put_entry e ?new es = as @ (e, ?new) # bs" by blast
  from cs(2) ab other [of as] other [of bs] obtain cs1 cs2 where parts:
    "contexts_in disk' root as = Ok cs1" "contexts_in disk' root bs = Ok cs2" "cs = cs1 @ cs2"
    by (auto simp: contexts_in_append outcome_simps)
  have "contexts_in disk' root (as @ [(e, ?new)] @ bs) = Ok (cs1 @ c # cs2)"
    by (simp only: contexts_in_append parts new_c then_do_simps) simp
  with new put have st': "stored disk' root = Ok (cs1 @ c # cs2)" by (simp add: stored_def)
  have root': "root_ok disk' root"
    using root es e(2) new ab put absent by (auto simp: root_ok_def)
  have "dc_Name c \<notin> dc_Name ` set (cs1 @ cs2)"
    using placed_names [OF cs(3)] absent e(1) parts(3) by auto
  with cs(1) parts(3) have abs: "abs_store disk' root = (abs_store disk root)(dc_Name c \<mapsto> c)"
    using abs_store_insert [OF _ st'] by simp
  have sub: "set (put_entry e ?new es) = insert (e, ?new) (set es)" using put ab by auto
  have old: "x \<in> set es \<Longrightarrow> \<exists>d. contexts_in disk root [x] = Ok [d] \<and> fst x = dg (dc_Name d)" for x
    using cs(3) by (induction rule: list_all2_induct) auto
  have one: "contexts_in disk' root [x] = contexts_in disk root [x]" if "x \<in> set es" for x
    using that by (intro other) simp
  have "list_all (\<lambda>x. case contexts_in disk' root [x] of Ok [c] \<Rightarrow> fst x = dg (dc_Name c) | _ \<Rightarrow> False)
          (put_entry e ?new es)"
    unfolding list_all_iff sub using new_c one old e(1) by fastforce
  with root' new have "store_ok dg disk' root" by (simp add: store_ok_def)
  with abs new show ?thesis by blast
qed

text \<open>\<open>add\<close> inserts the context into the map.\<close>

lemma store_add_refines:
  assumes add: "store_add dg root c disk = (Ok c', disk')"
    and enc: "dc_encodedName c = dg (dc_Name c)" "dg (dc_Name c) \<noteq> ''''" "dg (dc_Name c) \<noteq> metaFile"
    and c: "printable c" and ok: "store_ok dg disk root"
  shows "store_ok dg disk' root \<and> abs_store disk' root = (abs_store disk root)(dc_Name c \<mapsto> reread c)"
proof -
  from store_add_Ok [OF add] enc(1,2) obtain disk1 where "\<not> file_exists disk (root @ [dg (dc_Name c)])"
    "mkdir_all disk (root @ [dg (dc_Name c)]) = Inr disk1"
    "write_file disk1 (root @ [dg (dc_Name c), metaFile]) (jprint (dcontext_json c)) = Inr disk'" by auto
  from entry_refines [OF this decode_dcontext_reread [OF c] _ enc(3) ok] show ?thesis by (simp add: reread_def)
qed

lemma list_all2_filter:
  "list_all2 P xs ys \<Longrightarrow> (\<And>x y. P x y \<Longrightarrow> p x \<longleftrightarrow> q y) \<Longrightarrow> list_all2 P (filter p xs) (filter q ys)"
  by (induction rule: list_all2_induct) auto

lemma contexts_in_placed:
  "list_all2 (placed dg disk root) es cs \<Longrightarrow> contexts_in disk root es = Ok cs"
proof (induction rule: list_all2_induct)
  case (Cons e es c cs)
  then show ?case using contexts_in_append [of disk root "[e]" es] by simp
qed (simp add: contexts_in_def)

lemma find_filter_not: "find (\<lambda>c. f c = n) (filter (\<lambda>c. f c \<noteq> m) cs) = (if n = m then None else find (\<lambda>c. f c = n) cs)"
  by (induction cs) auto

text \<open>\<open>delete\<close> removes the context from the map.\<close>

lemma store_delete_refines:
  assumes del: "store_delete root (dg name) disk = (Ok (), disk')" and dg: "dg name \<noteq> ''''"
    and dg_inj: "\<And>n. dg n = dg name \<Longrightarrow> n = name"
    and ok: "store_ok dg disk root" and root: "node_at disk root = Inr (DirN es)"
  shows "store_ok dg disk' root \<and> abs_store disk' root = (abs_store disk root)(name := None)
     \<and> (\<exists>es'. node_at disk' root = Inr (DirN es'))"
proof -
  let ?e = "dg name"
  from ok root obtain cs where root_ok: "root_ok disk root" and cs: "stored disk root = Ok cs"
    "list_all2 (placed dg disk root) es cs"
    by (auto simp: store_ok_iff)
  from del dg have rm: "remove_all disk (root @ [?e]) = Inr disk'"
    by (auto simp: store_delete_def split: sum.splits)
  let ?es = "filter (\<lambda>e. fst e \<noteq> ?e) es" and ?cs = "filter (\<lambda>c. dc_Name c \<noteq> name) cs"
  have new: "node_at disk' root = Inr (DirN ?es)" by (rule remove_entry [OF rm root])
  have keep: "contexts_in disk' root [x] = contexts_in disk root [x]" if "x \<in> set ?es" for x
  proof (rule contexts_in_cong)
    fix y q
    assume "y \<in> fst ` set [x]"
    with that have "y \<noteq> ?e" by auto
    then show "node_at disk' (root @ y # q) = node_at disk (root @ y # q)"
      by (intro tree_store.rm_other [OF rm]) simp
  qed
  have "list_all2 (placed dg disk root) ?es ?cs"
    using cs(2) by (rule list_all2_filter) (auto dest: dg_inj)
  then have pl: "list_all2 (placed dg disk' root) ?es ?cs"
    by (rule list.rel_mono_strong) (use keep in simp)
  have m: "map_of ?es metaFile = None"
    using root_ok root by (auto simp: root_ok_def map_of_eq_None_iff)
  have d: "distinct (map fst ?es)"
    using root_ok root by (simp add: root_ok_def distinct_map_filter)
  have st: "stored disk' root = Ok ?cs"
    using new contexts_in_placed [OF pl] by (simp add: stored_def)
  have "store_ok dg disk' root"
    unfolding store_ok_iff using new m d st contexts_in_placed [OF pl] pl by (auto simp: root_ok_def)
  moreover have "abs_store disk' root = (abs_store disk root)(name := None)"
    using st cs(1) by (auto simp: abs_store_def find_filter_not)
  ultimately show ?thesis using new by blast
qed



section \<open>New, Delete and Inspect against the map\<close>

text \<open>What the documentation of go-digest promises of an encoded digest.\<close>

definition hex_name :: "string \<Rightarrow> bool" where
  "hex_name s = (s \<noteq> '''' \<and> set s \<subseteq> set ''0123456789abcdef'')"

lemma hex_name_not_meta: "hex_name s \<Longrightarrow> s \<noteq> metaFile"
  by (auto simp: hex_name_def metaFile_def)

lemma metaRoot_Ok: "metaRoot pf disk = Ok root \<longleftrightarrow> (\<exists>dir. Dir pf disk = Ok dir \<and> root = dir @ [contextsDir, metadataDir])"
  by (auto simp: metaRoot_def outcome_simps)

text \<open>The store only depends on what is at its root.\<close>

lemma load_below: "node_at disk' root = node_at disk root \<Longrightarrow> load disk' (root @ q) = load disk (root @ q)"
  by (rule load_cong) (simp add: node_at_append)

lemma contexts_in_root: "node_at disk' root = node_at disk root \<Longrightarrow> contexts_in disk' root es = contexts_in disk root es"
  by (rule contexts_in_cong) (simp add: node_at_append)

lemma store_root:
  assumes "node_at disk' root = node_at disk root"
  shows "store_ok dg disk' root = store_ok dg disk root" and "abs_store disk' root = abs_store disk root"
proof -
  have e: "entries_at disk' root = entries_at disk root" using assms by (simp add: entries_at_def)
  have c: "contexts_in disk' root = contexts_in disk root" by (rule ext) (rule contexts_in_root [OF assms])
  show "store_ok dg disk' root = store_ok dg disk root"
    by (simp only: store_ok_def root_ok_def e c)
  show "abs_store disk' root = abs_store disk root"
    by (rule ext) (simp only: abs_store_def stored_def e c)
qed

lemma metaRoot_keep:
  assumes "metaRoot pf disk = Ok root" and "node_at disk' (root @ q) = Inr n"
  shows "metaRoot pf disk' = Ok root"
proof -
  from assms(1) obtain dir where dir: "Dir pf disk = Ok dir" "root = dir @ [contextsDir, metadataDir]"
    by (auto simp: metaRoot_Ok)
  with assms(2) have "file_exists disk' dir" by (auto intro: file_exists_below [of _ dir])
  with Dir_cong [OF dir(1)] dir(2) show ?thesis by (simp add: metaRoot_Ok)
qed

text \<open>Writing the configuration does not touch the store.\<close>

lemma set_current_frame:
  assumes "getenv pf ''DOCKER_AUTH_CONFIG'' = ''''" and "set_current pf name disk = (Ok (), disk')"
    and "metaRoot pf disk = Ok root"
  shows "node_at disk' root = node_at disk root"
proof -
  from assms(2) obtain cfg where load: "Load pf disk = Ok cfg"
    and save: "Save pf (cfg\<lparr>cfg_CurrentContext := name\<rparr>) disk = (Ok (), disk')"
    by (auto simp: set_current_def outcome_simps split: outcome.splits)
  from Load_file [OF assms(1) load] obtain p where p: "cfg_filepath cfg = Some p" "Filepath pf disk = Ok p" by metis
  from p(2) assms(3) obtain dir where "p = dir @ [FileName]" "root = dir @ [contextsDir, metadataDir]"
    using Filepath_Ok [OF p(2)] by (auto simp: metaRoot_Ok)
  then have "forks p root" by (simp add: FileName_def contextsDir_def)
  moreover from Save_Ok [OF save] p(1) obtain data where "write_file disk p data = Inr disk'" by auto
  ultimately show ?thesis by (metis tree_store.wr_other)
qed

lemma New_Ok:
  assumes "New pf dg name opts disk = (Ok c, disk')" and "apply_options opts zero_context_options = Ok o'"
    and "metaRoot pf disk = Ok root" and "dg name \<noteq> ''''"
  obtains disk1 where "store_add dg root (new_context dg name o') disk = (Ok (new_context dg name o'), disk1)"
    and "if co_current o' then set_current pf name disk1 = (Ok (), disk') else disk' = disk1"
    and "c = (new_context dg name o')\<lparr>dc_isCurrent := co_current o'\<rparr>"
proof -
  have enc: "dc_encodedName (new_context dg name o') \<noteq> ''''" using assms(4) by (simp add: new_context_def)
  from assms obtain ctx disk1 where add: "store_add dg root (new_context dg name o') disk = (Ok ctx, disk1)"
    and rest: "(if co_current o' then st_do (set_current pf (dc_Name ctx) disk1) (\<lambda>_ disk2. (Ok (ctx\<lparr>dc_isCurrent := True\<rparr>), disk2))
        else (Ok ctx, disk1)) = (Ok c, disk')"
    by (auto simp: New_def outcome_simps split: if_splits outcome.splits)
  from store_add_Ok [OF add enc] have "ctx = new_context dg name o'" by simp
  with add rest that show ?thesis
    by (auto simp: outcome_simps new_context_def split: if_splits)
qed


definition options_printable :: "context_options \<Rightarrow> bool" where
  "options_printable o' =
     (case co_additionalFields o' of None \<Rightarrow> True
      | Some fs \<Rightarrow> keys_ordered fs \<and> list_all (\<lambda>(k, j). json_wf j) fs)"

lemma new_context_printable: "options_printable o' \<Longrightarrow> printable (new_context dg name o')"
  by (auto simp: options_printable_def printable_def new_context_def Fields_def split: option.splits)

lemma New_inserts:
  assumes "getenv pf ''DOCKER_AUTH_CONFIG'' = ''''" and "metaRoot pf disk = Ok root"
    and "store_ok dg disk root" and "hex_name (dg name)"
    and "New pf dg name opts disk = (Ok c, disk')"
    and "apply_options opts zero_context_options = Ok o'" and "options_printable o'"
  shows "metaRoot pf disk' = Ok root" and "store_ok dg disk' root" and "\<exists>es. node_at disk' root = Inr (DirN es)"
    and "abs_store disk' root = (abs_store disk root)(name \<mapsto> reread (new_context dg name o'))"
    and "c = (new_context dg name o')\<lparr>dc_isCurrent := co_current o'\<rparr>"
    and "co_current o' \<Longrightarrow> \<exists>disk1. set_current pf name disk1 = (Ok (), disk')"
proof -
  have dg: "dg name \<noteq> ''''" "dg name \<noteq> metaFile" using assms(4) hex_name_not_meta by (auto simp: hex_name_def)
  let ?c = "new_context dg name o'"
  from New_Ok [OF assms(5,6,2) dg(1)] obtain disk1 where add: "store_add dg root ?c disk = (Ok ?c, disk1)"
    and cur: "if co_current o' then set_current pf name disk1 = (Ok (), disk') else disk' = disk1"
    and c: "c = ?c\<lparr>dc_isCurrent := co_current o'\<rparr>" by blast
  have enc: "dc_encodedName ?c = dg (dc_Name ?c)" "dc_Name ?c = name" by (simp_all add: new_context_def)
  have ok1: "store_ok dg disk1 root \<and> abs_store disk1 root = (abs_store disk root)(name \<mapsto> reread ?c)"
    using store_add_refines [OF add enc(1)] dg assms(3,7) new_context_printable enc(2) by simp
  obtain es where new: "node_at disk1 root = Inr (DirN es)"
    using store_add_Ok [OF add] new_entry dg(1) enc by metis
  then have root1: "metaRoot pf disk1 = Ok root"
    using metaRoot_keep [OF assms(2), of disk1 "[]"] by simp
  have same: "node_at disk' root = node_at disk1 root"
    using cur set_current_frame [OF assms(1) _ root1] by (auto split: if_splits)
  then show "metaRoot pf disk' = Ok root"
    using metaRoot_keep [OF assms(2), of disk' "[]"] new by simp
  show "store_ok dg disk' root" "abs_store disk' root = (abs_store disk root)(name \<mapsto> reread ?c)"
    using ok1 store_root [OF same] by simp_all
  show "\<exists>es. node_at disk' root = Inr (DirN es)" using same new by simp
  show "co_current o' \<Longrightarrow> \<exists>disk1. set_current pf name disk1 = (Ok (), disk')" using cur by auto
qed (use New_Ok [OF assms(5,6,2)] assms(4) in \<open>auto simp: hex_name_def\<close>)

text \<open>
  C16: \<open>New\<close> implements insertion into the map of contexts. When it returns without error, the
  configuration directory still holds a well-formed store, in which the new name is bound to what the
  options describe and every other name to what it was bound to, whether or not the context was made
  the current one.
\<close>

theorem New_refines_insert:
  assumes "getenv pf ''DOCKER_AUTH_CONFIG'' = ''''" and "metaRoot pf disk = Ok root"
    and "store_ok dg disk root" and "hex_name (dg name)"
    and "New pf dg name opts disk = (Ok c, disk')"
    and "apply_options opts zero_context_options = Ok o'" and "options_printable o'"
  shows "metaRoot pf disk' = Ok root \<and> store_ok dg disk' root \<and>
     abs_store disk' root = (abs_store disk root)(name \<mapsto> reread c) \<and>
     dc_Name c = name \<and> dc_encodedName c = dg name \<and> dc_isCurrent c = co_current o'"
  using New_inserts [OF assms] by (simp add: new_context_def reread_def)

text \<open>The store of the witnesses: the disk of \<open>demo_disk\<close>, without contexts at first.\<close>

definition demo_digest :: "string \<Rightarrow> string" where
  "demo_digest n = (if n = ''a'' then ''ab'' else ''cd'')"

abbreviation demo_root :: path where
  "demo_root \<equiv> [''root'', ''.docker'', ''contexts'', ''meta'']"

lemma demo_env: "getenv demo_platform k = ''''"
  by (simp add: getenv_def demo_platform_def)

lemma demo_Dir: "file_exists disk [''root'', ''.docker''] \<Longrightarrow> Dir demo_platform disk = Ok [''root'', ''.docker'']"
  by (simp add: Dir_def demo_env getHomeDir_def Let_def) (simp add: demo_platform_def path_of_def configFileDir_def)

lemma demo_metaRoot: "metaRoot demo_platform demo_disk = Ok demo_root"
  using demo_Dir [of demo_disk]
  by (simp add: metaRoot_def contextsDir_def metadataDir_def file_exists_def demo_disk_def)

lemma demo_store_ok: "store_ok demo_digest demo_disk demo_root"
  by (simp add: store_ok_def root_ok_def entries_at_def demo_disk_def)

lemma demo_list: "store_list demo_disk demo_root = Err (wrapf ''find contexts'' (os_error ENOENT))"
  by (simp add: store_list_def findMetadataDirs_def demo_disk_def)

lemma demo_New:
  "\<exists>c disk'. New demo_platform demo_digest ''a'' [WithHost ''tcp://h''] demo_disk = (Ok c, disk')"
proof -
  let ?o = "zero_context_options\<lparr>co_host := ''tcp://h''\<rparr>"
  have opts: "apply_options [WithHost ''tcp://h''] zero_context_options = Ok ?o"
    by (simp add: WithHost_def)
  have ins: "\<exists>e. Inspect demo_platform demo_digest demo_disk ''a'' = Err e"
    by (simp add: Inspect_def demo_metaRoot store_inspect_def demo_list)
  have "\<exists>disk'. store_add demo_digest demo_root (new_context demo_digest ''a'' ?o) demo_disk
      = (Ok (new_context demo_digest ''a'' ?o), disk')"
    by (simp add: store_add_def new_context_def demo_digest_def demo_disk_def file_exists_def Let_def metaFile_def)
  with ins opts show ?thesis
    by (auto simp: New_def demo_metaRoot zero_context_options_def)
qed

theorem New_refines_insert_witness:
  "\<exists>c disk'. New demo_platform demo_digest ''a'' [WithHost ''tcp://h''] demo_disk = (Ok c, disk')
     \<and> abs_store disk' demo_root ''a'' = Some (reread c) \<and> abs_store disk' demo_root ''b'' = None"
proof -
  from demo_New obtain c disk' where new: "New demo_platform demo_digest ''a'' [WithHost ''tcp://h''] demo_disk = (Ok c, disk')"
    by blast
  have "abs_store disk' demo_root = (abs_store demo_disk demo_root)(''a'' \<mapsto> reread c)"
    using New_refines_insert [OF demo_env demo_metaRoot demo_store_ok _ new, of "zero_context_options\<lparr>co_host := ''tcp://h''\<rparr>"]
    by (simp add: hex_name_def demo_digest_def WithHost_def options_printable_def zero_context_options_def)
  moreover have "abs_store demo_disk demo_root ''b'' = None"
    by (simp add: abs_store_def stored_def entries_at_def demo_disk_def contexts_in_def)
  ultimately show ?thesis using new by auto
qed

text \<open>
  C18: \<open>Delete\<close> implements deletion from the map of contexts: of a context that \<open>New\<close> or \<open>Inspect\<close>
  returned it removes the name and keeps every other context, whether or not it was the current one.
\<close>

theorem Delete_refines_delete:
  assumes "getenv pf ''DOCKER_AUTH_CONFIG'' = ''''" and "metaRoot pf disk = Ok root"
    and "store_ok dg disk root" and "node_at disk root = Inr (DirN es)"
    and "dc_encodedName ctx = dg (dc_Name ctx)" and "hex_name (dg (dc_Name ctx))"
    and "\<And>n. dg n = dg (dc_Name ctx) \<Longrightarrow> n = dc_Name ctx"
    and "Delete pf ctx disk = (Ok (), disk')"
  shows "metaRoot pf disk' = Ok root \<and> store_ok dg disk' root \<and>
     abs_store disk' root = (abs_store disk root)(dc_Name ctx := None)"
proof -
  have dg: "dg (dc_Name ctx) \<noteq> ''''" using assms(6) by (simp add: hex_name_def)
  from assms(2,5,8) dg obtain disk1 where del: "store_delete root (dg (dc_Name ctx)) disk = (Ok (), disk1)"
    and cur: "(if dc_isCurrent ctx then set_current pf DefaultContextName disk1 else (Ok (), disk1)) = (Ok (), disk')"
    by (auto simp: Delete_def outcome_simps)
  from store_delete_refines [OF del dg assms(7,3,4)] obtain es' where
    ok1: "store_ok dg disk1 root" "abs_store disk1 root = (abs_store disk root)(dc_Name ctx := None)"
    and new: "node_at disk1 root = Inr (DirN es')" by blast
  then have root1: "metaRoot pf disk1 = Ok root"
    using metaRoot_keep [OF assms(2), of disk1 "[]"] by simp
  have same: "node_at disk' root = node_at disk1 root"
    using cur set_current_frame [OF assms(1) _ root1] by (auto split: if_splits)
  then have "metaRoot pf disk' = Ok root"
    using metaRoot_keep [OF assms(2), of disk' "[]"] new by simp
  with ok1 store_root [OF same] show ?thesis by simp
qed

text \<open>A store that holds the one context \<open>a\<close>.\<close>

definition demo_context :: dcontext where
  "demo_context = new_context demo_digest ''a'' (zero_context_options\<lparr>co_host := ''tcp://h''\<rparr>)"

definition demo_full_disk :: node where
  "demo_full_disk = DirN [(''root'', DirN [(''.docker'', DirN [(''config.json'', FileN ''{}''),
     (''contexts'', DirN [(''meta'', DirN [(''ab'',
        DirN [(metaFile, FileN (jprint (dcontext_json demo_context)))])])])])])]"

lemma demo_full_at: "node_at demo_full_disk demo_root =
    Inr (DirN [(''ab'', DirN [(metaFile, FileN (jprint (dcontext_json demo_context)))])])"
  by (simp add: demo_full_disk_def)

lemma demo_full_metaRoot: "metaRoot demo_platform demo_full_disk = Ok demo_root"
  using demo_Dir [of demo_full_disk]
  by (simp add: metaRoot_def contextsDir_def metadataDir_def file_exists_def demo_full_disk_def)

lemma demo_full_contexts:
  "contexts_in demo_full_disk demo_root [(''ab'', DirN [(metaFile, FileN (jprint (dcontext_json demo_context)))])]
     = Ok [reread demo_context]"
proof -
  have "printable demo_context"
    by (simp add: demo_context_def new_context_printable options_printable_def zero_context_options_def)
  from decode_dcontext_reread [OF this] show ?thesis
    by (simp add: contexts_in_def hasMetaFile_def load_def read_file_def demo_full_disk_def)
qed

lemma demo_full_store_ok: "store_ok demo_digest demo_full_disk demo_root"
  using demo_full_contexts
  by (simp add: store_ok_def root_ok_def entries_at_def demo_full_at metaFile_def)
    (simp add: reread_def demo_context_def new_context_def demo_digest_def)

lemma demo_Delete: "\<exists>disk'. Delete demo_platform demo_context demo_full_disk = (Ok (), disk')"
  by (simp add: Delete_def demo_full_metaRoot store_delete_def)
    (simp add: demo_context_def new_context_def demo_digest_def demo_full_disk_def)

theorem Delete_refines_delete_witness:
  "\<exists>disk'. Delete demo_platform demo_context demo_full_disk = (Ok (), disk')
     \<and> abs_store disk' demo_root ''a'' = None"
proof -
  from demo_Delete obtain disk' where del: "Delete demo_platform demo_context demo_full_disk = (Ok (), disk')" by blast
  have name: "dc_Name demo_context = ''a''" "dc_encodedName demo_context = demo_digest (dc_Name demo_context)"
    by (simp_all add: demo_context_def new_context_def)
  have dg: "hex_name (demo_digest (dc_Name demo_context))"
    "\<And>n. demo_digest n = demo_digest (dc_Name demo_context) \<Longrightarrow> n = dc_Name demo_context"
    by (auto simp: hex_name_def demo_digest_def name split: if_splits)
  show ?thesis
    using Delete_refines_delete [OF demo_env demo_full_metaRoot demo_full_store_ok demo_full_at name(2) dg del] del name
    by auto
qed

lemma store_inspect_found:
  assumes "root_ok disk root" and "stored disk root = Ok cs" and "node_at disk root = Inr (DirN es)"
  shows "store_inspect pf dg disk root name =
     (case abs_store disk root name of
        None \<Rightarrow> Err (Sentinel ErrDockerContextNotFound)
      | Some c \<Rightarrow>
          (if docker_endpoint c = None then Err (Sentinel ErrDockerHostNotSet)
           else then_wrap ''load config'' (Load pf disk) (\<lambda>cfg.
             Ok (c\<lparr>dc_isCurrent := cfg_CurrentContext cfg = name, dc_encodedName := dg name\<rparr>))))"
proof -
  from stored_list [OF assms(1,3)] assms(2) have l: "store_list disk root = Ok cs" by simp
  have a: "abs_store disk root name = find (\<lambda>c. dc_Name c = name) cs" by (simp add: abs_store_def assms(2))
  show ?thesis
  proof (cases "find (\<lambda>c. dc_Name c = name) cs")
    case (Some c)
    then have "dc_Name c = name" unfolding find_Some_iff by blast
    with Some show ?thesis by (simp add: store_inspect_def l a)
  qed (simp add: store_inspect_def l a)
qed

lemma store_inspect_looks_up:
  assumes "store_ok dg disk root" and "node_at disk root = Inr (DirN es)"
  shows "store_inspect pf dg disk root name =
     (case abs_store disk root name of
        None \<Rightarrow> Err (Sentinel ErrDockerContextNotFound)
      | Some c \<Rightarrow>
          (if docker_endpoint c = None then Err (Sentinel ErrDockerHostNotSet)
           else then_wrap ''load config'' (Load pf disk) (\<lambda>cfg.
             Ok (c\<lparr>dc_isCurrent := cfg_CurrentContext cfg = name, dc_encodedName := dg name\<rparr>))))"
  using assms(1) store_inspect_found [OF _ _ assms(2)] by (auto simp: store_ok_iff)

text \<open>
  \<open>Inspect\<close> looks a name up in the map: on a well-formed store it fails only for a name that is
  not bound, for a context without a docker host, or when the configuration cannot be loaded, and what
  it returns is the stored context, current exactly when the configuration names it.
\<close>

theorem Inspect_looks_up:
  assumes "metaRoot pf disk = Ok root" and "store_ok dg disk root" and "node_at disk root = Inr (DirN es)"
  shows "Inspect pf dg disk name =
     (case abs_store disk root name of
        None \<Rightarrow> Err (Sentinel ErrDockerContextNotFound)
      | Some c \<Rightarrow>
          (if docker_endpoint c = None then Err (Sentinel ErrDockerHostNotSet)
           else then_wrap ''load config'' (Load pf disk) (\<lambda>cfg.
             Ok (c\<lparr>dc_isCurrent := cfg_CurrentContext cfg = name, dc_encodedName := dg name\<rparr>))))"
  by (simp add: Inspect_def assms(1) store_inspect_looks_up [OF assms(2,3)])

theorem Inspect_looks_up_witness:
  "Inspect demo_platform demo_digest demo_full_disk ''a'' =
     Ok ((reread demo_context)\<lparr>dc_isCurrent := False, dc_encodedName := ''ab''\<rparr>)
   \<and> Inspect demo_platform demo_digest demo_full_disk ''b'' = Err (Sentinel ErrDockerContextNotFound)"
proof -
  have a: "abs_store demo_full_disk demo_root n = (if n = ''a'' then Some (reread demo_context) else None)" for n
    using demo_full_contexts
    by (simp add: abs_store_def stored_def entries_at_def demo_full_at)
      (simp add: reread_def demo_context_def new_context_def)
  have d: "docker_endpoint (reread demo_context) \<noteq> None"
    by (simp add: docker_endpoint_def reread_def demo_context_def new_context_def)
  have "Filepath demo_platform demo_full_disk = Ok [''root'', ''.docker'', FileName]"
    using demo_Dir [of demo_full_disk]
    by (simp add: Filepath_def file_exists_def demo_full_disk_def FileName_def)
  then have l: "Load demo_platform demo_full_disk = Ok (zero_config\<lparr>cfg_filepath := Some [''root'', ''.docker'', FileName]\<rparr>)"
    by (simp add: Load_def demo_env loadFromFilepath_def read_file_def demo_full_disk_def FileName_def)
      (simp add: demo_platform_def)
  show ?thesis
    using Inspect_looks_up [OF demo_full_metaRoot demo_full_store_ok demo_full_at, of "''a''"]
      Inspect_looks_up [OF demo_full_metaRoot demo_full_store_ok demo_full_at, of "''b''"] d
    by (simp add: a l zero_config_def demo_digest_def)
qed



section \<open>The current context and host\<close>

lemma Load_Err_wrapped: "Load pf disk = Err e \<Longrightarrow> \<not> os_IsNotExist e"
  by (cases "Filepath pf disk"; cases "pf_unmarshal pf (getenv pf ''DOCKER_AUTH_CONFIG'')")
    (auto simp: Load_def Let_def then_wrap_def os_IsNotExist_def os_error_def split: if_splits outcome.splits)

text \<open>
  Where the current context comes from: \<open>DOCKER_HOST\<close> forces the default context, then
  \<open>DOCKER_CONTEXT\<close>, then the configuration, whose empty value means the default context. A
  configuration that cannot be loaded is an error, also when there is none: the errors of \<open>Load\<close> are
  wrapped and \<open>os.IsNotExist\<close> does not look through them, so that the fallback of the code to the
  default context is never taken.
\<close>

theorem Current_sources:
  "Current pf disk =
     (if getenv pf ''DOCKER_HOST'' \<noteq> '''' then Ok ''default''
      else if getenv pf ''DOCKER_CONTEXT'' \<noteq> '''' then Ok (getenv pf ''DOCKER_CONTEXT'')
      else case Load pf disk of
        Ok cfg \<Rightarrow> Ok (if cfg_CurrentContext cfg = '''' then ''default'' else cfg_CurrentContext cfg)
      | Err e \<Rightarrow> Err (wrapf ''load docker config'' e)
      | Panic p \<Rightarrow> Panic p)"
  by (auto simp: Current_def getContextFromEnv_def EnvOverrideHost_def EnvOverrideContext_def
      DefaultContextName_def dest: Load_Err_wrapped split: outcome.split)

text \<open>
  The JSON form of a loaded configuration in which \<open>name\<close> was made the current context decodes to it, but for what
  is not part of the JSON form.
\<close>

definition json_keeps_current :: "'w platform \<Rightarrow> string \<Rightarrow> bool" where
  "json_keeps_current pf name \<longleftrightarrow>
     (\<forall>disk cfg data. Load pf disk = Ok cfg \<longrightarrow> pf_marshal pf (cfg\<lparr>cfg_CurrentContext := name\<rparr>) = Ok data \<longrightarrow>
        pf_decode pf data = Ok (cfg\<lparr>cfg_CurrentContext := name, cfg_filepath := None, cfg_cache := None\<rparr>))"

text \<open>Once a context was made the current one, the configuration names it.\<close>

lemma set_current_Load:
  assumes env: "getenv pf ''DOCKER_AUTH_CONFIG'' = ''''" and set: "set_current pf name disk = (Ok (), disk')"
    and json: "json_keeps_current pf name"
  shows "\<exists>cfg. Load pf disk' = Ok cfg \<and> cfg_CurrentContext cfg = name"
proof -
  from set obtain cfg where load: "Load pf disk = Ok cfg"
    and save: "Save pf (cfg\<lparr>cfg_CurrentContext := name\<rparr>) disk = (Ok (), disk')"
    by (auto simp: set_current_def outcome_simps split: outcome.splits)
  from Load_file [OF env load] obtain p where p: "cfg_filepath cfg = Some p" "Filepath pf disk = Ok p" by metis
  from Save_Ok [OF save] obtain data where data: "pf_marshal pf (cfg\<lparr>cfg_CurrentContext := name\<rparr>) = Ok data" by auto
  have "pf_decode pf data = Ok (cfg\<lparr>cfg_CurrentContext := name, cfg_filepath := None, cfg_cache := None\<rparr>)"
    using json load data by (simp add: json_keeps_current_def)
  from Load_after_Save [OF env p(2) _ save data this] p(1) show ?thesis by simp
qed

lemma New_current:
  assumes env: "getenv pf ''DOCKER_AUTH_CONFIG'' = ''''" "getenv pf ''DOCKER_HOST'' = ''''"
      "getenv pf ''DOCKER_CONTEXT'' = ''''" "getenv pf ''XDG_RUNTIME_DIR'' = ''''"
    and store: "metaRoot pf disk = Ok root" "store_ok dg disk root" "hex_name (dg name)"
    and new: "New pf dg name opts disk = (Ok c, disk')"
    and opts: "apply_options opts zero_context_options = Ok o'" "options_printable o'" "co_current o'" "co_host o' \<noteq> ''''"
    and json: "json_keeps_current pf name"
  shows "Current pf disk' = Ok name" and "CurrentDockerHost pf dg disk' = parseURL pf (co_host o')"
proof -
  note inserted = New_inserts [OF env(1) store new opts(1,2)]
  from inserted(6) [OF opts(3)] obtain disk1 where "set_current pf name disk1 = (Ok (), disk')" by blast
  from set_current_Load [OF env(1) this json] obtain cfg where cfg: "Load pf disk' = Ok cfg" "cfg_CurrentContext cfg = name"
    by blast
  have name: "name \<noteq> ''''" "name \<noteq> DefaultContextName"
    using new by (auto simp: New_def DefaultContextName_def split: if_splits)
  show current: "Current pf disk' = Ok name"
    using cfg name env by (simp add: Current_def getContextFromEnv_def EnvOverrideHost_def EnvOverrideContext_def)
  from inserted(3) obtain es where es: "node_at disk' root = Inr (DirN es)" by blast
  let ?ep = "\<lparr>ep_Host = co_host o', ep_SkipTLSVerify = co_skipTLSVerify o'\<rparr>"
  have ep: "map_of (dc_Endpoints (reread (new_context dg name o'))) ''docker'' = Some (Some ?ep)"
    by (simp add: reread_def new_context_def)
  then have "docker_endpoint (reread (new_context dg name o')) \<noteq> None"
    using opts(4) by (simp add: docker_endpoint_def)
  then have "Inspect pf dg disk' name = Ok ((reread (new_context dg name o'))\<lparr>dc_isCurrent := True, dc_encodedName := dg name\<rparr>)"
    using inserted(1,4) cfg by (simp add: Inspect_def store_inspect_looks_up [OF inserted(2) es])
  with current name ep show "CurrentDockerHost pf dg disk' = parseURL pf (co_host o')"
    using env(4) by (simp add: CurrentDockerHost_def rootlessSocketPathFromEnv_def)
qed

definition schema_of :: "string \<Rightarrow> string \<Rightarrow> bool" where
  "schema_of h schema = (\<exists>s r. h = s @ CHR '':'' # r \<and> to_lower s @ ''://'' = schema)"

lemma parseURL_Ok:
  assumes "parseURL pf s = Ok h"
  shows "h = s \<and> (schema_of h (DefaultSchema pf) \<or> schema_of h TCPSchema)"
proof -
  from assms obtain u where u: "url_parse s = Ok u"
    and r: "(if url_scheme u @ ''://'' = DefaultSchema pf then Ok s
             else if url_scheme u @ ''://'' = TCPSchema then Ok s else Err ErrInvalidSchema) = Ok h"
    unfolding parseURL_def then_do_Ok_iff by blast
  from r have h: "h = s" and sch: "url_scheme u @ ''://'' = DefaultSchema pf \<or> url_scheme u @ ''://'' = TCPSchema"
    by (metis outcome.distinct(1) outcome.inject(1))+
  from sch have "url_scheme u \<noteq> ''''" by (auto simp: DefaultSchema_def TCPSchema_def split: if_splits)
  from url_parse_scheme [OF u this] obtain sc r where "s = sc @ CHR '':'' # r" and sc: "to_lower sc = url_scheme u"
    by blast
  with h have "schema_of h (url_scheme u @ ''://'')" unfolding schema_of_def by metis
  with sch h show ?thesis by metis
qed

text \<open>The last step of \<open>CurrentDockerHost\<close>, once the current context is known.\<close>

lemma current_host_parsed:
  assumes "(if current = DefaultContextName then
              (if getenv pf EnvOverrideHost \<noteq> '''' then parseURL pf (getenv pf EnvOverrideHost)
               else parseURL pf (DefaultDockerHost pf))
            else then_wrap w (Inspect pf dg disk current) (\<lambda>ctx.
              case map_of (dc_Endpoints ctx) ''docker'' of
                Some (Some ep) \<Rightarrow> parseURL pf (ep_Host ep)
              | _ \<Rightarrow> Panic p)) = Ok h"
  shows "\<exists>s. parseURL pf s = Ok h"
proof (cases "current = DefaultContextName")
  case True
  with assms show ?thesis by (auto split: if_splits)
next
  case False
  with assms show ?thesis by (auto simp: then_wrap_Ok_iff split: option.splits)
qed

lemma CurrentDockerHost_parsed:
  assumes "CurrentDockerHost pf dg disk = Ok h"
  shows "\<exists>s. parseURL pf s = Ok h"
proof (cases "rootlessSocketPathFromEnv pf disk")
  case (Ok p)
  with assms show ?thesis by (auto simp: CurrentDockerHost_def)
next
  case (Err e)
  with assms current_host_parsed show ?thesis by (simp add: CurrentDockerHost_def then_wrap_Ok_iff) blast
next
  case (Panic p)
  with assms current_host_parsed show ?thesis by (simp add: CurrentDockerHost_def then_wrap_Ok_iff) blast
qed

text \<open>
  The host that \<open>CurrentDockerHost\<close> returns is never empty or of another kind: it starts with the
  scheme of the platform's socket or with tcp, wherever it comes from (the rootless socket, the
  environment, the default, or the endpoint stored in a context).
\<close>

theorem CurrentDockerHost_schema:
  assumes "CurrentDockerHost pf dg disk = Ok h"
  shows "schema_of h (DefaultSchema pf) \<or> schema_of h TCPSchema"
proof -
  from assms have "\<exists>s. parseURL pf s = Ok h" by (rule CurrentDockerHost_parsed)
  with parseURL_Ok show ?thesis by blast
qed

lemma demo_goos: "pf_goos demo_platform = ''linux''"
  by (simp add: demo_platform_def)

lemma demo_host: "CurrentDockerHost demo_platform demo_digest demo_disk = Ok ''unix:///var/run/docker.sock''"
proof -
  have "Filepath demo_platform demo_disk = Ok [''root'', ''.docker'', FileName]"
    using demo_Dir [of demo_disk]
    by (simp add: Filepath_def file_exists_def demo_disk_def FileName_def)
  then have "Load demo_platform demo_disk = Ok (zero_config\<lparr>cfg_filepath := Some [''root'', ''.docker'', FileName]\<rparr>)"
    by (simp add: Load_def demo_env loadFromFilepath_def read_file_def demo_disk_def FileName_def)
      (simp add: demo_platform_def)
  then have "Current demo_platform demo_disk = Ok ''default''"
    by (simp add: Current_def getContextFromEnv_def demo_env zero_config_def DefaultContextName_def)
  moreover have "url_parse ''unix:///var/run/docker.sock'' =
      Ok \<lparr>url_scheme = ''unix'', url_opaque = '''', url_user = None, url_host = '''', url_path = ''/var/run/docker.sock'', url_query = ''''\<rparr>"
    by code_simp
  ultimately show ?thesis
    by (simp add: CurrentDockerHost_def rootlessSocketPathFromEnv_def demo_env parseURL_def
        DefaultDockerHost_def DefaultSchema_def demo_goos DefaultContextName_def)
qed

theorem CurrentDockerHost_schema_witness:
  "CurrentDockerHost demo_platform demo_digest demo_disk = Ok ''unix:///var/run/docker.sock''
     \<and> (schema_of ''unix:///var/run/docker.sock'' ''unix://'' \<or> schema_of ''unix:///var/run/docker.sock'' ''tcp://'')"
  using CurrentDockerHost_schema [OF demo_host] demo_host
  by (simp add: DefaultSchema_def TCPSchema_def demo_goos)

end
