(* ===== verification/Sdk_Errors.thy ===== *)
theory Sdk_Errors
  imports Go_Prelude
begin

text \<open>
  How the SDK sorts errors: the classes of package errdefs that a Docker error may have, the errors
  that are not worth a retry (\<open>client/errors.go\<close>), and the errors that a clean-up ignores
  (\<open>isCleanupSafe\<close>, which the packages container, network and volume each define in \<open>testing.go\<close>, the
  same up to the word for the resource).
\<close>

definition ErrNotFound :: string where "ErrNotFound = ''not found''"
definition ErrInvalidArgument :: string where "ErrInvalidArgument = ''invalid argument''"
definition ErrUnauthorized :: string where "ErrUnauthorized = ''unauthorized''"
definition ErrPermissionDenied :: string where "ErrPermissionDenied = ''permission denied''"
definition ErrNotImplemented :: string where "ErrNotImplemented = ''not implemented''"
definition ErrInternal :: string where "ErrInternal = ''internal''"
definition ErrConflict :: string where "ErrConflict = ''conflict''"

lemmas err_class_defs =
  ErrNotFound_def ErrInvalidArgument_def ErrUnauthorized_def ErrPermissionDenied_def
  ErrNotImplemented_def ErrInternal_def ErrConflict_def

definition permanentClientErrors :: "string list" where
  "permanentClientErrors =
     [ErrNotFound, ErrInvalidArgument, ErrUnauthorized, ErrPermissionDenied, ErrNotImplemented, ErrInternal]"

definition IsPermanentClientError :: "err \<Rightarrow> bool" where
  "IsPermanentClientError e = list_ex (errors_is e) permanentClientErrors"

text \<open>
  The regular expression \<open>removal of WHAT .* is already in progress\<close>, found anywhere in the text; the
  dot does not match a newline.
\<close>

definition newline :: char where
  "newline = CHR 0x0A"

fun errAlreadyInProgress :: "string \<Rightarrow> string \<Rightarrow> bool" where
  "errAlreadyInProgress what [] = False"
| "errAlreadyInProgress what (c # s) =
     ((let start = ''removal of '' @ what @ '' '' in
       has_prefix (c # s) start
         \<and> contains (takeWhile (\<lambda>x. x \<noteq> newline) (drop (length start) (c # s))) '' is already in progress'')
      \<or> errAlreadyInProgress what s)"

text \<open>
  The function itself: a class is looked for in the whole tree of the error first; only an error of
  neither class is taken apart (\<open>rest\<close>). \<open>err\<close> values have no \<open>Cause\<close> method. No error is nil.
\<close>

definition by_class :: "string \<Rightarrow> err \<Rightarrow> bool \<Rightarrow> bool" where
  "by_class what e rest =
     (if errors_is e ErrNotFound then True
      else if errors_is e ErrConflict then errAlreadyInProgress what (err_text e)
      else rest)"

fun cleanup_safe :: "string \<Rightarrow> err \<Rightarrow> bool" where
  "cleanup_safe what (Sentinel s) = by_class what (Sentinel s) False"
| "cleanup_safe what (Msg m) = by_class what (Msg m) False"
| "cleanup_safe what (Class k m) = by_class what (Class k m) False"
| "cleanup_safe what (Wrap a x b) = by_class what (Wrap a x b) (cleanup_safe what x)"
| "cleanup_safe what (Wrap2 a x b y c) =
     by_class what (Wrap2 a x b y c) (cleanup_safe what x \<and> cleanup_safe what y)"
| "cleanup_safe what (Join es) = by_class what (Join es) (list_all (cleanup_safe what) es)"

definition isCleanupSafe :: "string \<Rightarrow> err option \<Rightarrow> bool" where
  "isCleanupSafe what e = (case e of None \<Rightarrow> True | Some x \<Rightarrow> cleanup_safe what x)"


definition isCleanupSafe_network :: "err option \<Rightarrow> bool" where
  "isCleanupSafe_network = isCleanupSafe ''network''"

definition isCleanupSafe_volume :: "err option \<Rightarrow> bool" where
  "isCleanupSafe_volume = isCleanupSafe ''volume''"


section \<open>What a clean-up ignores\<close>

text \<open>\<open>errors.Join\<close> never joins nothing.\<close>

fun joins_something :: "err \<Rightarrow> bool" where
  "joins_something (Wrap a x b) = joins_something x"
| "joins_something (Wrap2 a x b y c) = (joins_something x \<and> joins_something y)"
| "joins_something (Join es) = (es \<noteq> [] \<and> list_all joins_something es)"
| "joins_something _ = True"

lemma unclassified_unsafe:
  "joins_something e \<Longrightarrow> \<not> errors_is e ErrNotFound \<Longrightarrow> \<not> errors_is e ErrConflict \<Longrightarrow> \<not> cleanup_safe what e"
proof (induction e)
  case (Join es)
  then obtain x xs where "es = x # xs" by (cases es) auto
  with Join show ?case by (auto simp: by_class_def)
qed (auto simp: by_class_def)

text \<open>
  Which errors a clean-up ignores. It ignores no error, an error with a not-found error anywhere in
  its tree (also when another failure is joined to it), and a conflict whose text says that the removal
  is already in progress; every other error is reported, however it is wrapped or joined.
\<close>

theorem isCleanupSafe_iff:
  assumes "\<And>x. e = Some x \<Longrightarrow> joins_something x"
  shows "isCleanupSafe what e \<longleftrightarrow>
     (case e of None \<Rightarrow> True
      | Some x \<Rightarrow> errors_is x ErrNotFound
                 \<or> (errors_is x ErrConflict \<and> errAlreadyInProgress what (err_text x)))"
proof (cases e)
  case (Some x)
  have eq: "cleanup_safe what x = by_class what x (cleanup_safe what x)"
    by (cases x) (simp_all add: by_class_def)
  from Some assms have un: "\<not> errors_is x ErrNotFound \<Longrightarrow> \<not> errors_is x ErrConflict \<Longrightarrow> \<not> cleanup_safe what x"
    using unclassified_unsafe by simp
  have "cleanup_safe what x \<longleftrightarrow> errors_is x ErrNotFound
      \<or> (errors_is x ErrConflict \<and> errAlreadyInProgress what (err_text x))"
    using un by (subst eq) (auto simp: by_class_def split: if_splits)
  with Some show ?thesis by (simp add: isCleanupSafe_def)
qed (simp add: isCleanupSafe_def)

theorem isCleanupSafe_iff_witness:
  "isCleanupSafe ''container'' (Some (Join [Class ErrNotFound ''no such container'', Msg ''disk full'']))
   \<and> \<not> isCleanupSafe ''container'' (Some (wrapf ''stop'' (Msg ''disk full'')))"
  using isCleanupSafe_iff [of "Some (Join [Class ErrNotFound ''no such container'', Msg ''disk full''])" "''container''"]
    isCleanupSafe_iff [of "Some (wrapf ''stop'' (Msg ''disk full''))" "''container''"]
  by simp

end
