(* ===== verification/Docker_Engine.thy ===== *)
theory Docker_Engine
  imports Sdk_Errors
begin

text \<open>
  The Docker daemon as the SDK sees it: the calls of the Moby client, which is not in this repository,
  with the fields of their options and results that the SDK sets or reads. The record \<open>engine\<close> is a
  parameter of the model; nothing is assumed of it here. A call takes a Go context and a clocked world
  (the time in milliseconds and the state \<open>'w\<close> of everything outside), and returns the outcome and the
  new clocked world. The first section models package \<open>context\<close> of Go: when a context is done.
\<close>


section \<open>Time and contexts\<close>

type_synonym 'w clocked = "nat \<times> 'w"

type_synonym ('a, 'w) call = "'w clocked \<Rightarrow> 'a outcome \<times> 'w clocked"

text \<open>A context: the time from which it is done and its error then; never done for \<open>None\<close>.\<close>

type_synonym gctx = "(nat \<times> err) option"

definition Background :: gctx where
  "Background = None"

definition DeadlineExceeded :: err where
  "DeadlineExceeded = Sentinel ''context deadline exceeded''"

definition Canceled :: err where
  "Canceled = Sentinel ''context canceled''"

definition WithTimeout :: "gctx \<Rightarrow> nat \<Rightarrow> nat \<Rightarrow> gctx" where
  "WithTimeout ctx now d =
     (case ctx of
        Some (t, e) \<Rightarrow> (if t \<le> now + d then ctx else Some (now + d, DeadlineExceeded))
      | None \<Rightarrow> Some (now + d, DeadlineExceeded))"

definition ctx_err :: "gctx \<Rightarrow> nat \<Rightarrow> err option" where
  "ctx_err ctx now = (case ctx of Some (t, e) \<Rightarrow> (if t \<le> now then Some e else None) | None \<Rightarrow> None)"

text \<open>
  \<open>select { case <-ctx.Done(): ... case <-time.After(d): ... }\<close>: the error of the context and the time
  when it is done first, or the time when \<open>d\<close> has passed. When both are ready Go takes either; here it
  is the context.
\<close>

definition select_after :: "gctx \<Rightarrow> nat \<Rightarrow> nat \<Rightarrow> err option \<times> nat" where
  "select_after ctx d now =
     (case ctx of
        Some (t, e) \<Rightarrow> (if t \<le> now + d then (Some e, max now t) else (None, now + d))
      | None \<Rightarrow> (None, now + d))"

lemma select_after_None: "select_after ctx d now = (None, t) \<Longrightarrow> t = now + d \<and> ctx_err ctx t = None"
  by (auto simp: select_after_def ctx_err_def split: option.splits if_splits)

lemma select_after_Some: "select_after ctx d now = (Some e, t) \<Longrightarrow> ctx_err ctx t = Some e \<and> now \<le> t \<and> t \<le> now + d"
  by (auto simp: select_after_def ctx_err_def split: option.splits if_splits)

lemma ctx_err_WithTimeout: "now + d \<le> t \<Longrightarrow> ctx_err (WithTimeout ctx now d) t \<noteq> None"
  by (auto simp: ctx_err_def WithTimeout_def split: option.splits if_splits)


section \<open>Options and results\<close>

record container_summary =
  cs_ID :: string
  cs_Image :: string
  cs_State :: string
  cs_Ports :: "(nat \<times> nat \<times> string) list"

record ipam_config =
  ic_Gateway :: "string option"

record network_create =
  nc_Driver :: string
  nc_Internal :: bool
  nc_EnableIPv6 :: bool
  nc_Attachable :: bool
  nc_Labels :: "string smap option"
  nc_IPAM :: "ipam_config list option"

record network_created =
  nr_ID :: string
  nr_Warning :: "string list"

record network_inspected =
  ni_ID :: string
  ni_Name :: string
  ni_IPAM :: "ipam_config list"

record network_summary =
  ns_ID :: string
  ns_Name :: string

record volume =
  vo_Name :: string
  vo_Labels :: "string smap option"

record port =
  po_num :: nat
  po_proto :: string

record port_binding =
  pb_HostIP :: string
  pb_HostPort :: string

type_synonym port_map = "port \<rightharpoonup> port_binding list"

record endpoint_settings =
  es_Aliases :: "string list"
  es_NetworkID :: string
  es_IPAddress :: string

record image_platform =
  ip_OS :: string
  ip_Architecture :: string

record container_config =
  cc_Entrypoint :: "string list"
  cc_Image :: string
  cc_Env :: "string list"
  cc_Labels :: "string smap option"
  cc_Cmd :: "string list"
  cc_ExposedPorts :: "port set"

record host_config =
  hc_NetworkMode :: string
  hc_PublishAllPorts :: bool
  hc_PortBindings :: "port_map option"
  hc_Binds :: "string list"

record container_create =
  cr_Config :: "container_config option"
  cr_HostConfig :: host_config
  cr_Networking :: "endpoint_settings option smap"
  cr_Platform :: "image_platform option"
  cr_Name :: string

record container_state =
  st_Status :: string
  st_Running :: bool
  st_ExitCode :: int
  st_OOMKilled :: bool
  st_Health :: "string option"

text \<open>The maps of an inspection are lists of entries, in the order in which this run walks them.\<close>

record container_inspected =
  in_NetworkMode :: string
  in_Ports :: "(port \<times> port_binding list) list"
  in_Networks :: "(string \<times> endpoint_settings) list"
  in_Tty :: bool
  in_State :: container_state

record exec_config =
  ex_Cmd :: "string list"
  ex_User :: string
  ex_WorkingDir :: string
  ex_Env :: "string list"
  ex_TTY :: bool
  ex_AttachStdout :: bool
  ex_AttachStderr :: bool

record image_build =
  ib_Dockerfile :: string
  ib_Tags :: "string list"
  ib_Labels :: "string smap option"
  ib_BuildArgs :: "string option smap"

record image_remove =
  ir_Force :: bool
  ir_PruneChildren :: bool

record image_pull =
  ip_RegistryAuth :: string
  ip_Platforms :: "image_platform list"

text \<open>
  An archive: the name, the mode and the content of each entry, no content for a directory. What is read from a
  stream is the bytes up to its end and the error it ended with, if any.
\<close>

type_synonym archive = "(string \<times> int \<times> string option) list"

type_synonym stream = "string \<times> err option"


section \<open>The calls\<close>

text \<open>The options of \<open>ContainerRemove\<close>; the SDK sets both.\<close>

record container_remove =
  rm_RemoveVolumes :: bool
  rm_Force :: bool

abbreviation by_force :: container_remove where
  "by_force \<equiv> \<lparr>rm_RemoveVolumes = True, rm_Force = True\<rparr>"

record 'w engine =
  en_DaemonHost :: string
  en_Ping :: "gctx \<Rightarrow> (unit, 'w) call"
  en_Info :: "gctx \<Rightarrow> (string, 'w) call"
  en_Close :: "(unit, 'w) call"
  en_ContainerCreate :: "gctx \<Rightarrow> container_create \<Rightarrow> (string, 'w) call"
  en_ContainerList :: "gctx \<Rightarrow> (string \<times> string) list \<Rightarrow> (container_summary list, 'w) call"
  en_ContainerInspect :: "gctx \<Rightarrow> string \<Rightarrow> (container_inspected, 'w) call"
  en_ContainerStart :: "gctx \<Rightarrow> string \<Rightarrow> (unit, 'w) call"
  en_ContainerStop :: "gctx \<Rightarrow> string \<Rightarrow> int \<Rightarrow> (unit, 'w) call"
  en_ContainerRemove :: "gctx \<Rightarrow> string \<Rightarrow> container_remove \<Rightarrow> (unit, 'w) call"
  en_ContainerLogs :: "gctx \<Rightarrow> string \<Rightarrow> (stream, 'w) call"
  en_CopyToContainer :: "gctx \<Rightarrow> string \<Rightarrow> string \<Rightarrow> archive \<Rightarrow> (unit, 'w) call"
  en_CopyFromContainer :: "gctx \<Rightarrow> string \<Rightarrow> string \<Rightarrow> ((string \<times> int \<times> stream) list \<times> err option, 'w) call"
  en_ExecCreate :: "gctx \<Rightarrow> string \<Rightarrow> exec_config \<Rightarrow> (string, 'w) call"
  en_ExecAttach :: "gctx \<Rightarrow> string \<Rightarrow> (stream, 'w) call"
  en_ExecInspect :: "gctx \<Rightarrow> string \<Rightarrow> (bool \<times> int, 'w) call"
  en_NetworkCreate :: "gctx \<Rightarrow> string \<Rightarrow> network_create \<Rightarrow> (network_created, 'w) call"
  en_NetworkInspect :: "gctx \<Rightarrow> string \<Rightarrow> bool \<Rightarrow> (network_inspected, 'w) call"
  en_NetworkList :: "gctx \<Rightarrow> (string \<times> string) list \<Rightarrow> (network_summary list, 'w) call"
  en_NetworkRemove :: "gctx \<Rightarrow> string \<Rightarrow> (unit, 'w) call"
  en_NetworkConnect :: "gctx \<Rightarrow> string \<Rightarrow> string \<Rightarrow> endpoint_settings \<Rightarrow> (unit, 'w) call"
  en_VolumeCreate :: "gctx \<Rightarrow> string \<Rightarrow> string smap option \<Rightarrow> (volume, 'w) call"
  en_VolumeInspect :: "gctx \<Rightarrow> string \<Rightarrow> (volume, 'w) call"
  en_VolumeList :: "gctx \<Rightarrow> (string \<times> string) list \<Rightarrow> (volume list, 'w) call"
  en_VolumeRemove :: "gctx \<Rightarrow> string \<Rightarrow> bool \<Rightarrow> (unit, 'w) call"
  en_ImageInspect :: "gctx \<Rightarrow> string \<Rightarrow> (image_platform, 'w) call"
  en_ImagePull :: "gctx \<Rightarrow> string \<Rightarrow> image_pull \<Rightarrow> (stream, 'w) call"
  en_ImageBuild :: "gctx \<Rightarrow> string \<Rightarrow> image_build \<Rightarrow> (stream, 'w) call"
  en_ImageRemove :: "gctx \<Rightarrow> string \<Rightarrow> image_remove \<Rightarrow> (string list, 'w) call"
  en_ImageSave :: "gctx \<Rightarrow> string \<Rightarrow> image_platform list \<Rightarrow> (stream, 'w) call"

end
