(* ===== verification/Sdk_Client.thy ===== *)
theory Sdk_Client
  imports Docker_Engine Docker_Context
begin

text \<open>
  Package \<open>client\<close>: the SDK client around the Moby client. Its options and initialisation (\<open>client.go\<close>,
  \<open>options.go\<close>, \<open>config.go\<close>), the health check, the labels it adds to what it creates (\<open>labels.go\<close>), the
  cached daemon information, finding containers and the daemon's host. The record \<open>sdk_env\<close> holds what
  is outside: the platform and the disk that package context reads, the environment parser, and the
  constructor of the Moby client; \<open>'o\<close> is the type of the options of the Moby client that the caller
  passes through.
\<close>


section \<open>Data\<close>

record client_config =
  sc_Host :: string
  sc_TLSVerify :: bool
  sc_CertPath :: string

datatype 'o docker_opt =
    FromEnv
  | APIVersionNegotiation
  | UserOpt 'o
  | TLSClientConfig string string string
  | HostOpt string
  | HTTPHeaders "string smap"

record ('o, 'w) sdk_client =
  cl_engine :: "'w engine option"
  cl_log :: "string option"
  cl_cfg :: "client_config option"
  cl_err :: "err option"
  cl_dockerOpts :: "'o list"
  cl_dockerContext :: string
  cl_dockerHost :: string
  cl_extraHeaders :: "string smap option"
  cl_dockerInfo :: "string option"
  cl_healthCheck :: "gctx \<Rightarrow> 'w engine \<Rightarrow> (unit, 'w) call"

record ('o, 'w) sdk_env =
  se_platform :: "unit platform"
  se_digest :: "string \<Rightarrow> string"
  se_disk :: node
  se_env_parse :: "client_config \<Rightarrow> client_config outcome"
  se_api_new :: "'o docker_opt list \<Rightarrow> 'w engine outcome"
  se_inAContainer :: bool
  se_version :: string


section \<open>Labels\<close>

definition LabelBase :: string where
  "LabelBase = ''com.docker.sdk''"

definition LabelLang :: string where
  "LabelLang = LabelBase @ ''.lang''"

definition LabelVersion :: string where
  "LabelVersion = LabelBase @ ''.client''"

definition sdkLabels :: "string \<Rightarrow> string smap" where
  "sdkLabels version = [LabelBase \<mapsto> ''true'', LabelLang \<mapsto> ''go'', LabelVersion \<mapsto> version]"

text \<open>
  \<open>AddSDKLabels\<close> changes the caller's map; for a nil map it fills a map of its own that nobody sees.
  The result is the caller's map afterwards.
\<close>

definition AddSDKLabels :: "string \<Rightarrow> string smap option \<Rightarrow> string smap option" where
  "AddSDKLabels version target = (case target of None \<Rightarrow> None | Some m \<Rightarrow> Some (m ++ sdkLabels version))"


section \<open>The health check\<close>

fun ping_loop :: "gctx \<Rightarrow> 'w engine \<Rightarrow> nat \<Rightarrow> nat \<Rightarrow> err \<Rightarrow> (unit, 'w) call" where
  "ping_loop ctx en i 0 pingErr s = (Err (wrapf ''docker daemon not ready'' pingErr), s)"
| "ping_loop ctx en i (Suc n) pingErr s =
     (case en_Ping en ctx s of
        (Ok _, s') \<Rightarrow> (Ok (), s')
      | (Panic p, s') \<Rightarrow> (Panic p, s')
      | (Err e, (t, w)) \<Rightarrow>
          (case select_after ctx ((i + 1) * 100) t of
             (Some e', t') \<Rightarrow> (Err e', (t', w))
           | (None, t') \<Rightarrow> ping_loop ctx en (i + 1) n e (t', w)))"

definition defaultHealthCheck :: "gctx \<Rightarrow> 'w engine \<Rightarrow> (unit, 'w) call" where
  "defaultHealthCheck ctx en s = ping_loop ctx en 0 3 (Msg ''%!w(<nil>)'') s"


section \<open>Options\<close>

type_synonym ('o, 'w) client_option = "('o, 'w) sdk_client \<Rightarrow> ('o, 'w) sdk_client outcome"

definition FromDockerOpt :: "'o \<Rightarrow> ('o, 'w) client_option" where
  "FromDockerOpt opt c = Ok (c\<lparr>cl_dockerOpts := cl_dockerOpts c @ [opt]\<rparr>)"

definition WithDockerAPI :: "'w engine option \<Rightarrow> ('o, 'w) client_option" where
  "WithDockerAPI api c = Ok (c\<lparr>cl_engine := api\<rparr>)"

definition WithDockerHost :: "string \<Rightarrow> ('o, 'w) client_option" where
  "WithDockerHost h c = Ok (c\<lparr>cl_dockerHost := h\<rparr>)"

definition WithDockerContext :: "string \<Rightarrow> ('o, 'w) client_option" where
  "WithDockerContext n c = Ok (c\<lparr>cl_dockerContext := n\<rparr>)"

definition WithExtraHeaders :: "string smap option \<Rightarrow> ('o, 'w) client_option" where
  "WithExtraHeaders hs c = Ok (c\<lparr>cl_extraHeaders := hs\<rparr>)"

definition WithHealthCheck ::
    "(gctx \<Rightarrow> 'w engine \<Rightarrow> (unit, 'w) call) option \<Rightarrow> ('o, 'w) client_option" where
  "WithHealthCheck h c =
     (case h of None \<Rightarrow> Err (Msg ''health check is nil'') | Some f \<Rightarrow> Ok (c\<lparr>cl_healthCheck := f\<rparr>))"

definition WithLogger :: "string option \<Rightarrow> ('o, 'w) client_option" where
  "WithLogger l c = Ok (c\<lparr>cl_log := l\<rparr>)"


section \<open>Initialisation\<close>

definition defaultLogger :: string where
  "defaultLogger = ''discard''"

definition validate :: "('o, 'w) sdk_env \<Rightarrow> client_config \<Rightarrow> unit outcome" where
  "validate env c =
     (if sc_TLSVerify c \<and> sc_CertPath c = '''' then Err (Msg ''cert path required when TLS is enabled'')
      else if sc_TLSVerify c \<and> \<not> file_exists (se_disk env) (path_of (sc_CertPath c))
        then Err (Msg (''cert path does not exist: '' @ sc_CertPath c))
      else if sc_Host c = '''' then Err (Msg ''host is required'')
      else Ok ())"

definition newConfig :: "('o, 'w) sdk_env \<Rightarrow> string \<Rightarrow> client_config outcome" where
  "newConfig env host =
     then_wrap ''parse env'' (se_env_parse env \<lparr>sc_Host = host, sc_TLSVerify = False, sc_CertPath = ''''\<rparr>)
       (\<lambda>cfg. then_wrap ''validate'' (validate env cfg) (\<lambda>_. Ok cfg))"

definition defaultValues :: "('o, 'w) sdk_env \<Rightarrow> ('o, 'w) sdk_client \<Rightarrow> ('o, 'w) sdk_client outcome" where
  "defaultValues env c0 =
     (let c = (if cl_log c0 = None then c0\<lparr>cl_log := Some defaultLogger\<rparr> else c0);
          pf = se_platform env; dg = se_digest env; disk = se_disk env in
      if cl_dockerHost c = '''' \<and> cl_dockerContext c = '''' then
        then_wrap ''current docker host'' (CurrentDockerHost pf dg disk) (\<lambda>host.
        then_wrap ''current context'' (Current pf disk) (\<lambda>current.
          Ok (c\<lparr>cl_dockerHost := host, cl_dockerContext := current\<rparr>)))
      else if cl_dockerContext c \<noteq> '''' then
        then_wrap ''docker host from context'' (DockerHostFromContext pf dg disk (cl_dockerContext c))
          (\<lambda>host. Ok (c\<lparr>cl_dockerHost := host\<rparr>))
      else Ok c)"

definition headerUserAgent :: string where
  "headerUserAgent = ''User-Agent''"

definition defaultUserAgent :: "string \<Rightarrow> string" where
  "defaultUserAgent version = ''docker-go-sdk/'' @ version"

definition client_opts :: "('o, 'w) sdk_env \<Rightarrow> client_config \<Rightarrow> ('o, 'w) sdk_client \<Rightarrow> 'o docker_opt list" where
  "client_opts env cfg c =
     [FromEnv, APIVersionNegotiation] @ map UserOpt (cl_dockerOpts c)
     @ (if sc_TLSVerify cfg then
          [TLSClientConfig (filepath_join (sc_CertPath cfg) ''ca.pem'')
             (filepath_join (sc_CertPath cfg) ''cert.pem'') (filepath_join (sc_CertPath cfg) ''key.pem'')]
        else [])
     @ (if sc_Host cfg \<noteq> '''' then [HostOpt (sc_Host cfg)] else [])
     @ [HTTPHeaders ((nilmap_read (cl_extraHeaders c))(headerUserAgent \<mapsto> defaultUserAgent (se_version env)))]"

text \<open>The error of \<open>init\<close>, and the client it leaves (which keeps the error of its own two steps).\<close>

definition init :: "('o, 'w) sdk_env \<Rightarrow> ('o, 'w) sdk_client \<Rightarrow> unit outcome \<times> ('o, 'w) sdk_client" where
  "init env c =
     (if cl_engine c \<noteq> None \<or> cl_err c \<noteq> None then
        ((case cl_err c of None \<Rightarrow> Ok () | Some e \<Rightarrow> Err e), c)
      else case defaultValues env c of
        Panic p \<Rightarrow> (Panic p, c)
      | Err e \<Rightarrow> (Err (wrapf ''default values'' e), c\<lparr>cl_err := Some e\<rparr>)
      | Ok c1 \<Rightarrow>
          (case newConfig env (cl_dockerHost c1) of
             Panic p \<Rightarrow> (Panic p, c1)
           | Err e \<Rightarrow> (Err e, c1\<lparr>cl_err := Some e\<rparr>)
           | Ok cfg \<Rightarrow>
               (let c2 = c1\<lparr>cl_cfg := Some cfg\<rparr> in
                case se_api_new env (client_opts env cfg c2) of
                  Panic p \<Rightarrow> (Panic p, c2)
                | Err e \<Rightarrow> (Err (wrapf ''new client'' e), c2)
                | Ok api \<Rightarrow> (Ok (), c2\<lparr>cl_engine := Some api\<rparr>))))"

definition zero_client :: "('o, 'w) sdk_client" where
  "zero_client = \<lparr>cl_engine = None, cl_log = Some defaultLogger, cl_cfg = None, cl_err = None,
     cl_dockerOpts = [], cl_dockerContext = '''', cl_dockerHost = '''', cl_extraHeaders = None,
     cl_dockerInfo = None, cl_healthCheck = defaultHealthCheck\<rparr>"

definition New_client ::
    "('o, 'w) sdk_env \<Rightarrow> gctx \<Rightarrow> ('o, 'w) client_option list \<Rightarrow> (('o, 'w) sdk_client, 'w) call" where
  "New_client env ctx options s =
     (case apply_options options zero_client of
        Err e \<Rightarrow> (Err e, s)
      | Panic p \<Rightarrow> (Panic p, s)
      | Ok c \<Rightarrow>
          (case init env c of
             (Err e, _) \<Rightarrow> (Err (wrapf ''load config'' e), s)
           | (Panic p, _) \<Rightarrow> (Panic p, s)
           | (Ok _, c') \<Rightarrow>
               (case cl_engine c' of
                  None \<Rightarrow> (Panic ''nil pointer dereference'', s)
                | Some en \<Rightarrow>
                    st_wrap ''health check'' (cl_healthCheck c' ctx en s) (\<lambda>_ s'. (Ok c', s')))))"


section \<open>Operations\<close>

text \<open>\<open>Info\<close> keeps what the daemon answered in the client.\<close>

definition Info ::
    "gctx \<Rightarrow> 'w engine \<Rightarrow> ('o, 'w) sdk_client \<times> 'w clocked \<Rightarrow> string outcome \<times> ('o, 'w) sdk_client \<times> 'w clocked" where
  "Info ctx en cs =
     (case cs of (c, s) \<Rightarrow>
        case cl_dockerInfo c of
          Some i \<Rightarrow> (Ok i, c, s)
        | None \<Rightarrow>
            (case en_Info en ctx s of
               (Err e, s') \<Rightarrow> (Err (wrapf ''docker info'' e), c, s')
             | (Panic p, s') \<Rightarrow> (Panic p, c, s')
             | (Ok i, s') \<Rightarrow> (Ok i, c\<lparr>cl_dockerInfo := Some i\<rparr>, s')))"

definition ContainerCreate ::
    "string \<Rightarrow> 'w engine \<Rightarrow> gctx \<Rightarrow> container_create \<Rightarrow> (string, 'w) call" where
  "ContainerCreate version en ctx options s =
     (case cr_Config options of
        None \<Rightarrow> (Err (Class ErrInvalidArgument ''config is nil''), s)
      | Some cfg \<Rightarrow>
          en_ContainerCreate en ctx
            (options\<lparr>cr_Config := Some (cfg\<lparr>cc_Labels := AddSDKLabels version (cc_Labels cfg)\<rparr>)\<rparr>) s)"

definition NetworkCreate ::
    "string \<Rightarrow> 'w engine \<Rightarrow> gctx \<Rightarrow> string \<Rightarrow> network_create \<Rightarrow> (network_created, 'w) call" where
  "NetworkCreate version en ctx name options s =
     en_NetworkCreate en ctx name (options\<lparr>nc_Labels := AddSDKLabels version (nc_Labels options)\<rparr>) s"

definition VolumeCreate ::
    "string \<Rightarrow> 'w engine \<Rightarrow> gctx \<Rightarrow> string \<Rightarrow> string smap option \<Rightarrow> (volume, 'w) call" where
  "VolumeCreate version en ctx name labels s = en_VolumeCreate en ctx name (AddSDKLabels version labels) s"

definition ImageBuild ::
    "string \<Rightarrow> 'w engine \<Rightarrow> gctx \<Rightarrow> string \<Rightarrow> image_build \<Rightarrow> (stream, 'w) call" where
  "ImageBuild version en ctx context options s =
     en_ImageBuild en ctx context (options\<lparr>ib_Labels := AddSDKLabels version (ib_Labels options)\<rparr>) s"

definition FindContainerByName :: "'w engine \<Rightarrow> gctx \<Rightarrow> string \<Rightarrow> (container_summary, 'w) call" where
  "FindContainerByName en ctx name s =
     (if name = '''' then (Err (Class ErrInvalidArgument ''name is empty''), s)
      else st_wrap ''container list'' (en_ContainerList en ctx [(''name'', ''^'' @ name @ ''$'')] s)
        (\<lambda>items s'. case items of
             [] \<Rightarrow> (Err (Class ErrNotFound (''container '' @ name @ '' not found'')), s')
           | x # xs \<Rightarrow> (Ok x, s')))"

definition FindContainerByID :: "'w engine \<Rightarrow> gctx \<Rightarrow> string \<Rightarrow> (container_summary, 'w) call" where
  "FindContainerByID en ctx containerID s =
     (if containerID = '''' then (Err (Class ErrInvalidArgument ''id is empty''), s)
      else st_wrap ''container list'' (en_ContainerList en ctx [(''id'', containerID)] s)
        (\<lambda>items s'.
           if items = [] then (Err (Class ErrNotFound (''container '' @ containerID @ '' not found'')), s')
           else if length items > 1 then (Err (Msg (''multiple containers match ID '' @ containerID)), s')
           else if cs_ID (hd items) \<noteq> containerID
             then (Err (Class ErrNotFound (''container '' @ containerID @ '' not found'')), s')
           else (Ok (hd items), s')))"

definition first_gateway :: "ipam_config list \<Rightarrow> string option" where
  "first_gateway cfgs = (case somes (map ic_Gateway cfgs) of [] \<Rightarrow> None | g # gs \<Rightarrow> Some g)"

definition getGatewayIP :: "'w engine \<Rightarrow> gctx \<Rightarrow> string \<Rightarrow> (string, 'w) call" where
  "getGatewayIP en ctx defaultNetwork s =
     st_do (en_NetworkInspect en ctx defaultNetwork False s) (\<lambda>nw s'.
       case first_gateway (ni_IPAM nw) of
         None \<Rightarrow> (Err (Msg ''failed to get gateway IP from network settings''), s')
       | Some ip \<Rightarrow> (Ok ip, s'))"

definition DaemonHost :: "bool \<Rightarrow> 'w engine \<Rightarrow> gctx \<Rightarrow> (string, 'w) call" where
  "DaemonHost inAContainer en ctx s =
     (case url_parse (en_DaemonHost en) of
        Err e \<Rightarrow> (Err e, s)
      | Panic p \<Rightarrow> (Panic p, s)
      | Ok u \<Rightarrow>
          (if url_scheme u \<in> {''http'', ''https'', ''tcp''} then (Ok (url_hostname u), s)
           else if url_scheme u \<in> {''unix'', ''npipe''} then
             (if inAContainer then
                (case getGatewayIP en ctx ''bridge'' s of
                   (Ok ip, s') \<Rightarrow> (Ok ip, s') | (Err e, s') \<Rightarrow> (Ok ''localhost'', s') | (Panic p, s') \<Rightarrow> (Panic p, s'))
              else (Ok ''localhost'', s))
           else (Err (Msg ''could not determine host through env or docker host''), s)))"



section \<open>Initialisation: the options of the Moby client\<close>

lemma newConfig_host: "newConfig env h = Ok cfg \<Longrightarrow> sc_Host cfg \<noteq> ''''"
  by (auto simp: newConfig_def outcome_simps validate_def split: if_splits)

lemma defaultValues_keeps:
  assumes "defaultValues env c = Ok c1"
  shows "cl_dockerOpts c1 = cl_dockerOpts c \<and> cl_extraHeaders c1 = cl_extraHeaders c"
  using assms by (auto simp: defaultValues_def Let_def outcome_simps split: if_splits)

lemma init_Ok:
  assumes "init env c = (Ok (), c')" and "cl_engine c = None" and "cl_err c = None"
  obtains c1 cfg en where "defaultValues env c = Ok c1" and "newConfig env (cl_dockerHost c1) = Ok cfg"
    and "se_api_new env (client_opts env cfg (c1\<lparr>cl_cfg := Some cfg\<rparr>)) = Ok en"
    and "c' = c1\<lparr>cl_cfg := Some cfg, cl_engine := Some en\<rparr>"
  using assms by (auto simp: init_def Let_def split: outcome.splits)

text \<open>
  What \<open>init\<close> asks of the Moby client. A client that initialised without an API of its own was made
  with the defaults, then the caller's options in their order, then the TLS files when TLS is verified,
  then a host that is not empty, and last the headers: the caller's extra headers with the user agent of
  the SDK, which they cannot replace. Host and headers come after the caller's options.
\<close>

theorem init_options:
  assumes "init env c = (Ok (), c')" and "cl_engine c = None" and "cl_err c = None"
  shows "\<exists>cfg en tls headers. cl_cfg c' = Some cfg \<and> cl_engine c' = Some en \<and> sc_Host cfg \<noteq> ''''
     \<and> se_api_new env ([FromEnv, APIVersionNegotiation] @ map UserOpt (cl_dockerOpts c) @ tls
                        @ [HostOpt (sc_Host cfg), HTTPHeaders headers]) = Ok en
     \<and> (tls = [] \<longleftrightarrow> \<not> sc_TLSVerify cfg)
     \<and> headers ''User-Agent'' = Some (''docker-go-sdk/'' @ se_version env)
     \<and> (\<forall>k. k \<noteq> ''User-Agent'' \<longrightarrow> headers k = nilmap_read (cl_extraHeaders c) k)"
proof -
  from init_Ok [OF assms] obtain c1 cfg en where dv: "defaultValues env c = Ok c1"
    and cfg: "newConfig env (cl_dockerHost c1) = Ok cfg"
    and api: "se_api_new env (client_opts env cfg (c1\<lparr>cl_cfg := Some cfg\<rparr>)) = Ok en"
    and c': "c' = c1\<lparr>cl_cfg := Some cfg, cl_engine := Some en\<rparr>" .
  let ?tls = "if sc_TLSVerify cfg then
          [TLSClientConfig (filepath_join (sc_CertPath cfg) ''ca.pem'')
             (filepath_join (sc_CertPath cfg) ''cert.pem'') (filepath_join (sc_CertPath cfg) ''key.pem'')]
        else []"
  let ?h = "(nilmap_read (cl_extraHeaders c))(headerUserAgent \<mapsto> defaultUserAgent (se_version env))"
  have "client_opts env cfg (c1\<lparr>cl_cfg := Some cfg\<rparr>) =
      [FromEnv, APIVersionNegotiation] @ map UserOpt (cl_dockerOpts c) @ ?tls @ [HostOpt (sc_Host cfg), HTTPHeaders ?h]"
    using defaultValues_keeps [OF dv] newConfig_host [OF cfg] by (simp add: client_opts_def)
  with api c' newConfig_host [OF cfg] show ?thesis
    by (intro exI [of _ cfg] exI [of _ en] exI [of _ ?tls] exI [of _ ?h])
      (simp add: headerUserAgent_def defaultUserAgent_def)
qed

definition demo_engine :: "'w engine" where
  "demo_engine =
     \<lparr>en_DaemonHost = ''tcp://10.0.0.1:2375'', en_Ping = (\<lambda>_ s. (Ok (), s)), en_Info = (\<lambda>_ s. (Ok ''info'', s)),
      en_Close = (\<lambda>s. (Ok (), s)), en_ContainerCreate = (\<lambda>_ _ s. (Ok ''0123456789abcdef'', s)),
      en_ContainerList = (\<lambda>_ _ s. (Ok [], s)),
      en_ContainerInspect = (\<lambda>_ i s. (Err (Class ErrNotFound i), s)), en_ContainerStart = (\<lambda>_ _ s. (Ok (), s)),
      en_ContainerStop = (\<lambda>_ _ _ s. (Ok (), s)), en_ContainerRemove = (\<lambda>_ _ _ s. (Ok (), s)),
      en_ContainerLogs = (\<lambda>_ _ s. (Ok ('''', None), s)), en_CopyToContainer = (\<lambda>_ _ _ _ s. (Ok (), s)),
      en_CopyFromContainer = (\<lambda>_ _ _ s. (Ok ([], None), s)), en_ExecCreate = (\<lambda>_ _ _ s. (Ok ''exec'', s)),
      en_ExecAttach = (\<lambda>_ _ s. (Ok ('''', None), s)), en_ExecInspect = (\<lambda>_ _ s. (Ok (False, 0), s)),
      en_NetworkCreate = (\<lambda>_ n _ s. (Ok \<lparr>nr_ID = ''net'' @ n, nr_Warning = []\<rparr>, s)),
      en_NetworkInspect = (\<lambda>_ n _ s. (Ok \<lparr>ni_ID = n, ni_Name = n, ni_IPAM = []\<rparr>, s)),
      en_NetworkList = (\<lambda>_ _ s. (Ok [], s)), en_NetworkRemove = (\<lambda>_ _ s. (Ok (), s)),
      en_NetworkConnect = (\<lambda>_ _ _ _ s. (Ok (), s)),
      en_VolumeCreate = (\<lambda>_ n ls s. (Ok \<lparr>vo_Name = n, vo_Labels = ls\<rparr>, s)),
      en_VolumeInspect = (\<lambda>_ n s. (Ok \<lparr>vo_Name = n, vo_Labels = None\<rparr>, s)),
      en_VolumeList = (\<lambda>_ _ s. (Ok [], s)), en_VolumeRemove = (\<lambda>_ _ _ s. (Ok (), s)),
      en_ImageInspect = (\<lambda>_ _ s. (Ok \<lparr>ip_OS = ''linux'', ip_Architecture = ''amd64''\<rparr>, s)),
      en_ImagePull = (\<lambda>_ _ _ s. (Ok ('''', None), s)),
      en_ImageBuild = (\<lambda>_ _ _ s. (Ok ('''', None), s)),
      en_ImageRemove = (\<lambda>_ _ _ s. (Ok [], s)), en_ImageSave = (\<lambda>_ _ _ s. (Ok ('''', None), s))\<rparr>"

definition demo_sdk_env :: "(nat, unit) sdk_env" where
  "demo_sdk_env = \<lparr>se_platform = demo_platform, se_digest = demo_digest, se_disk = demo_disk,
     se_env_parse = Ok, se_api_new = (\<lambda>_. Ok demo_engine), se_inAContainer = False, se_version = ''1''\<rparr>"

theorem init_options_witness:
  "\<exists>c' cfg. init demo_sdk_env (zero_client\<lparr>cl_dockerOpts := [7]\<rparr>) = (Ok (), c') \<and> cl_cfg c' = Some cfg
     \<and> sc_Host cfg \<noteq> ''''"
proof -
  have "Current demo_platform demo_disk = Ok ''default''"
  proof -
    have "Filepath demo_platform demo_disk = Ok [''root'', ''.docker'', FileName]"
      using demo_Dir [of demo_disk]
      by (simp add: Filepath_def file_exists_def demo_disk_def FileName_def)
    then have "Load demo_platform demo_disk = Ok (zero_config\<lparr>cfg_filepath := Some [''root'', ''.docker'', FileName]\<rparr>)"
      by (simp add: Load_def demo_env loadFromFilepath_def read_file_def demo_disk_def FileName_def)
        (simp add: demo_platform_def)
    then show ?thesis
      by (simp add: Current_def getContextFromEnv_def demo_env zero_config_def DefaultContextName_def)
  qed
  then have "\<exists>c'. init demo_sdk_env (zero_client\<lparr>cl_dockerOpts := [7]\<rparr>) = (Ok (), c')"
    by (simp add: init_def zero_client_def defaultValues_def demo_sdk_env_def demo_host newConfig_def validate_def Let_def)
  then obtain c' where i: "init demo_sdk_env (zero_client\<lparr>cl_dockerOpts := [7]\<rparr>) = (Ok (), c')" by blast
  moreover have "cl_engine (zero_client\<lparr>cl_dockerOpts := [7 :: nat]\<rparr>) = None"
    "cl_err (zero_client\<lparr>cl_dockerOpts := [7 :: nat]\<rparr>) = None"
    by (simp_all add: zero_client_def)
  ultimately show ?thesis using init_options [OF i] by blast
qed


section \<open>The health check and lookups\<close>

text \<open>
  Pings that failed with the errors \<open>es\<close>, one after the other: after each of them the wait of its turn (100, 200, 300
  milliseconds) passed, and the context was not done at its end.
\<close>

inductive unanswered :: "gctx \<Rightarrow> 'w engine \<Rightarrow> 'w clocked \<Rightarrow> err list \<Rightarrow> 'w clocked \<Rightarrow> bool" for ctx en s where
  unanswered_none: "unanswered ctx en s [] s"
| unanswered_next: "unanswered ctx en s es s1 \<Longrightarrow> en_Ping en ctx s1 = (Err e, (t, w))
    \<Longrightarrow> ctx_err ctx (t + (length es + 1) * 100) = None
    \<Longrightarrow> unanswered ctx en s (es @ [e]) (t + (length es + 1) * 100, w)"

lemma unanswered_time:
  assumes "unanswered ctx en s es s'" and "\<And>s. fst (snd (en_Ping en ctx s)) \<le> fst s + d"
  shows "fst s' \<le> fst s + length es * d + 50 * (length es * (length es + 1))"
  using assms(1)
proof induction
  case (unanswered_next es s1 e t w)
  with assms(2) [of s1] show ?case by (simp add: algebra_simps)
qed simp

text \<open>How the loop ends from its turn \<open>length es\<close> on.\<close>

definition ping_ended :: "gctx \<Rightarrow> 'w engine \<Rightarrow> 'w clocked \<Rightarrow> unit outcome \<Rightarrow> 'w clocked \<Rightarrow> bool" where
  "ping_ended ctx en s r s' \<longleftrightarrow> (\<exists>es s1. unanswered ctx en s es s1 \<and>
     (length es = 3 \<and> r = Err (wrapf ''docker daemon not ready'' (last es)) \<and> s' = s1
      \<or> length es < 3 \<and> (case en_Ping en ctx s1 of
            (Ok _, s2) \<Rightarrow> r = Ok () \<and> s' = s2
          | (Panic p, s2) \<Rightarrow> r = Panic p \<and> s' = s2
          | (Err _, s2) \<Rightarrow> (\<exists>ce. r = Err ce \<and> ctx_err ctx (fst s') = Some ce) \<and> snd s' = snd s2
              \<and> fst s2 \<le> fst s' \<and> fst s' \<le> fst s2 + (length es + 1) * 100)))"

lemma ping_endedI:
  "unanswered ctx en s es s1 \<Longrightarrow>
     (length es = 3 \<and> r = Err (wrapf ''docker daemon not ready'' (last es)) \<and> s' = s1
      \<or> length es < 3 \<and> (case en_Ping en ctx s1 of
            (Ok _, s2) \<Rightarrow> r = Ok () \<and> s' = s2
          | (Panic p, s2) \<Rightarrow> r = Panic p \<and> s' = s2
          | (Err _, s2) \<Rightarrow> (\<exists>ce. r = Err ce \<and> ctx_err ctx (fst s') = Some ce) \<and> snd s' = snd s2
              \<and> fst s2 \<le> fst s' \<and> fst s' \<le> fst s2 + (length es + 1) * 100))
   \<Longrightarrow> ping_ended ctx en s r s'"
  unfolding ping_ended_def by (rule exI [of _ es], rule exI [of _ s1], rule conjI)

lemma ping_loop_ended:
  assumes "unanswered ctx en s0 es s" and "length es + n = 3" and "n = 0 \<longrightarrow> e0 = last es"
    and "ping_loop ctx en (length es) n e0 s = (r, s')"
  shows "ping_ended ctx en s0 r s'"
  using assms
proof (induction n arbitrary: es s e0)
  case 0
  show ?case by (rule ping_endedI [OF "0.prems"(1)]) (use 0 in simp)
next
  case (Suc n)
  obtain q t1 w1 where q: "en_Ping en ctx s = (q, (t1, w1))" by (metis prod.exhaust)
  have few: "length es < 3" using Suc.prems(2) by simp
  show ?case
  proof (cases q)
    case (Err e)
    obtain ce t2 where sel: "select_after ctx ((length es + 1) * 100) t1 = (ce, t2)" by fastforce
    show ?thesis
    proof (cases ce)
      case None
      with select_after_None sel have t2: "t2 = t1 + (length es + 1) * 100" "ctx_err ctx t2 = None" by blast+
      have more: "unanswered ctx en s0 (es @ [e]) (t2, w1)"
        using unanswered_next [OF Suc.prems(1), of e t1 w1] q Err t2 by simp
      from None Err q sel Suc.prems have "ping_loop ctx en (length (es @ [e])) n e (t2, w1) = (r, s')" by simp
      from Suc.IH [OF more _ _ this] Suc.prems(2) show ?thesis by simp
    next
      case (Some c)
      with Err q sel Suc.prems have "r = Err c" "s' = (t2, w1)" by auto
      with select_after_Some [of ctx "(length es + 1) * 100" t1 c t2] sel Some few q Err show ?thesis
        by (intro ping_endedI [OF Suc.prems(1)]) simp
    qed
  next
    case (Ok u)
    show ?thesis by (rule ping_endedI [OF Suc.prems(1)]) (use Ok q Suc.prems few in auto)
  next
    case (Panic p)
    show ?thesis by (rule ping_endedI [OF Suc.prems(1)]) (use Panic q Suc.prems few in auto)
  qed
qed

text \<open>
  C36: the default health check pings the daemon at most three times, with waits of 100, 200 and 300 milliseconds after
  the failures. It succeeds exactly when a ping succeeds, at that ping; after three failures it fails with the error of
  the last one; and it fails with the error of the context only when that was done after a failed ping, before the end
  of the wait. When a ping takes at most d milliseconds, all is over within \<open>3 * d + 600\<close>.
\<close>

theorem defaultHealthCheck_ends:
  assumes "\<And>s. fst (snd (en_Ping en ctx s)) \<le> fst s + d"
    and "defaultHealthCheck ctx en s = (r, s')"
  shows "(\<exists>es s1. unanswered ctx en s es s1 \<and>
     (length es = 3 \<and> r = Err (wrapf ''docker daemon not ready'' (last es)) \<and> s' = s1
      \<or> length es < 3 \<and> (case en_Ping en ctx s1 of
            (Ok _, s2) \<Rightarrow> r = Ok () \<and> s' = s2
          | (Panic p, s2) \<Rightarrow> r = Panic p \<and> s' = s2
          | (Err _, s2) \<Rightarrow> (\<exists>ce. r = Err ce \<and> ctx_err ctx (fst s') = Some ce) \<and> snd s' = snd s2
              \<and> fst s2 \<le> fst s' \<and> fst s' \<le> fst s2 + (length es + 1) * 100)))
     \<and> fst s' \<le> fst s + 3 * d + 600"
proof -
  have ended: "ping_ended ctx en s r s'"
    using ping_loop_ended [OF unanswered_none, of 3 _ ctx en s r s'] assms(2) by (simp add: defaultHealthCheck_def)
  then obtain es s1 where es: "unanswered ctx en s es s1" "length es \<le> 3"
    and last: "length es = 3 \<and> s' = s1 \<or> length es < 3 \<and> fst s' \<le> fst (snd (en_Ping en ctx s1)) + (length es + 1) * 100"
    unfolding ping_ended_def by (fastforce split: prod.splits outcome.splits)
  from es(2) consider "length es = 0" | "length es = 1" | "length es = 2" | "length es = 3" by linarith
  then have "fst s' \<le> fst s + 3 * d + 600"
    using unanswered_time [OF es(1) assms(1)] assms(1) [of s1] last by cases auto
  with ended show ?thesis unfolding ping_ended_def by blast
qed

theorem defaultHealthCheck_ends_witness:
  "\<exists>es s1. unanswered Background (demo_engine\<lparr>en_Ping := (\<lambda>_ (t, w). (Err (Msg ''refused''), (t + 5, w)))\<rparr>) (0, ()) es s1
     \<and> length es = 3 \<and> s1 = (615, ()) \<and> fst s1 \<le> 3 * 5 + 600
     \<and> defaultHealthCheck Background (demo_engine\<lparr>en_Ping := (\<lambda>_ (t, w). (Err (Msg ''refused''), (t + 5, w)))\<rparr>) (0, ())
         = (Err (wrapf ''docker daemon not ready'' (last es)), s1)"
proof -
  let ?en = "demo_engine\<lparr>en_Ping := (\<lambda>_ (t, w). (Err (Msg ''refused''), (t + 5, w)))\<rparr>"
  have run: "defaultHealthCheck Background ?en (0, ()) =
      (Err (wrapf ''docker daemon not ready'' (Msg ''refused'')), (615, ()))"
    by (simp add: defaultHealthCheck_def numeral_3_eq_3 select_after_def Background_def)
  have slow: "fst (snd (en_Ping ?en Background s)) \<le> fst s + 5" for s by (cases s) simp
  from defaultHealthCheck_ends [OF slow run] show ?thesis
    using run by (fastforce simp: Background_def ctx_err_def split: prod.splits)
qed

text \<open>
  \<open>FindContainerByID\<close> finds exactly the container whose whole ID is the given one: the daemon also
  matches a prefix of an ID, and such a match, an ambiguous one or none at all is an error.
\<close>

theorem FindContainerByID_exact:
  "FindContainerByID en ctx i s = (Ok c, s') \<longleftrightarrow>
     i \<noteq> '''' \<and> en_ContainerList en ctx [(''id'', i)] s = (Ok [c], s') \<and> cs_ID c = i"
proof (cases "i = ''''")
  case False
  let ?l = "en_ContainerList en ctx [(''id'', i)] s"
  obtain r s1 where l: "?l = (r, s1)" by (metis prod.exhaust)
  show ?thesis
  proof (cases r)
    case (Ok items)
    then show ?thesis
      using False l by (cases items; cases "tl items") (auto simp: FindContainerByID_def)
  qed (use False l in \<open>auto simp: FindContainerByID_def\<close>)
qed (simp add: FindContainerByID_def)



section \<open>The client of the other packages\<close>

text \<open>
  Where no client is given, the packages call \<open>client.New(ctx)\<close>. What they use of the result is the
  engine behind it.
\<close>

definition default_engine :: "('o, 'w) sdk_env \<Rightarrow> gctx \<Rightarrow> ('w engine, 'w) call" where
  "default_engine env ctx s =
     st_do (New_client env ctx [] s) (\<lambda>c s'.
       case cl_engine c of Some en \<Rightarrow> (Ok en, s') | None \<Rightarrow> (Panic ''nil pointer dereference'', s'))"

definition client_or_default ::
    "('o, 'w) sdk_env \<Rightarrow> gctx \<Rightarrow> 'w engine option \<Rightarrow> ('w engine, 'w) call" where
  "client_or_default env ctx cli s = (case cli of Some en \<Rightarrow> (Ok en, s) | None \<Rightarrow> default_engine env ctx s)"

lemma client_or_default_Some [simp]: "client_or_default env ctx (Some en) s = (Ok en, s)"
  by (simp add: client_or_default_def)

lemma AddSDKLabels_Some:
  "AddSDKLabels v (Some m) = Some l \<Longrightarrow>
     l k = (if k = LabelBase then Some ''true'' else if k = LabelLang then Some ''go''
            else if k = LabelVersion then Some v else m k)"
  by (auto simp: AddSDKLabels_def sdkLabels_def map_add_def LabelBase_def LabelLang_def LabelVersion_def)

end
