(* ===== verification/Docker_Network.thy ===== *)
theory Docker_Network
  imports Sdk_Client
begin

text \<open>
  Package \<open>network\<close>: creating a network with the labels of the module and of the SDK, inspecting it with
  a cached result, finding, listing and removing networks. A random name is the parameter \<open>uuid\<close>.
\<close>

definition module_version :: string where
  "module_version = ''0.1.0-alpha013''"

definition network_moduleLabel :: string where
  "network_moduleLabel = LabelBase @ ''.network''"

record 'w network_options =
  no_client :: "'w engine option"
  no_ipam :: "ipam_config list option"
  no_labels :: "string smap option"
  no_driver :: string
  no_name :: string
  no_attachable :: bool
  no_enableIPv6 :: bool
  no_internal :: bool

definition initial_network_options :: "'w network_options" where
  "initial_network_options = \<lparr>no_client = None, no_ipam = None, no_labels = Some Map.empty, no_driver = '''',
     no_name = '''', no_attachable = False, no_enableIPv6 = False, no_internal = False\<rparr>"

type_synonym 'w network_option = "'w network_options \<Rightarrow> 'w network_options outcome"

definition Net_WithClient :: "'w engine option \<Rightarrow> 'w network_option" where
  "Net_WithClient c opts = Ok (opts\<lparr>no_client := c\<rparr>)"

definition Net_WithName :: "string \<Rightarrow> 'w network_option" where
  "Net_WithName n opts = (if n = '''' then Err (Msg ''name is required'') else Ok (opts\<lparr>no_name := n\<rparr>))"

definition Net_WithDriver :: "string \<Rightarrow> 'w network_option" where
  "Net_WithDriver d opts = Ok (opts\<lparr>no_driver := d\<rparr>)"

definition Net_WithInternal :: "'w network_option" where
  "Net_WithInternal opts = Ok (opts\<lparr>no_internal := True\<rparr>)"

definition Net_WithEnableIPv6 :: "'w network_option" where
  "Net_WithEnableIPv6 opts = Ok (opts\<lparr>no_enableIPv6 := True\<rparr>)"

definition Net_WithAttachable :: "'w network_option" where
  "Net_WithAttachable opts = Ok (opts\<lparr>no_attachable := True\<rparr>)"

definition Net_WithLabels :: "string smap option \<Rightarrow> 'w network_option" where
  "Net_WithLabels ls opts = Ok (opts\<lparr>no_labels := ls\<rparr>)"

definition Net_WithIPAM :: "ipam_config list option \<Rightarrow> 'w network_option" where
  "Net_WithIPAM i opts = Ok (opts\<lparr>no_ipam := i\<rparr>)"

record 'w network =
  nw_response :: network_created
  nw_inspect :: network_inspected
  nw_client :: "'w engine option"
  nw_driver :: string
  nw_name :: string

definition zero_inspected :: network_inspected where
  "zero_inspected = \<lparr>ni_ID = '''', ni_Name = '''', ni_IPAM = []\<rparr>"

definition network_create_of :: "string smap option \<Rightarrow> 'w network_options \<Rightarrow> network_create" where
  "network_create_of labels opts =
     \<lparr>nc_Driver = no_driver opts, nc_Internal = no_internal opts, nc_EnableIPv6 = no_enableIPv6 opts,
      nc_Attachable = no_attachable opts, nc_Labels = labels, nc_IPAM = no_ipam opts\<rparr>"

definition New_network ::
    "('o, 'w) sdk_env \<Rightarrow> string \<Rightarrow> gctx \<Rightarrow> 'w network_option list \<Rightarrow> ('w network, 'w) call" where
  "New_network env uuid ctx opts s =
     (case apply_options opts initial_network_options of
        Err e \<Rightarrow> (Err e, s)
      | Panic p \<Rightarrow> (Panic p, s)
      | Ok o1 \<Rightarrow>
          (let o2 = (if no_name o1 = '''' then o1\<lparr>no_name := uuid\<rparr> else o1) in
           st_do (client_or_default env ctx (no_client o2) s) (\<lambda>en s1.
             case nilmap_write (no_labels o2) network_moduleLabel module_version of
               Err e \<Rightarrow> (Err e, s1)
             | Panic p \<Rightarrow> (Panic p, s1)
             | Ok labels \<Rightarrow>
                 st_wrap ''create network''
                   (NetworkCreate (se_version env) en ctx (no_name o2) (network_create_of labels o2) s1)
                   (\<lambda>resp s2. (Ok \<lparr>nw_response = resp, nw_inspect = zero_inspected, nw_client = Some en,
                      nw_driver = no_driver o2, nw_name = no_name o2\<rparr>, s2)))))"

definition network_ID :: "'w network \<Rightarrow> string" where
  "network_ID n = nr_ID (nw_response n)"


section \<open>Inspecting, listing, removing\<close>

record inspect_options =
  io_cache :: bool
  io_verbose :: bool

type_synonym inspect_option = "inspect_options \<Rightarrow> inspect_options outcome"

definition WithNoCache :: inspect_option where
  "WithNoCache opts = Ok (opts\<lparr>io_cache := False\<rparr>)"

definition WithInspectOptions :: "bool \<Rightarrow> inspect_option" where
  "WithInspectOptions v opts = Ok (opts\<lparr>io_verbose := v\<rparr>)"

fun apply_plain :: "('a \<Rightarrow> 'a outcome) list \<Rightarrow> 'a \<Rightarrow> 'a outcome" where
  "apply_plain [] x = Ok x"
| "apply_plain (f # fs) x = then_do (f x) (apply_plain fs)"

text \<open>The network keeps the result of the last inspection.\<close>

definition Inspect_network ::
    "gctx \<Rightarrow> inspect_option list \<Rightarrow> 'w network \<times> 'w clocked \<Rightarrow> network_inspected outcome \<times> 'w network \<times> 'w clocked" where
  "Inspect_network ctx opts ns =
     (case ns of (n, s) \<Rightarrow>
        case nw_client n of
          None \<Rightarrow> (Err (Msg ''docker client is not initialized''), n, s)
        | Some en \<Rightarrow>
            (case apply_plain opts \<lparr>io_cache = True, io_verbose = False\<rparr> of
               Err e \<Rightarrow> (Err e, n, s)
             | Panic p \<Rightarrow> (Panic p, n, s)
             | Ok o1 \<Rightarrow>
                 (if io_cache o1 \<and> ni_ID (nw_inspect n) \<noteq> '''' then (Ok (nw_inspect n), n, s)
                  else case en_NetworkInspect en ctx (network_ID n) (io_verbose o1) s of
                    (Err e, s') \<Rightarrow> (Err e, n, s')
                  | (Panic p, s') \<Rightarrow> (Panic p, n, s')
                  | (Ok r, s') \<Rightarrow> (Ok r, n\<lparr>nw_inspect := r\<rparr>, s'))))"

record 'w network_list_options =
  lo_client :: "'w engine option"
  lo_filters :: "(string \<times> string) list"

type_synonym 'w network_list_option = "'w network_list_options \<Rightarrow> 'w network_list_options outcome"

definition WithListClient :: "'w engine option \<Rightarrow> 'w network_list_option" where
  "WithListClient c opts = Ok (opts\<lparr>lo_client := c\<rparr>)"

definition Net_WithFilters :: "(string \<times> string) list \<Rightarrow> 'w network_list_option" where
  "Net_WithFilters fs opts = Ok (opts\<lparr>lo_filters := fs\<rparr>)"

definition network_list ::
    "('o, 'w) sdk_env \<Rightarrow> gctx \<Rightarrow> 'w network_list_option list \<Rightarrow> (network_summary list, 'w) call" where
  "network_list env ctx opts s =
     (case apply_plain opts \<lparr>lo_client = None, lo_filters = []\<rparr> of
        Err e \<Rightarrow> (Err e, s)
      | Panic p \<Rightarrow> (Panic p, s)
      | Ok o1 \<Rightarrow>
          st_do (client_or_default env ctx (lo_client o1) s) (\<lambda>en s1.
            st_wrap ''failed to list networks'' (en_NetworkList en ctx (lo_filters o1) s1) (\<lambda>items s2.
              if items = [] then (Err (Msg ''no networks found''), s2) else (Ok items, s2))))"

definition network_FindByID ::
    "('o, 'w) sdk_env \<Rightarrow> gctx \<Rightarrow> string \<Rightarrow> 'w network_list_option list \<Rightarrow> (network_summary, 'w) call" where
  "network_FindByID env ctx i opts s =
     st_do (network_list env ctx (opts @ [Net_WithFilters [(''id'', i)]]) s) (\<lambda>nws s'. (Ok (hd nws), s'))"

definition network_FindByName ::
    "('o, 'w) sdk_env \<Rightarrow> gctx \<Rightarrow> string \<Rightarrow> 'w network_list_option list \<Rightarrow> (network_summary, 'w) call" where
  "network_FindByName env ctx n opts s =
     st_do (network_list env ctx (opts @ [Net_WithFilters [(''name'', n)]]) s) (\<lambda>nws s'. (Ok (hd nws), s'))"

definition Terminate_network :: "gctx \<Rightarrow> 'w network \<Rightarrow> (unit, 'w) call" where
  "Terminate_network ctx n s =
     (case nw_client n of
        None \<Rightarrow> (Err (Msg ''docker client is not initialized''), s)
      | Some en \<Rightarrow> st_wrap ''terminate network'' (en_NetworkRemove en ctx (network_ID n) s) (\<lambda>_ s'. (Ok (), s')))"


section \<open>Properties\<close>

lemma network_moduleLabel_own:
  "network_moduleLabel \<noteq> LabelBase" "network_moduleLabel \<noteq> LabelLang" "network_moduleLabel \<noteq> LabelVersion"
  by (simp_all add: network_moduleLabel_def LabelBase_def LabelLang_def LabelVersion_def)

text \<open>
  Every network that \<open>New\<close> creates is marked: the request that the daemon accepted carries the label
  of the module and the three labels of the SDK, and otherwise the caller's labels; its name is never
  empty as long as random names are not. A nil label map makes \<open>New\<close> panic.
\<close>

theorem New_network_marked:
  assumes "New_network env uuid ctx opts s = (Ok n, s')" and "uuid \<noteq> ''''"
  shows "\<exists>o1 en s1 m req l. apply_options opts initial_network_options = Ok o1 \<and> no_labels o1 = Some m
     \<and> en_NetworkCreate en ctx (nw_name n) req s1 = (Ok (nw_response n), s')
     \<and> nw_client n = Some en \<and> nw_name n \<noteq> '''' \<and> nc_Labels req = Some l
     \<and> l network_moduleLabel = Some module_version
     \<and> l LabelBase = Some ''true'' \<and> l LabelLang = Some ''go'' \<and> l LabelVersion = Some (se_version env)
     \<and> (\<forall>k. k \<notin> {network_moduleLabel, LabelBase, LabelLang, LabelVersion} \<longrightarrow> l k = m k)"
proof -
  from assms(1) obtain o1 where o1: "apply_options opts initial_network_options = Ok o1"
    by (auto simp: New_network_def split: outcome.splits)
  define o2 where "o2 = (if no_name o1 = '''' then o1\<lparr>no_name := uuid\<rparr> else o1)"
  have run: "st_do (client_or_default env ctx (no_client o2) s) (\<lambda>en s1.
             case nilmap_write (no_labels o2) network_moduleLabel module_version of
               Err e \<Rightarrow> (Err e, s1)
             | Panic p \<Rightarrow> (Panic p, s1)
             | Ok labels \<Rightarrow>
                 st_wrap ''create network''
                   (NetworkCreate (se_version env) en ctx (no_name o2) (network_create_of labels o2) s1)
                   (\<lambda>resp s2. (Ok \<lparr>nw_response = resp, nw_inspect = zero_inspected, nw_client = Some en,
                      nw_driver = no_driver o2, nw_name = no_name o2\<rparr>, s2))) = (Ok n, s')"
    using assms(1) by (simp only: New_network_def o1 outcome.case Let_def o2_def)
  then obtain en s1 where rest: "(case nilmap_write (no_labels o2) network_moduleLabel module_version of
               Err e \<Rightarrow> (Err e, s1)
             | Panic p \<Rightarrow> (Panic p, s1)
             | Ok labels \<Rightarrow>
                 st_wrap ''create network''
                   (NetworkCreate (se_version env) en ctx (no_name o2) (network_create_of labels o2) s1)
                   (\<lambda>resp s2. (Ok \<lparr>nw_response = resp, nw_inspect = zero_inspected, nw_client = Some en,
                      nw_driver = no_driver o2, nw_name = no_name o2\<rparr>, s2))) = (Ok n, s')"
    unfolding st_do_Ok_iff by blast
  then obtain m where m: "no_labels o2 = Some m" by (cases "no_labels o2") auto
  let ?m = "m(network_moduleLabel \<mapsto> module_version)"
  let ?req = "(network_create_of (Some ?m) o2)\<lparr>nc_Labels := AddSDKLabels (se_version env) (Some ?m)\<rparr>"
  obtain l where l: "AddSDKLabels (se_version env) (Some ?m) = Some l" by (simp add: AddSDKLabels_def)
  from rest m obtain resp where call: "en_NetworkCreate en ctx (no_name o2) ?req s1 = (Ok resp, s')"
    and n: "n = \<lparr>nw_response = resp, nw_inspect = zero_inspected, nw_client = Some en,
                nw_driver = no_driver o2, nw_name = no_name o2\<rparr>"
    by (auto simp: st_wrap_Ok_iff NetworkCreate_def network_create_of_def)
  have "no_name o2 \<noteq> ''''" "no_labels o1 = Some m" using m assms(2) by (auto simp: o2_def split: if_splits)
  with o1 call n l show ?thesis
    using AddSDKLabels_Some [OF l] network_moduleLabel_own
    by (intro exI [of _ o1] exI [of _ en] exI [of _ s1] exI [of _ m] exI [of _ ?req] exI [of _ l])
      (simp add: LabelBase_def LabelLang_def LabelVersion_def)
qed

theorem New_network_marked_witness:
  "\<exists>n. New_network demo_sdk_env ''id'' Background [Net_WithClient (Some demo_engine)] (0, ()) = (Ok n, (0, ()))
     \<and> nw_name n \<noteq> ''''"
proof -
  have "\<exists>n. New_network demo_sdk_env ''id'' Background [Net_WithClient (Some demo_engine)] (0, ()) = (Ok n, (0, ()))"
    by (simp add: New_network_def Net_WithClient_def initial_network_options_def NetworkCreate_def
        demo_engine_def network_create_of_def)
  then obtain n where n: "New_network demo_sdk_env ''id'' Background [Net_WithClient (Some demo_engine)] (0, ()) = (Ok n, (0, ()))"
    by blast
  with New_network_marked [OF n] show ?thesis by auto
qed

text \<open>
  An inspection that succeeded is answered from the network's own copy until a caller asks for no
  cache: the next inspection makes no call and returns the same, provided the daemon gave the network an
  ID. With \<open>WithNoCache\<close> the daemon is asked, and its answer is the new copy.
\<close>

theorem Inspect_network_cached:
  assumes "Inspect_network ctx opts (n, s) = (Ok r, n', s')" and "ni_ID r \<noteq> ''''"
  shows "Inspect_network ctx2 [WithInspectOptions v] (n', s2) = (Ok r, n', s2)
     \<and> (\<forall>en r3 s3. nw_client n = Some en \<longrightarrow> en_NetworkInspect en ctx2 (network_ID n) v s2 = (Ok r3, s3) \<longrightarrow>
          Inspect_network ctx2 [WithInspectOptions v, WithNoCache] (n', s2) = (Ok r3, n'\<lparr>nw_inspect := r3\<rparr>, s3))"
proof -
  from assms(1) have "nw_inspect n' = r \<and> nw_client n' = nw_client n \<and> nw_client n \<noteq> None \<and> network_ID n' = network_ID n"
    by (auto simp: Inspect_network_def network_ID_def split: option.splits outcome.splits if_splits prod.splits)
  with assms(2) show ?thesis
    by (auto simp: Inspect_network_def WithNoCache_def WithInspectOptions_def)
qed

definition demo_network :: "unit network" where
  "demo_network = \<lparr>nw_response = \<lparr>nr_ID = ''net'', nr_Warning = []\<rparr>, nw_inspect = zero_inspected,
     nw_client = Some demo_engine, nw_driver = '''', nw_name = ''n''\<rparr>"

theorem Inspect_network_cached_witness:
  "\<exists>r n'. Inspect_network Background [] (demo_network, (0, ())) = (Ok r, n', (0, ()))
     \<and> Inspect_network Background [WithInspectOptions True] (n', (9, ())) = (Ok r, n', (9, ()))"
proof -
  have run: "Inspect_network Background [] (demo_network, (0, ())) =
      (Ok \<lparr>ni_ID = ''net'', ni_Name = ''net'', ni_IPAM = []\<rparr>,
       demo_network\<lparr>nw_inspect := \<lparr>ni_ID = ''net'', ni_Name = ''net'', ni_IPAM = []\<rparr>\<rparr>, (0, ()))"
    by (simp add: Inspect_network_def demo_network_def zero_inspected_def network_ID_def demo_engine_def)
  from Inspect_network_cached [OF run] run show ?thesis by auto
qed

end
