(* ===== verification/Docker_Volume.thy ===== *)
theory Docker_Volume
  imports Docker_Network
begin

text \<open>
  Package \<open>volume\<close>: creating a volume with the label of the module, finding, listing and removing
  volumes. The options are applied as in package network, whose helpers are used.
\<close>

definition volume_version :: string where
  "volume_version = ''0.1.0-alpha005''"

definition volume_moduleLabel :: string where
  "volume_moduleLabel = LabelBase @ ''.volume''"

record 'w volume_options =
  vp_client :: "'w engine option"
  vp_labels :: "string smap option"
  vp_name :: string

definition initial_volume_options :: "'w volume_options" where
  "initial_volume_options = \<lparr>vp_client = None, vp_labels = Some Map.empty, vp_name = ''''\<rparr>"

type_synonym 'w volume_option = "'w volume_options \<Rightarrow> 'w volume_options outcome"

definition Vol_WithClient :: "'w engine option \<Rightarrow> 'w volume_option" where
  "Vol_WithClient c opts = Ok (opts\<lparr>vp_client := c\<rparr>)"

definition Vol_WithName :: "string \<Rightarrow> 'w volume_option" where
  "Vol_WithName n opts = Ok (opts\<lparr>vp_name := n\<rparr>)"

definition Vol_WithLabels :: "string smap option \<Rightarrow> 'w volume_option" where
  "Vol_WithLabels ls opts = Ok (opts\<lparr>vp_labels := ls\<rparr>)"

record 'w sdk_volume =
  sv_Volume :: volume
  sv_client :: "'w engine"

definition New_volume ::
    "('o, 'w) sdk_env \<Rightarrow> gctx \<Rightarrow> 'w volume_option list \<Rightarrow> ('w sdk_volume, 'w) call" where
  "New_volume env ctx opts s =
     (case apply_options opts initial_volume_options of
        Err e \<Rightarrow> (Err e, s)
      | Panic p \<Rightarrow> (Panic p, s)
      | Ok o1 \<Rightarrow>
          st_do (client_or_default env ctx (vp_client o1) s) (\<lambda>en s1.
            case nilmap_write (vp_labels o1) volume_moduleLabel volume_version of
              Err e \<Rightarrow> (Err e, s1)
            | Panic p \<Rightarrow> (Panic p, s1)
            | Ok labels \<Rightarrow>
                st_wrap ''create volume'' (VolumeCreate (se_version env) en ctx (vp_name o1) labels s1)
                  (\<lambda>v s2. (Ok \<lparr>sv_Volume = v, sv_client = en\<rparr>, s2))))"

definition volume_ID :: "'w sdk_volume \<Rightarrow> string" where
  "volume_ID v = vo_Name (sv_Volume v)"

record 'w find_options =
  fo_client :: "'w engine option"
  fo_filters :: "(string \<times> string) list"

type_synonym 'w find_option = "'w find_options \<Rightarrow> 'w find_options outcome"

definition WithFindClient :: "'w engine option \<Rightarrow> 'w find_option" where
  "WithFindClient c opts = Ok (opts\<lparr>fo_client := c\<rparr>)"

definition Vol_WithFilters :: "(string \<times> string) list \<Rightarrow> 'w find_option" where
  "Vol_WithFilters fs opts = Ok (opts\<lparr>fo_filters := fs\<rparr>)"

definition volume_FindByID ::
    "('o, 'w) sdk_env \<Rightarrow> gctx \<Rightarrow> string \<Rightarrow> 'w find_option list \<Rightarrow> ('w sdk_volume, 'w) call" where
  "volume_FindByID env ctx volumeID opts s =
     (case apply_plain opts \<lparr>fo_client = None, fo_filters = []\<rparr> of
        Err e \<Rightarrow> (Err e, s)
      | Panic p \<Rightarrow> (Panic p, s)
      | Ok o1 \<Rightarrow>
          st_do (client_or_default env ctx (fo_client o1) s) (\<lambda>en s1.
          st_do (en_VolumeInspect en ctx volumeID s1) (\<lambda>v s2. (Ok \<lparr>sv_Volume = v, sv_client = en\<rparr>, s2))))"

definition volume_List ::
    "('o, 'w) sdk_env \<Rightarrow> gctx \<Rightarrow> 'w find_option list \<Rightarrow> ('w sdk_volume list, 'w) call" where
  "volume_List env ctx opts s =
     (case apply_plain opts \<lparr>fo_client = None, fo_filters = []\<rparr> of
        Err e \<Rightarrow> (Err e, s)
      | Panic p \<Rightarrow> (Panic p, s)
      | Ok o1 \<Rightarrow>
          st_do (client_or_default env ctx (fo_client o1) s) (\<lambda>en s1.
          st_do (en_VolumeList en ctx (fo_filters o1) s1) (\<lambda>items s2.
            (Ok (map (\<lambda>v. \<lparr>sv_Volume = v, sv_client = en\<rparr>) items), s2))))"

record terminate_volume_options =
  tv_force :: bool

type_synonym terminate_volume_option = "terminate_volume_options \<Rightarrow> terminate_volume_options outcome"

definition WithForce :: terminate_volume_option where
  "WithForce opts = Ok (opts\<lparr>tv_force := True\<rparr>)"

definition Terminate_volume ::
    "gctx \<Rightarrow> terminate_volume_option list \<Rightarrow> 'w sdk_volume \<Rightarrow> (unit, 'w) call" where
  "Terminate_volume ctx opts v s =
     (case apply_options opts \<lparr>tv_force = False\<rparr> of
        Err e \<Rightarrow> (Err e, s)
      | Panic p \<Rightarrow> (Panic p, s)
      | Ok o1 \<Rightarrow> en_VolumeRemove (sv_client v) ctx (vo_Name (sv_Volume v)) (tv_force o1) s)"

text \<open>
  A volume can be removed through the object that \<open>New\<close> returned: the request that created it carried
  the labels of the SDK and of the module next to the caller's labels, and \<open>Terminate\<close> asks the same client to remove
  the volume under the name that the daemon gave it, by force exactly when \<open>WithForce\<close> is passed.
\<close>

theorem New_volume_Terminate:
  assumes "New_volume env ctx opts s = (Ok v, s')"
  shows "(\<exists>o1 s1 m. apply_options opts initial_volume_options = Ok o1 \<and> vp_labels o1 = Some m
           \<and> en_VolumeCreate (sv_client v) ctx (vp_name o1)
                 (Some (m(volume_moduleLabel \<mapsto> volume_version) ++ sdkLabels (se_version env))) s1
               = (Ok (sv_Volume v), s'))
     \<and> Terminate_volume ctx2 (replicate n WithForce) v s2
          = en_VolumeRemove (sv_client v) ctx2 (volume_ID v) (0 < n) s2"
proof -
  have force: "apply_options (replicate k WithForce) \<lparr>tv_force = b\<rparr> = Ok \<lparr>tv_force = b \<or> 0 < k\<rparr>" for k b
    by (induction k arbitrary: b) (simp_all add: WithForce_def)
  from assms obtain o1 where o1: "apply_options opts initial_volume_options = Ok o1"
    by (auto simp: New_volume_def split: outcome.splits)
  with assms obtain en s1 m where "vp_labels o1 = Some m"
    and "en_VolumeCreate en ctx (vp_name o1) (Some (m(volume_moduleLabel \<mapsto> volume_version) ++ sdkLabels (se_version env))) s1
      = (Ok (sv_Volume v), s')"
    and "sv_client v = en"
    by (cases "vp_labels o1") (auto simp: New_volume_def VolumeCreate_def AddSDKLabels_def st_do_Ok_iff st_wrap_Ok_iff)
  with o1 force [of n False] show ?thesis
    by (auto simp: Terminate_volume_def volume_ID_def simp del: split_paired_Ex)
qed

theorem New_volume_Terminate_witness:
  "\<exists>v. New_volume demo_sdk_env Background [Vol_WithClient (Some demo_engine), Vol_WithName ''data''] (0, ()) = (Ok v, (0, ()))
     \<and> Terminate_volume Background [WithForce] v (0, ()) = (Ok (), (0, ()))"
proof -
  have "\<exists>v. New_volume demo_sdk_env Background [Vol_WithClient (Some demo_engine), Vol_WithName ''data''] (0, ()) = (Ok v, (0, ()))
      \<and> sv_client v = demo_engine"
    by (simp add: New_volume_def VolumeCreate_def Vol_WithClient_def Vol_WithName_def initial_volume_options_def)
      (simp add: demo_engine_def)
  then obtain v where v: "New_volume demo_sdk_env Background [Vol_WithClient (Some demo_engine), Vol_WithName ''data''] (0, ()) = (Ok v, (0, ()))"
    and c: "sv_client v = demo_engine" by blast
  from New_volume_Terminate [OF v, of Background 1 "(0, ())"] v c show ?thesis
    by (auto simp: demo_engine_def)
qed

end
