(* ===== verification/Exec_Process.thy ===== *)
theory Exec_Process
  imports Docker_Engine
begin

text \<open>
  Package \<open>container/exec\<close>: the options of a command that runs in a container (\<open>processor.go\<close>) and the
  commands themselves (\<open>types.go\<close>). An option changes the options of the process: the configuration that
  the daemon is given and the reader of the output, which is nil until the process exists. The function
  \<open>stdcopy.StdCopy\<close>, which separates the two outputs, is a parameter: its result is what it wrote to each
  output and its error.
\<close>

record process_options =
  pr_ExecConfig :: exec_config
  pr_Reader :: "stream option"

definition zero_exec_config :: exec_config where
  "zero_exec_config = \<lparr>ex_Cmd = [], ex_User = '''', ex_WorkingDir = '''', ex_Env = [], ex_TTY = False,
     ex_AttachStdout = False, ex_AttachStderr = False\<rparr>"

definition zero_process_options :: process_options where
  "zero_process_options = \<lparr>pr_ExecConfig = zero_exec_config, pr_Reader = None\<rparr>"

definition NewProcessOptions :: "string list \<Rightarrow> process_options" where
  "NewProcessOptions cmd =
     \<lparr>pr_ExecConfig = zero_exec_config\<lparr>ex_Cmd := cmd, ex_AttachStdout := True, ex_AttachStderr := True\<rparr>,
      pr_Reader = None\<rparr>"

type_synonym process_option = "process_options \<Rightarrow> process_options"

definition WithUser :: "string \<Rightarrow> process_option" where
  "WithUser user opts = opts\<lparr>pr_ExecConfig := (pr_ExecConfig opts)\<lparr>ex_User := user\<rparr>\<rparr>"

definition WithWorkingDir :: "string \<Rightarrow> process_option" where
  "WithWorkingDir workingDir opts = opts\<lparr>pr_ExecConfig := (pr_ExecConfig opts)\<lparr>ex_WorkingDir := workingDir\<rparr>\<rparr>"

definition Exec_WithEnv :: "string list \<Rightarrow> process_option" where
  "Exec_WithEnv env opts = opts\<lparr>pr_ExecConfig := (pr_ExecConfig opts)\<lparr>ex_Env := env\<rparr>\<rparr>"

definition WithTTY :: "bool \<Rightarrow> process_option" where
  "WithTTY tty opts = opts\<lparr>pr_ExecConfig := (pr_ExecConfig opts)\<lparr>ex_TTY := tty\<rparr>\<rparr>"

text \<open>
  A buffer that two goroutines share. An error that is set comes before whatever was written. Reading to
  the end gives the bytes or the error.
\<close>

record safe_buffer =
  sb_buf :: string
  sb_err :: "err option"

definition safe_Error :: "err \<Rightarrow> safe_buffer \<Rightarrow> safe_buffer" where
  "safe_Error e sb = sb\<lparr>sb_err := Some e\<rparr>"

definition safe_Write :: "string \<Rightarrow> safe_buffer \<Rightarrow> safe_buffer" where
  "safe_Write p sb = sb\<lparr>sb_buf := sb_buf sb @ p\<rparr>"

definition safe_Read :: "safe_buffer \<Rightarrow> stream" where
  "safe_Read sb = (case sb_err sb of Some e \<Rightarrow> ('''', Some e) | None \<Rightarrow> (sb_buf sb, None))"

text \<open>\<open>io.MultiReader\<close> of two readers: the second one after the first one ended without an error.\<close>

definition MultiReader :: "stream \<Rightarrow> stream \<Rightarrow> stream" where
  "MultiReader a b = (case snd a of Some e \<Rightarrow> a | None \<Rightarrow> (fst a @ fst b, snd b))"

type_synonym std_copy = "stream \<Rightarrow> string \<times> string \<times> err option"

definition Multiplexed :: "std_copy \<Rightarrow> process_option" where
  "Multiplexed StdCopy opts =
     (case pr_Reader opts of
        None \<Rightarrow> opts
      | Some r \<Rightarrow>
          (case StdCopy r of
             (o1, o2, e) \<Rightarrow>
               (let outBuff = safe_Write o1 \<lparr>sb_buf = '''', sb_err = None\<rparr>;
                    errBuff = safe_Write o2 \<lparr>sb_buf = '''', sb_err = None\<rparr>;
                    outBuff = (case e of None \<Rightarrow> outBuff | Some x \<Rightarrow> safe_Error (wrapf ''copying output'' x) outBuff)
                in opts\<lparr>pr_Reader := Some (MultiReader (safe_Read outBuff) (safe_Read errBuff))\<rparr>)))"

text \<open>A command to run: its words and its options, of which some may be nil.\<close>

record executable =
  xe_cmd :: "string list"
  xe_options :: "process_option option list"

definition NewRawCommand :: "string list \<Rightarrow> process_option option list \<Rightarrow> executable" where
  "NewRawCommand cmds opts = \<lparr>xe_cmd = cmds, xe_options = opts\<rparr>"

definition AsCommand :: "executable \<Rightarrow> string list" where
  "AsCommand r = xe_cmd r"

definition Options :: "executable \<Rightarrow> process_option option list" where
  "Options ce = xe_options ce"

text \<open>\<open>for _, o := range options { o.Apply(processOptions) }\<close>: a nil option panics.\<close>

fun Apply_all :: "process_option option list \<Rightarrow> process_options \<Rightarrow> process_options outcome" where
  "Apply_all [] po = Ok po"
| "Apply_all (None # os) po = Panic ''nil pointer dereference''"
| "Apply_all (Some f # os) po = Apply_all os (f po)"

lemma Apply_all_Ok: "Apply_all (map Some fs) po = Ok (fold (\<lambda>f. f) fs po)"
  by (induction fs arbitrary: po) simp_all

lemma Multiplexed_without_reader [simp]: "pr_Reader po = None \<Longrightarrow> Multiplexed c po = po"
  by (simp add: Multiplexed_def)

text \<open>Combined output: all of the standard output, then all of the standard error; nothing but the error when copying failed.\<close>

lemma Multiplexed_reader:
  assumes "pr_Reader po = Some r" and "c r = (o1, o2, e)"
  shows "pr_Reader (Multiplexed c po) =
     Some (case e of None \<Rightarrow> (o1 @ o2, None) | Some x \<Rightarrow> ('''', Some (wrapf ''copying output'' x)))"
  using assms
  by (simp add: Multiplexed_def safe_Write_def safe_Error_def safe_Read_def MultiReader_def Let_def split: option.split)

lemma Multiplexed_config [simp]: "pr_ExecConfig (Multiplexed c po) = pr_ExecConfig po"
  by (simp add: Multiplexed_def Let_def split: option.split prod.split)

end
