(* ===== verification/Durable_Startup.thy ===== *)
theory Durable_Startup
  imports Exec_Process File_Tree Go_Url
begin

text \<open>
  Startup commands that survive a restart (\<open>container/durable_startup.go\<close>): each command is rendered as
  a shell script below a directory of its namespace, next to one dispatcher that runs them in the
  lexical order of their paths. The state is the list of files of the definition, from which the
  namespaces and their numbers are read back on every registration.
\<close>


section \<open>Files and names\<close>

text \<open>A file to be copied into the container (\<open>files.go\<close>); the reader is its content.\<close>

record sdk_file =
  fi_Reader :: "string option"
  fi_HostPath :: string
  fi_ContainerPath :: string
  fi_Mode :: int

definition DurableStartupDir :: string where
  "DurableStartupDir = ''/etc/durable-startup.d''"

definition defaultDurableNamespace :: string where
  "defaultDurableNamespace = ''default''"

definition DurableStartupDispatcherPath :: string where
  "DurableStartupDispatcherPath = DurableStartupDir @ ''/'' @ ''run.sh''"

definition durableStartupFileMode :: int where
  "durableStartupFileMode = 493"

definition lower_or_digit :: "char \<Rightarrow> bool" where
  "lower_or_digit c = (is_dec c \<or> (97 \<le> code c \<and> code c \<le> 122))"

text \<open>The regular expressions \<open>^[a-z0-9][a-z0-9_-]*$\<close> and \<open>^[a-zA-Z_][a-zA-Z0-9_-]*$\<close>.\<close>

definition durableNamespaceName :: "string \<Rightarrow> bool" where
  "durableNamespaceName s =
     (s \<noteq> [] \<and> lower_or_digit (hd s) \<and> list_all (\<lambda>c. lower_or_digit c \<or> c = CHR ''_'' \<or> c = CHR ''-'') s)"

definition durableUser :: "string \<Rightarrow> bool" where
  "durableUser s =
     (s \<noteq> [] \<and> (is_alpha (hd s) \<or> hd s = CHR ''_'')
      \<and> list_all (\<lambda>c. is_alpha c \<or> is_dec c \<or> c = CHR ''_'' \<or> c = CHR ''-'') s)"

definition ErrDurableStartupReservedNamespace :: err where
  "ErrDurableStartupReservedNamespace = Sentinel (''durable startup namespace '' @ show_q defaultDurableNamespace @ '' is reserved'')"


section \<open>Rendering\<close>

abbreviation squote :: char where
  "squote \<equiv> CHR 0x27"

abbreviation nl :: string where
  "nl \<equiv> [newline]"

fun escape_squotes :: "string \<Rightarrow> string" where
  "escape_squotes [] = []"
| "escape_squotes (c # cs) =
     (if c = squote then [squote, CHR 0x5C, squote, squote] else [c]) @ escape_squotes cs"

definition shellSingleQuote :: "string \<Rightarrow> string" where
  "shellSingleQuote s =
     (if s = '''' then [squote, squote] else [squote] @ escape_squotes s @ [squote])"

definition export_line :: "string \<Rightarrow> string" where
  "export_line env =
     (case index_byte env (CHR ''='') of
        None \<Rightarrow> ''''
      | Some eq \<Rightarrow>
          (if eq = 0 then ''''
           else ''export '' @ take eq env @ ''='' @ shellSingleQuote (drop (eq + 1) env) @ nl))"

definition exec_line :: "string list \<Rightarrow> string" where
  "exec_line cmd = ''exec'' @ concat (map (\<lambda>arg. '' '' @ shellSingleQuote arg) cmd)"

definition script_body :: "exec_config \<Rightarrow> string list \<Rightarrow> string" where
  "script_body po cmd =
     concat (map export_line (ex_Env po))
     @ (if ex_WorkingDir po \<noteq> '''' then ''cd '' @ shellSingleQuote (ex_WorkingDir po) @ nl else '''')
     @ exec_line cmd @ nl"

definition renderDurableScript :: "executable option \<Rightarrow> string outcome" where
  "renderDurableScript e =
     (case e of
        None \<Rightarrow> Err (Msg ''executable is nil'')
      | Some x \<Rightarrow>
          (if xe_cmd x = [] then Err (Msg ''executable produced empty command'')
           else
             (let po = pr_ExecConfig (fold (\<lambda>opt c. case opt of None \<Rightarrow> c | Some f \<Rightarrow> f c) (xe_options x) zero_process_options);
                  body = script_body po (xe_cmd x)
              in if ex_User po \<noteq> '''' \<and> \<not> durableUser (ex_User po)
                 then Err (Msg (''durable startup WithUser '' @ show_q (ex_User po) @ '': only login names are supported ''
                        @ ''(uid:gid / user:group / bare-UID forms are not, because the rendered script switches user via `su`); ''
                        @ ''use a login name, or fall back to WithStartupCommand for full Docker user-spec semantics''))
                 else Ok (''#!/bin/sh'' @ nl @ ''set -e'' @ nl
                   @ (if ex_User po \<noteq> ''''
                      then ''exec su -s /bin/sh -c '' @ shellSingleQuote (''set -e'' @ nl @ body) @ '' ''
                             @ shellSingleQuote (ex_User po) @ nl
                      else body)))))"

definition renderDurableDispatcher :: "string \<Rightarrow> string" where
  "renderDurableDispatcher root =
     concat (map (\<lambda>l. l @ nl)
       [''#!/bin/sh'', ''set -e'', ''LC_ALL=C'', ''export LC_ALL'', ''ROOT='' @ shellSingleQuote root,
        ''[ -d '' @ [CHR 0x22] @ ''$ROOT'' @ [CHR 0x22] @ '' ] || exit 0'',
        ''for ns in '' @ [CHR 0x22] @ ''$ROOT'' @ [CHR 0x22] @ ''/*/; do'',
        [CHR 0x09] @ ''[ -d '' @ [CHR 0x22] @ ''$ns'' @ [CHR 0x22] @ '' ] || continue'',
        [CHR 0x09] @ ''for f in '' @ [CHR 0x22] @ ''$ns'' @ [CHR 0x22] @ ''*-cmd.sh; do'',
        [CHR 0x09] @ [CHR 0x09] @ ''[ -f '' @ [CHR 0x22] @ ''$f'' @ [CHR 0x22] @ '' ] || continue'',
        [CHR 0x09] @ [CHR 0x09] @ [CHR 0x22] @ ''$f'' @ [CHR 0x22],
        [CHR 0x09] @ ''done'', ''done''])"


section \<open>Namespaces\<close>

text \<open>\<open>fmt.Sscanf(s, "%d", &idx)\<close>: leading blanks, a sign, then at least one digit; the rest is ignored.\<close>

definition scan_d :: "string \<Rightarrow> nat option" where
  "scan_d s =
     (let t = dropWhile (\<lambda>c. c = CHR '' '') s;
          u = (if t \<noteq> [] \<and> hd t = CHR ''+'' then tl t else t);
          ds = takeWhile (\<lambda>c. digit_val c \<noteq> None) u
      in if ds = [] then None else digits_val 0 ds)"

text \<open>The namespace and the number in the path of a script; \<open>None\<close> for another file.\<close>

definition namespace_of :: "string \<Rightarrow> (string \<times> nat) option" where
  "namespace_of p =
     (let prefix = DurableStartupDir @ ''/''; rel = trim_prefix p prefix in
      if p = DurableStartupDispatcherPath \<or> \<not> has_prefix p prefix then None
      else case index_byte rel (CHR ''/'') of
        None \<Rightarrow> None
      | Some slash \<Rightarrow>
          (let sub = take slash rel in
           case index_byte sub (CHR ''-'') of
             None \<Rightarrow> None
           | Some dash \<Rightarrow>
               (if slash = 0 \<or> dash = 0 \<or> dash = length sub - 1 then None
                else map_option (\<lambda>idx. (drop (dash + 1) sub, idx)) (scan_d (take dash sub)))))"

text \<open>The names seen, each with its first number, in the order of the files.\<close>

fun known_names :: "sdk_file list \<Rightarrow> (string \<times> nat) list \<Rightarrow> (string \<times> nat) list" where
  "known_names [] known = known"
| "known_names (f # fs) known =
     (case namespace_of (fi_ContainerPath f) of
        None \<Rightarrow> known_names fs known
      | Some (n, idx) \<Rightarrow>
          (if map_of known n \<noteq> None then known_names fs known else known_names fs (known @ [(n, idx)])))"

definition namespace_dir :: "nat \<Rightarrow> string \<Rightarrow> string" where
  "namespace_dir idx name = DurableStartupDir @ ''/'' @ pad3 idx @ ''-'' @ name"

definition resolveDurableNamespaceDir :: "sdk_file list \<Rightarrow> string \<Rightarrow> string \<times> bool" where
  "resolveDurableNamespaceDir files name =
     (let known = known_names files [];
          dispatcherPresent = list_ex (\<lambda>f. fi_ContainerPath f = DurableStartupDispatcherPath) files
      in (case map_of known name of
            Some idx \<Rightarrow> namespace_dir idx name
          | None \<Rightarrow>
              (if name = defaultDurableNamespace then namespace_dir 0 name
               else namespace_dir (length (filter (\<lambda>(n, i). n \<noteq> defaultDurableNamespace) known) + 1) name),
          dispatcherPresent))"

text \<open>\<open>path.Dir\<close>.\<close>

definition path_Dir :: "string \<Rightarrow> string" where
  "path_Dir s =
     (case cut_last (CHR ''/'') s of
        None \<Rightarrow> ''.''
      | Some (a, b) \<Rightarrow>
          (if has_prefix s ''/'' then show_path (path_of a)
           else (if path_of a = [] then ''.'' else intercalate ''/'' (path_of a))))"

definition nextDurableCmdIndex :: "sdk_file list \<Rightarrow> string \<Rightarrow> nat" where
  "nextDurableCmdIndex files nsDir =
     length (filter (\<lambda>f. path_Dir (fi_ContainerPath f) = nsDir \<and> has_suffix (fi_ContainerPath f) ''-cmd.sh'') files)"

fun render_all :: "string \<Rightarrow> nat \<Rightarrow> executable option list \<Rightarrow> string list outcome" where
  "render_all name i [] = Ok []"
| "render_all name i (e # es) =
     then_wrap (''render durable startup command '' @ show_nat i @ '' in namespace '' @ show_q name)
       (renderDurableScript e) (\<lambda>c. then_do (render_all name (i + 1) es) (\<lambda>cs. Ok (c # cs)))"

definition script_file :: "string \<Rightarrow> nat \<Rightarrow> string \<Rightarrow> sdk_file" where
  "script_file nsDir k content =
     \<lparr>fi_Reader = Some content, fi_HostPath = '''', fi_ContainerPath = nsDir @ ''/'' @ pad3 k @ ''-cmd.sh'',
      fi_Mode = durableStartupFileMode\<rparr>"

definition dispatcher_file :: sdk_file where
  "dispatcher_file = \<lparr>fi_Reader = Some (renderDurableDispatcher DurableStartupDir), fi_HostPath = '''',
     fi_ContainerPath = DurableStartupDispatcherPath, fi_Mode = durableStartupFileMode\<rparr>"

fun script_files :: "string \<Rightarrow> nat \<Rightarrow> string list \<Rightarrow> sdk_file list" where
  "script_files nsDir k [] = []"
| "script_files nsDir k (c # cs) = script_file nsDir k c # script_files nsDir (k + 1) cs"

definition appendDurableScripts ::
    "sdk_file list \<Rightarrow> string \<Rightarrow> executable option list \<Rightarrow> sdk_file list outcome" where
  "appendDurableScripts files name execs =
     (if execs = [] then Err (Msg ''at least one executable is required'')
      else then_do (render_all name 0 execs) (\<lambda>contents.
        case resolveDurableNamespaceDir files name of
          (nsDir, dispatcherPresent) \<Rightarrow>
            Ok (files @ script_files nsDir (nextDurableCmdIndex files nsDir) contents
                @ (if dispatcherPresent then [] else [dispatcher_file]))))"

definition WithDurableStartupCommand :: "executable option list \<Rightarrow> sdk_file list \<Rightarrow> sdk_file list outcome" where
  "WithDurableStartupCommand execs files = appendDurableScripts files defaultDurableNamespace execs"

definition WithDurableStartupCommandsFromDir ::
    "string \<Rightarrow> executable option list \<Rightarrow> sdk_file list \<Rightarrow> sdk_file list outcome" where
  "WithDurableStartupCommandsFromDir dirName execs files =
     (if dirName = defaultDurableNamespace then Err ErrDurableStartupReservedNamespace
      else if \<not> durableNamespaceName dirName
        then Err (Msg (''invalid durable startup namespace '' @ show_q dirName @ '': must match ^[a-z0-9][a-z0-9_-]*$''))
      else appendDurableScripts files dirName execs)"



section \<open>A rendered word is the word\<close>

text \<open>
  How a POSIX shell reads the words of a simple command: single quotes, the backslash, blanks, and
  plain characters; every other unquoted character is refused (\<open>None\<close>). The first argument says whether
  a quote is open, the second is the word begun so far.
\<close>

definition plain_char :: "char \<Rightarrow> bool" where
  "plain_char c = (is_alpha c \<or> is_dec c \<or> c \<in> set ''-_./'')"

definition word_so_far :: "string option \<Rightarrow> string" where
  "word_so_far w = (case w of None \<Rightarrow> '''' | Some x \<Rightarrow> x)"

fun sh_scan :: "bool \<Rightarrow> string option \<Rightarrow> string \<Rightarrow> string list option" where
  "sh_scan True w [] = None"
| "sh_scan False w [] = Some (case w of None \<Rightarrow> [] | Some x \<Rightarrow> [x])"
| "sh_scan True w (c # cs) =
     (if c = squote then sh_scan False w cs else sh_scan True (Some (word_so_far w @ [c])) cs)"
| "sh_scan False w (c # cs) =
     (if c = squote then sh_scan True (Some (word_so_far w)) cs
      else if c = CHR 0x5C then
        (case cs of [] \<Rightarrow> None | d # r \<Rightarrow> sh_scan False (Some (word_so_far w @ [d])) r)
      else if c = CHR '' '' then
        (case w of None \<Rightarrow> sh_scan False None cs | Some x \<Rightarrow> map_option ((#) x) (sh_scan False None cs))
      else if plain_char c then sh_scan False (Some (word_so_far w @ [c])) cs
      else None)"

definition sh_words :: "string \<Rightarrow> string list option" where
  "sh_words s = sh_scan False None s"

lemma word_so_far_Some [simp]: "word_so_far (Some x) = x" "word_so_far None = ''''"
  by (simp_all add: word_so_far_def)

lemma sh_scan_escaped:
  "sh_scan True (Some w) (escape_squotes s @ squote # r) = sh_scan False (Some (w @ s)) r"
  by (induction s arbitrary: w) auto

lemma sh_scan_quoted:
  "sh_scan False w (shellSingleQuote s @ r) = sh_scan False (Some (word_so_far w @ s)) r"
  by (simp add: shellSingleQuote_def sh_scan_escaped)

lemma sh_scan_arguments:
  "sh_scan False (Some w) (concat (map (\<lambda>arg. '' '' @ shellSingleQuote arg) cmd)) = Some (w # cmd)"
proof (induction cmd arbitrary: w)
  case (Cons a cmd)
  have "sh_scan False None (shellSingleQuote a @ concat (map (\<lambda>arg. '' '' @ shellSingleQuote arg) cmd)) = Some (a # cmd)"
    unfolding sh_scan_quoted using Cons.IH [of a] by simp
  then show ?case by simp
qed simp

lemma sh_words_exec_line: "sh_words (exec_line cmd) = Some (''exec'' # cmd)"
proof -
  have "sh_words (exec_line cmd) = sh_scan False (Some ''exec'') (concat (map (\<lambda>arg. '' '' @ shellSingleQuote arg) cmd))"
    by (simp add: sh_words_def exec_line_def plain_char_def is_alpha_def is_dec_def code_def)
  then show ?thesis by (simp only: sh_scan_arguments)
qed

text \<open>
  C35: the command of a rendered script is the command registered. Without a user the last line of the
  script, read by a shell, is \<open>exec\<close> with exactly the words of the command, whatever characters they
  contain. With a user the last line runs \<open>su\<close> with a script of its own as one word and the user as the
  next, and the last line of that inner script is again \<open>exec\<close> with the words of the command. The user
  is then a login name.
\<close>

theorem renderDurableScript_words:
  assumes "renderDurableScript (Some x) = Ok script"
  shows "\<exists>user before body line. body = before @ exec_line (xe_cmd x)
     \<and> sh_words (exec_line (xe_cmd x)) = Some (''exec'' # xe_cmd x)
     \<and> (if user = '''' then script = ''#!/bin/sh'' @ nl @ ''set -e'' @ nl @ body @ nl
        else durableUser user \<and> script = ''#!/bin/sh'' @ nl @ ''set -e'' @ nl @ line @ nl
          \<and> sh_words line = Some [''exec'', ''su'', ''-s'', ''/bin/sh'', ''-c'', ''set -e'' @ nl @ body @ nl, user])"
proof -
  define po where "po = pr_ExecConfig (fold (\<lambda>opt c. case opt of None \<Rightarrow> c | Some f \<Rightarrow> f c) (xe_options x) zero_process_options)"
  let ?before = "concat (map export_line (ex_Env po))
     @ (if ex_WorkingDir po \<noteq> '''' then ''cd '' @ shellSingleQuote (ex_WorkingDir po) @ nl else '''')"
  let ?body = "?before @ exec_line (xe_cmd x)"
  let ?line = "''exec su -s /bin/sh -c '' @ shellSingleQuote (''set -e'' @ nl @ ?body @ nl) @ '' '' @ shellSingleQuote (ex_User po)"
  have sb: "script_body po (xe_cmd x) = ?body @ nl" by (simp add: script_body_def)
  have su: "sh_scan False None (''exec su -s /bin/sh -c '' @ r) =
      map_option (\<lambda>ws. [''exec'', ''su'', ''-s'', ''/bin/sh'', ''-c''] @ ws) (sh_scan False None r)" for r
    by (simp add: plain_char_def is_alpha_def is_dec_def code_def option.map_comp o_def)
  have "sh_words ?line = Some [''exec'', ''su'', ''-s'', ''/bin/sh'', ''-c'', ''set -e'' @ nl @ ?body @ nl, ex_User po]"
    unfolding sh_words_def su sh_scan_quoted using sh_scan_quoted [of None "ex_User po" "[]"] by simp
  with assms sb show ?thesis
    by (intro exI [of _ "ex_User po"] exI [of _ ?before] exI [of _ ?body] exI [of _ ?line])
      (auto simp: renderDurableScript_def po_def [symmetric] sh_words_exec_line Let_def split: if_splits)
qed

theorem renderDurableScript_words_witness:
  "\<exists>script. renderDurableScript (Some \<lparr>xe_cmd = [''echo'', [squote, CHR 0x24, newline]], xe_options = []\<rparr>) = Ok script
     \<and> sh_words (exec_line [''echo'', [squote, CHR 0x24, newline]]) = Some [''exec'', ''echo'', [squote, CHR 0x24, newline]]"
proof -
  let ?x = "\<lparr>xe_cmd = [''echo'', [squote, CHR 0x24, newline]], xe_options = []\<rparr>"
  have "\<exists>script. renderDurableScript (Some ?x) = Ok script"
    by (simp add: renderDurableScript_def zero_process_options_def zero_exec_config_def)
  then obtain script where s: "renderDurableScript (Some ?x) = Ok script" by blast
  from renderDurableScript_words [OF s] s show ?thesis by auto
qed



section \<open>Where the scripts are\<close>

lemma index_byte_suffix: "c \<notin> set a \<Longrightarrow> index_byte (a @ c # b) c = Some (length a)"
  by (induction a) auto

lemma cut_last_none: "c \<notin> set b \<Longrightarrow> cut_last c b = None"
  by (induction b) auto

lemma cut_last_append: "c \<notin> set b \<Longrightarrow> cut_last c (a @ c # b) = Some (a, b)"
  by (induction a) (simp_all add: cut_last_none)

definition safe_name :: "string \<Rightarrow> bool" where
  "safe_name n = (n \<noteq> [] \<and> CHR ''/'' \<notin> set n)"

lemma namespace_safe: "durableNamespaceName n \<Longrightarrow> safe_name n"
  by (auto simp: durableNamespaceName_def safe_name_def list_all_iff lower_or_digit_def is_dec_def code_def)

lemma default_safe: "safe_name defaultDurableNamespace"
  by (simp add: safe_name_def defaultDurableNamespace_def)

lemma trim_prefix_dir: "trim_prefix (DurableStartupDir @ ''/'' @ r) (DurableStartupDir @ ''/'') = r"
  using trim_prefix_append [of "DurableStartupDir @ ''/''" r] by simp

lemma scan_pad3: "scan_d (pad3 n) = Some n"
proof -
  obtain d ds where p: "pad3 n = d # ds" by (cases "pad3 n") auto
  have dig: "c \<in> set (pad3 n) \<Longrightarrow> digit_val c \<noteq> None" for c by (rule pad3_digits)
  have "digit_val d \<noteq> None" using dig p by simp
  then have d: "d \<noteq> CHR '' ''" "d \<noteq> CHR ''+''" by (auto simp: digit_val_def)
  have "takeWhile (\<lambda>c. digit_val c \<noteq> None) (pad3 n) = pad3 n" using dig by (simp only: takeWhile_eq_all_conv) blast
  moreover have "dropWhile (\<lambda>c. c = CHR '' '') (pad3 n) = pad3 n" using p d by simp
  moreover have "hd (pad3 n) \<noteq> CHR ''+''" using p d by simp
  ultimately show ?thesis by (simp add: scan_d_def Let_def del: not_None_eq takeWhile_eq_all_conv)
qed

abbreviation script_path :: "nat \<Rightarrow> string \<Rightarrow> nat \<Rightarrow> string" where
  "script_path idx n k \<equiv> namespace_dir idx n @ ''/'' @ pad3 k @ ''-cmd.sh''"

lemma script_path_not_dispatcher: "script_path idx n k \<noteq> DurableStartupDispatcherPath"
proof
  assume "script_path idx n k = DurableStartupDispatcherPath"
  then have "pad3 idx @ ''-'' @ n @ ''/'' @ pad3 k @ ''-cmd.sh'' = ''run.sh''"
    by (simp add: namespace_dir_def DurableStartupDispatcherPath_def)
  then have "hd (pad3 idx) = CHR ''r''" by (cases "pad3 idx") auto
  moreover have "hd (pad3 idx) \<in> set (pad3 idx)" by simp
  ultimately show False using pad3_digits [of "hd (pad3 idx)" idx] by (auto simp: digit_val_def)
qed

lemma namespace_of_script:
  assumes "safe_name n"
  shows "namespace_of (script_path idx n k) = Some (n, idx)"
proof -
  let ?sub = "pad3 idx @ CHR ''-'' # n"
  let ?rel = "?sub @ CHR ''/'' # pad3 k @ ''-cmd.sh''"
  have path: "script_path idx n k = (DurableStartupDir @ ''/'') @ ?rel" by (simp add: namespace_dir_def)
  have rel: "trim_prefix (script_path idx n k) (DurableStartupDir @ ''/'') = ?rel"
    unfolding path by (rule trim_prefix_append)
  have pre: "has_prefix (script_path idx n k) (DurableStartupDir @ ''/'')"
    unfolding path by (rule has_prefix_append)
  have slash: "index_byte ?rel (CHR ''/'') = Some (length ?sub)"
    using assms by (intro index_byte_suffix) (simp add: safe_name_def)
  have dash: "index_byte ?sub (CHR ''-'') = Some (length (pad3 idx))" by (rule index_byte_suffix) simp
  have "n \<noteq> []" using assms by (simp add: safe_name_def)
  then have "length (pad3 idx) \<noteq> 0" "length (pad3 idx) \<noteq> length ?sub - 1" "length ?sub \<noteq> 0" by simp_all
  with rel pre slash dash script_path_not_dispatcher [of idx n k] show ?thesis
    by (simp add: namespace_of_def Let_def scan_pad3)
qed

lemma clean_steps_last: "x \<noteq> '''' \<Longrightarrow> x \<noteq> ''.'' \<Longrightarrow> x \<noteq> ''..'' \<Longrightarrow> clean_steps acc [x] = rev acc @ [x]"
  by simp

lemma path_of_dir:
  assumes "safe_name n"
  shows "show_path (path_of (namespace_dir idx n)) = namespace_dir idx n"
proof -
  let ?last = "pad3 idx @ CHR ''-'' # n"
  obtain d ds where p: "pad3 idx = d # ds" by (cases "pad3 idx") auto
  then have "d \<noteq> CHR ''.''" using pad3_digits [of d idx] by (auto simp: digit_val_def)
  with p have ne: "?last \<noteq> ''''" "?last \<noteq> ''.''" "?last \<noteq> ''..''" by simp_all
  have "CHR ''/'' \<notin> set ?last" using assms by (simp add: safe_name_def)
  then have sp: "split_on (CHR ''/'') ?last = [?last]" by (rule split_on_single)
  have "split_on (CHR ''/'') (namespace_dir idx n) = ['''', ''etc'', ''durable-startup.d'', ?last]"
    using sp by (simp add: namespace_dir_def DurableStartupDir_def)
  then have "path_of (namespace_dir idx n) = [''etc'', ''durable-startup.d'', ?last]"
    using ne by (simp add: path_of_def)
  then show ?thesis by (simp add: show_path_def namespace_dir_def DurableStartupDir_def)
qed

lemma path_Dir_script: "safe_name n \<Longrightarrow> path_Dir (script_path idx n k) = namespace_dir idx n"
proof -
  assume n: "safe_name n"
  have "CHR ''/'' \<notin> set (pad3 k @ ''-cmd.sh'')" by simp
  then have "cut_last (CHR ''/'') (namespace_dir idx n @ CHR ''/'' # pad3 k @ ''-cmd.sh'')
      = Some (namespace_dir idx n, pad3 k @ ''-cmd.sh'')" by (rule cut_last_append)
  moreover have "has_prefix (namespace_dir idx n @ CHR ''/'' # pad3 k @ ''-cmd.sh'') ''/''"
    by (simp add: namespace_dir_def DurableStartupDir_def)
  ultimately show ?thesis by (simp add: path_Dir_def path_of_dir [OF n])
qed

lemma script_suffix: "has_suffix (script_path idx n k) ''-cmd.sh''"
  using has_suffix_append [of "namespace_dir idx n @ ''/'' @ pad3 k" "''-cmd.sh''"] by simp

lemma pad3_dash_inj: "pad3 i @ CHR ''-'' # n = pad3 j @ CHR ''-'' # m \<longleftrightarrow> i = j \<and> n = m"
proof
  assume eq: "pad3 i @ CHR ''-'' # n = pad3 j @ CHR ''-'' # m"
  have a: "cut_at (CHR ''-'') (pad3 i @ CHR ''-'' # n) = Some (pad3 i, n)"
    and b: "cut_at (CHR ''-'') (pad3 j @ CHR ''-'' # m) = Some (pad3 j, m)" by simp_all
  have "Some (pad3 i, n) = Some (pad3 j, m)" using trans [OF sym [OF a [unfolded eq]] b] .
  then show "i = j \<and> n = m" by simp
qed simp

lemma namespace_dir_inj [simp]: "namespace_dir i n = namespace_dir j m \<longleftrightarrow> i = j \<and> n = m"
  using pad3_dash_inj [of i n j m] by (simp add: namespace_dir_def)



section \<open>The layout as a function of the registrations\<close>

text \<open>
  The specification keeps the registered scripts in their order, each with the name of its namespace.
  The default namespace has number 0, the others are numbered from 1 on by their first registration.
\<close>

fun first_names :: "string list \<Rightarrow> (string \<times> 'c) list \<Rightarrow> string list" where
  "first_names acc [] = acc"
| "first_names acc ((n, c) # es) =
     first_names (if n = defaultDurableNamespace \<or> n \<in> set acc then acc else acc @ [n]) es"

fun position :: "string \<Rightarrow> string list \<Rightarrow> nat" where
  "position n [] = 0"
| "position n (m # ms) = (if n = m then 0 else Suc (position n ms))"

definition number_of :: "(string \<times> 'c) list \<Rightarrow> string \<Rightarrow> nat" where
  "number_of es n = (if n = defaultDurableNamespace then 0 else Suc (position n (first_names [] es)))"

definition count_of :: "(string \<times> 'c) list \<Rightarrow> string \<Rightarrow> nat" where
  "count_of es n = length (filter (\<lambda>e. fst e = n) es)"

definition script_of :: "(string \<times> string) list \<Rightarrow> (string \<times> string) list \<Rightarrow> string \<times> string \<Rightarrow> sdk_file" where
  "script_of all earlier e = script_file (namespace_dir (number_of all (fst e)) (fst e)) (count_of earlier (fst e)) (snd e)"

fun scripts_onto :: "(string \<times> string) list \<Rightarrow> (string \<times> string) list \<Rightarrow> (string \<times> string) list \<Rightarrow> sdk_file list" where
  "scripts_onto all earlier [] = []"
| "scripts_onto all earlier (e # es) = script_of all earlier e # scripts_onto all (earlier @ [e]) es"

definition scripts :: "(string \<times> string) list \<Rightarrow> sdk_file list" where
  "scripts es = scripts_onto es [] es"

lemma first_names_append: "first_names acc (xs @ ys) = first_names (first_names acc xs) ys"
  by (induction acc xs rule: first_names.induct) auto

lemma first_names_set: "set (first_names acc es) = set acc \<union> (fst ` set es - {defaultDurableNamespace})"
  by (induction acc es rule: first_names.induct) auto

lemma first_names_grow: "\<exists>zs. first_names acc es = acc @ zs"
  by (induction acc es rule: first_names.induct) auto

lemma position_append: "n \<in> set xs \<Longrightarrow> position n (xs @ ys) = position n xs"
  by (induction xs) auto

lemma position_new: "n \<notin> set xs \<Longrightarrow> position n (xs @ [n]) = length xs"
  by (induction xs) auto

lemma number_of_grow: "n \<in> fst ` set es \<Longrightarrow> number_of (es @ fs) n = number_of es n"
proof (cases "n = defaultDurableNamespace")
  case False
  assume n: "n \<in> fst ` set es"
  obtain zs where "first_names [] (es @ fs) = first_names [] es @ zs"
    using first_names_grow [of "first_names [] es" fs] by (auto simp: first_names_append)
  moreover have "n \<in> set (first_names [] es)" using n False by (simp add: first_names_set)
  ultimately show ?thesis by (simp add: number_of_def position_append)
qed (simp add: number_of_def)

lemma number_of_new:
  assumes "n \<notin> fst ` set es" and "n \<noteq> defaultDurableNamespace"
  shows "number_of (es @ (n, c) # fs) n = Suc (length (first_names [] es))"
proof -
  have "n \<notin> set (first_names [] es)" using assms(1) by (simp add: first_names_set)
  then have "number_of (es @ [(n, c)]) n = Suc (length (first_names [] es))"
    using assms(2) by (simp add: number_of_def first_names_append position_new)
  moreover have "number_of ((es @ [(n, c)]) @ fs) n = number_of (es @ [(n, c)]) n"
    by (rule number_of_grow) simp
  ultimately show ?thesis by simp
qed

lemma scripts_onto_cong:
  "(\<And>n. n \<in> fst ` set es \<Longrightarrow> number_of all n = number_of all' n) \<Longrightarrow> scripts_onto all earlier es = scripts_onto all' earlier es"
  by (induction es arbitrary: earlier) (auto simp: script_of_def)

lemma scripts_onto_append:
  "scripts_onto all earlier (xs @ ys) = scripts_onto all earlier xs @ scripts_onto all (earlier @ xs) ys"
  by (induction xs arbitrary: earlier) auto

lemma scripts_append:
  "scripts (es @ fs) = scripts es @ scripts_onto (es @ fs) es fs"
proof -
  have "scripts_onto (es @ fs) [] es = scripts_onto es [] es"
    by (rule scripts_onto_cong) (rule number_of_grow)
  then show ?thesis by (simp add: scripts_def scripts_onto_append)
qed

text \<open>What is read back from the files of the specification.\<close>

lemma script_of_path:
  "fi_ContainerPath (script_of all earlier e) = script_path (number_of all (fst e)) (fst e) (count_of earlier (fst e))"
  by (simp add: script_of_def script_file_def)

lemma known_names_append: "known_names (xs @ ys) known = known_names ys (known_names xs known)"
  by (induction xs known rule: known_names.induct) (auto split: option.split)

definition agrees :: "(string \<times> string) list \<Rightarrow> (string \<times> string) list \<Rightarrow> (string \<times> nat) list \<Rightarrow> bool" where
  "agrees all es known =
     (fst ` set known = fst ` set es \<and> (\<forall>(n, i)\<in>set known. i = number_of all n)
      \<and> map fst (filter (\<lambda>(n, i). n \<noteq> defaultDurableNamespace) known) = first_names [] es)"

lemma known_names_scripts:
  assumes "\<forall>e\<in>set fs. safe_name (fst e)" and "agrees all es known"
  shows "agrees all (es @ fs) (known_names (scripts_onto all es fs) known)"
  using assms
proof (induction fs arbitrary: es known)
  case (Cons e fs)
  obtain n c where e: "e = (n, c)" by (cases e)
  let ?i = "number_of all n"
  let ?known = "if map_of known n \<noteq> None then known else known @ [(n, ?i)]"
  have ns: "namespace_of (fi_ContainerPath (script_of all es e)) = Some (n, ?i)"
    unfolding script_of_path e fst_conv using Cons.prems(1) e by (intro namespace_of_script) simp
  have dom: "map_of known n = None \<longleftrightarrow> n \<notin> fst ` set es"
    using Cons.prems(2) by (simp add: agrees_def map_of_eq_None_iff)
  have fn: "n \<in> set (first_names [] es) \<longleftrightarrow> n \<in> fst ` set es \<and> n \<noteq> defaultDurableNamespace"
    by (auto simp: first_names_set)
  have "agrees all (es @ [e]) ?known"
    using Cons.prems(2) dom fn by (auto simp: agrees_def e first_names_append)
  from Cons.IH [OF _ this] Cons.prems(1) have "agrees all ((es @ [e]) @ fs) (known_names (scripts_onto all (es @ [e]) fs) ?known)"
    by simp
  then show ?case using ns by (auto simp: e split: if_splits)
qed simp


text \<open>Files of the caller that have nothing to do with the startup directory.\<close>

definition foreign :: "sdk_file \<Rightarrow> bool" where
  "foreign f = (\<not> has_prefix (fi_ContainerPath f) DurableStartupDir
     \<and> \<not> has_prefix (path_Dir (fi_ContainerPath f)) DurableStartupDir)"

text \<open>
  The invariant: the files are foreign ones, the dispatcher (exactly when something was registered),
  and the scripts of the specification in their order.
\<close>

definition layout :: "sdk_file list \<Rightarrow> (string \<times> string) list \<Rightarrow> bool" where
  "layout files es =
     (filter (\<lambda>f. \<not> foreign f \<and> f \<noteq> dispatcher_file) files = scripts es
      \<and> (dispatcher_file \<in> set files \<longleftrightarrow> es \<noteq> [])
      \<and> (\<forall>e\<in>set es. safe_name (fst e)))"

lemma foreign_no_namespace: "foreign f \<Longrightarrow> namespace_of (fi_ContainerPath f) = None"
proof -
  assume f: "foreign f"
  have "has_prefix p (DurableStartupDir @ ''/'') \<Longrightarrow> has_prefix p DurableStartupDir" for p
    by (auto simp: has_prefix_iff)
  with f show ?thesis by (auto simp: namespace_of_def foreign_def Let_def)
qed

lemma dispatcher_path: "fi_ContainerPath dispatcher_file = DurableStartupDispatcherPath"
  by (simp add: dispatcher_file_def)

lemma dispatcher_no_namespace: "namespace_of (fi_ContainerPath dispatcher_file) = None"
  by (simp add: namespace_of_def dispatcher_path Let_def)

lemma known_names_filter:
  "(\<And>f. f \<in> set fs \<Longrightarrow> \<not> P f \<Longrightarrow> namespace_of (fi_ContainerPath f) = None) \<Longrightarrow>
     known_names (filter P fs) known = known_names fs known"
proof (induction fs known rule: known_names.induct)
  case (2 f fs known)
  then show ?case by (auto split: option.split)
qed simp

lemma layout_known:
  assumes "layout files es"
  shows "agrees es es (known_names files [])"
proof -
  have "known_names (filter (\<lambda>f. \<not> foreign f \<and> f \<noteq> dispatcher_file) files) [] = known_names files []"
    by (rule known_names_filter) (auto simp: foreign_no_namespace dispatcher_no_namespace)
  then have "known_names (scripts es) [] = known_names files []"
    using assms by (simp add: layout_def)
  moreover have "agrees es ([] @ es) (known_names (scripts_onto es [] es) [])"
    using assms by (intro known_names_scripts) (auto simp: layout_def agrees_def)
  ultimately show ?thesis by (simp add: scripts_def)
qed

lemma agrees_lookup:
  assumes "agrees all es known"
  shows "map_of known n = (if n \<in> fst ` set es then Some (number_of all n) else None)"
proof (cases "map_of known n")
  case None
  then have "n \<notin> fst ` set known" by (simp add: map_of_eq_None_iff)
  with None assms show ?thesis by (simp add: agrees_def)
next
  case (Some i)
  then have "(n, i) \<in> set known" by (rule map_of_SomeD)
  then have "n \<in> fst ` set known" by force
  with assms have "n \<in> fst ` set es" by (simp add: agrees_def)
  moreover from assms \<open>(n, i) \<in> set known\<close> have "i = number_of all n" by (auto simp: agrees_def)
  ultimately show ?thesis using Some by simp
qed

lemma scripts_path:
  assumes "f \<in> set (scripts_onto all earlier es)"
  shows "\<exists>e k. e \<in> set es \<and> f = script_file (namespace_dir (number_of all (fst e)) (fst e)) k (snd e)"
  using assms
proof (induction all earlier es rule: scripts_onto.induct)
  case (2 all earlier e es)
  show ?case
  proof (cases "f = script_of all earlier e")
    case True
    then show ?thesis unfolding script_of_def by (metis list.set_intros(1))
  next
    case False
    with 2 show ?thesis by (metis list.set_intros(2) scripts_onto.simps(2) set_ConsD)
  qed
qed simp

lemma foreign_not_dispatcher: "foreign f \<Longrightarrow> fi_ContainerPath f \<noteq> DurableStartupDispatcherPath"
  by (auto simp: foreign_def DurableStartupDispatcherPath_def)

lemma layout_dispatcher:
  assumes "layout files es"
  shows "list_ex (\<lambda>f. fi_ContainerPath f = DurableStartupDispatcherPath) files \<longleftrightarrow> es \<noteq> []"
proof
  assume "es \<noteq> []"
  with assms have "dispatcher_file \<in> set files" by (simp add: layout_def)
  then show "list_ex (\<lambda>f. fi_ContainerPath f = DurableStartupDispatcherPath) files"
    using dispatcher_path by (auto simp: list_ex_iff)
next
  assume "list_ex (\<lambda>f. fi_ContainerPath f = DurableStartupDispatcherPath) files"
  then obtain f where f: "f \<in> set files" "fi_ContainerPath f = DurableStartupDispatcherPath"
    by (auto simp: list_ex_iff)
  then have nf: "\<not> foreign f" using foreign_not_dispatcher by blast
  show "es \<noteq> []"
  proof (cases "f = dispatcher_file")
    case True
    with f assms show ?thesis by (simp add: layout_def)
  next
    case False
    with f nf have "f \<in> set (filter (\<lambda>f. \<not> foreign f \<and> f \<noteq> dispatcher_file) files)" by simp
    with assms have "f \<in> set (scripts es)" by (simp add: layout_def)
    with scripts_path [of f es "[]" es] f(2) script_path_not_dispatcher show ?thesis
      by (auto simp: scripts_def)
  qed
qed

lemma resolve_layout:
  assumes "layout files es"
  shows "resolveDurableNamespaceDir files name =
     (namespace_dir (number_of (es @ [(name, c)]) name) name, es \<noteq> [])"
proof -
  have ag: "agrees es es (known_names files [])" by (rule layout_known [OF assms])
  have look: "map_of (known_names files []) name = (if name \<in> fst ` set es then Some (number_of es name) else None)"
    by (rule agrees_lookup [OF ag])
  have len: "length (filter (\<lambda>(n, i). n \<noteq> defaultDurableNamespace) (known_names files [])) = length (first_names [] es)"
    using ag by (metis agrees_def length_map)
  show ?thesis
  proof (cases "name \<in> fst ` set es")
    case True
    with look layout_dispatcher [OF assms] show ?thesis
      by (simp add: resolveDurableNamespaceDir_def number_of_grow)
  next
    case False
    with look len layout_dispatcher [OF assms] show ?thesis
      using number_of_new [OF False, of c "[]"]
      by (simp add: resolveDurableNamespaceDir_def number_of_def)
  qed
qed


lemma count_append: "count_of (xs @ ys) n = count_of xs n + count_of ys n"
  by (simp add: count_of_def)

lemma path_Dir_dispatcher: "path_Dir DurableStartupDispatcherPath = DurableStartupDir"
  by (simp add: path_Dir_def DurableStartupDispatcherPath_def DurableStartupDir_def path_of_def show_path_def)

lemma namespace_dir_prefix: "has_prefix (namespace_dir i n) DurableStartupDir"
  unfolding namespace_dir_def by (rule has_prefix_append)

lemma namespace_dir_not_root: "namespace_dir i n \<noteq> DurableStartupDir"
  by (simp add: namespace_dir_def)

definition is_script_in :: "string \<Rightarrow> sdk_file \<Rightarrow> bool" where
  "is_script_in d f = (path_Dir (fi_ContainerPath f) = d \<and> has_suffix (fi_ContainerPath f) ''-cmd.sh'')"

lemma script_of_in:
  assumes "safe_name (fst e)"
  shows "is_script_in (namespace_dir i n) (script_of all earlier e) \<longleftrightarrow> fst e = n \<and> number_of all n = i"
  unfolding is_script_in_def script_of_path path_Dir_script [OF assms]
  by (auto simp del: append_Cons append.simps intro: script_suffix)

lemma count_scripts:
  assumes "\<forall>e\<in>set es. safe_name (fst e)" and "n \<in> fst ` set es \<Longrightarrow> number_of all n = i"
  shows "length (filter (is_script_in (namespace_dir i n)) (scripts_onto all earlier es)) = count_of es n"
  using assms
proof (induction es arbitrary: earlier)
  case Nil
  then show ?case by (simp add: count_of_def)
next
  case (Cons e es)
  have "length (filter (is_script_in (namespace_dir i n)) (scripts_onto all (earlier @ [e]) es)) = count_of es n"
    using Cons by auto
  moreover have "is_script_in (namespace_dir i n) (script_of all earlier e) \<longleftrightarrow> fst e = n"
    using Cons.prems script_of_in [of e i n all earlier] by auto
  ultimately show ?case by (simp add: count_of_def)
qed

lemma next_index_layout:
  assumes "layout files es"
  shows "nextDurableCmdIndex files (namespace_dir (number_of (es @ [(n, c)]) n) n) = count_of es n"
proof -
  let ?i = "number_of (es @ [(n, c)]) n"
  let ?P = "is_script_in (namespace_dir ?i n)" and ?Q = "\<lambda>f. \<not> foreign f \<and> f \<noteq> dispatcher_file"
  have PQ: "?P f \<Longrightarrow> ?Q f" for f
    using namespace_dir_prefix [of ?i n] namespace_dir_not_root [of ?i n]
    by (auto simp: is_script_in_def foreign_def dispatcher_path path_Dir_dispatcher)
  have "filter ?P files = filter ?P (filter ?Q files)"
    by (induction files) (auto dest: PQ)
  with assms have "filter ?P files = filter ?P (scripts_onto es [] es)" by (simp add: layout_def scripts_def)
  moreover have "length (filter ?P (scripts_onto es [] es)) = count_of es n"
    using assms by (intro count_scripts) (auto simp: layout_def number_of_grow)
  moreover have "nextDurableCmdIndex files (namespace_dir ?i n) = length (filter ?P files)"
    by (simp add: nextDurableCmdIndex_def is_script_in_def [abs_def])
  ultimately show ?thesis by simp
qed

lemma script_files_onto:
  assumes "number_of all n = i"
  shows "script_files (namespace_dir i n) (count_of earlier n) contents
    = scripts_onto all earlier (map (Pair n) contents)"
proof (induction contents arbitrary: earlier)
  case (Cons c cs)
  have "count_of earlier n + 1 = count_of (earlier @ [(n, c)]) n" by (simp add: count_of_def)
  with Cons [of "earlier @ [(n, c)]"] assms show ?case
    by (simp add: script_of_def)
qed simp

lemma script_not_foreign:
  "\<not> foreign (script_of all earlier e)" "script_of all earlier e \<noteq> dispatcher_file"
proof -
  have "has_prefix (script_path i n k) DurableStartupDir" for i n k
    using has_prefix_append [of DurableStartupDir] by (simp add: namespace_dir_def)
  then show "\<not> foreign (script_of all earlier e)" unfolding foreign_def script_of_path by simp
  show "script_of all earlier e \<noteq> dispatcher_file"
    using script_path_not_dispatcher script_of_path dispatcher_path by metis
qed

lemma filter_scripts:
  "filter (\<lambda>f. \<not> foreign f \<and> f \<noteq> dispatcher_file) (scripts_onto all earlier es) = scripts_onto all earlier es"
  "dispatcher_file \<notin> set (scripts_onto all earlier es)"
  by (induction es arbitrary: earlier) (auto simp: script_not_foreign script_not_foreign(2) [symmetric])

lemma dispatcher_not_foreign: "\<not> foreign dispatcher_file"
  using has_prefix_append [of DurableStartupDir] by (simp add: foreign_def dispatcher_path DurableStartupDispatcherPath_def)

text \<open>One registration appends its rendered scripts to the specification.\<close>

lemma appendDurableScripts_layout:
  assumes "layout files es" and "safe_name name" and "appendDurableScripts files name execs = Ok files'"
  shows "\<exists>contents. render_all name 0 execs = Ok contents \<and> contents \<noteq> [] \<and> layout files' (es @ map (Pair name) contents)"
proof -
  from assms(3) obtain contents where r: "render_all name 0 execs = Ok contents" and ne: "execs \<noteq> []"
    and f: "(case resolveDurableNamespaceDir files name of
          (nsDir, dispatcherPresent) \<Rightarrow>
            Ok (files @ script_files nsDir (nextDurableCmdIndex files nsDir) contents
                @ (if dispatcherPresent then [] else [dispatcher_file]))) = Ok files'"
    by (auto simp: appendDurableScripts_def then_do_Ok_iff split: if_splits)
  have len: "render_all name i xs = Ok cs \<Longrightarrow> length cs = length xs" for i xs cs
    by (induction name i xs arbitrary: cs rule: render_all.induct) (auto simp: outcome_simps)
  have cne: "contents \<noteq> []" using len [OF r] ne by auto
  then obtain c cs where c: "contents = c # cs" by (cases contents) auto
  let ?all = "es @ map (Pair name) contents"
  have num: "number_of ?all name = number_of (es @ [(name, c)]) name"
    using number_of_grow [of name "es @ [(name, c)]" "map (Pair name) cs"] c by simp
  have files': "files' = files @ scripts_onto ?all es (map (Pair name) contents)
      @ (if es \<noteq> [] then [] else [dispatcher_file])"
    using f resolve_layout [OF assms(1), of name c] next_index_layout [OF assms(1), of name c]
      script_files_onto [OF num, of es contents] by simp
  have "layout files' ?all"
    using assms(1,2) cne
    by (auto simp: layout_def files' scripts_append filter_scripts dispatcher_not_foreign)
  with r cne show ?thesis by blast
qed



section \<open>The order of the paths\<close>

lemma append_less_append:
  fixes p q :: string
  shows "length p = length q \<Longrightarrow> p @ r < q @ s \<longleftrightarrow> p < q \<or> (p = q \<and> r < s)"
  by (induction p q rule: list_induct2) auto

lemma digit_char_less: "d < 10 \<Longrightarrow> e < 10 \<Longrightarrow> digit_char d < digit_char e \<longleftrightarrow> d < e"
  by (simp add: less_char_def)

lemma digit_char_eq: "d < 10 \<Longrightarrow> e < 10 \<Longrightarrow> digit_char d = digit_char e \<longleftrightarrow> d = e"
  by (metis digit_val_digit_char option.inject)

lemma show_nat_small: "n < 10 \<Longrightarrow> show_nat n = [digit_char n]"
  by (subst show_nat.simps) simp

lemma pad3_digits_eq:
  assumes "n < 1000"
  shows "pad3 n = [digit_char (n div 100), digit_char (n div 10 mod 10), digit_char (n mod 10)]"
proof -
  have zero: "CHR ''0'' = digit_char 0" by code_simp
  consider "n < 10" | "10 \<le> n" "n < 100" | "100 \<le> n" by linarith
  then show ?thesis
  proof cases
    case 1
    then show ?thesis by (simp add: pad3_def show_nat_small zero numeral_2_eq_2 del: digit_char.simps)
  next
    case 2
    then have "show_nat n = [digit_char (n div 10), digit_char (n mod 10)]"
      by (subst show_nat.simps) (simp add: show_nat_small del: digit_char.simps)
    with 2 show ?thesis by (simp add: pad3_def zero del: digit_char.simps)
  next
    case 3
    with assms have "show_nat (n div 10) = [digit_char (n div 100), digit_char (n div 10 mod 10)]"
      by (subst show_nat.simps) (simp add: show_nat_small div_mult2_eq [symmetric] del: digit_char.simps)
    with 3 have "show_nat n = [digit_char (n div 100), digit_char (n div 10 mod 10), digit_char (n mod 10)]"
      by (subst show_nat.simps) (simp del: digit_char.simps)
    then show ?thesis by (simp add: pad3_def del: digit_char.simps)
  qed
qed

lemma three_digits: "(n :: nat) = 100 * (n div 100) + 10 * (n div 10 mod 10) + n mod 10"
proof -
  have "n div 100 = n div 10 div 10" by (simp add: div_mult2_eq [symmetric])
  moreover have "n = 10 * (n div 10) + n mod 10" "n div 10 = 10 * (n div 10 div 10) + n div 10 mod 10"
    by simp_all
  ultimately show ?thesis by linarith
qed

lemma pad3_less:
  assumes "m < 1000" and "n < 1000"
  shows "pad3 m < pad3 n \<longleftrightarrow> m < n"
proof -
  have d: "m div 100 < 10" "n div 100 < 10" "m div 10 mod 10 < 10" "n div 10 mod 10 < 10" "m mod 10 < 10" "n mod 10 < 10"
    using assms by auto
  have "pad3 m < pad3 n \<longleftrightarrow> m div 100 < n div 100 \<or> (m div 100 = n div 100 \<and>
     (m div 10 mod 10 < n div 10 mod 10 \<or> (m div 10 mod 10 = n div 10 mod 10 \<and> m mod 10 < n mod 10)))"
    unfolding pad3_digits_eq [OF assms(1)] pad3_digits_eq [OF assms(2)]
    using d by (simp add: digit_char_less digit_char_eq del: digit_char.simps)
  also have "\<dots> \<longleftrightarrow> m < n"
  proof -
    have m: "m = 100 * (m div 100) + 10 * (m div 10 mod 10) + m mod 10"
      and n: "n = 100 * (n div 100) + 10 * (n div 10 mod 10) + n mod 10"
      using three_digits by blast+
    define a b c a' b' c' where "a = m div 100" and "b = m div 10 mod 10" and "c = m mod 10"
      and "a' = n div 100" and "b' = n div 10 mod 10" and "c' = n mod 10"
    then have "m = 100 * a + 10 * b + c" "n = 100 * a' + 10 * b' + c'" "b < 10" "c < 10" "b' < 10" "c' < 10"
      using m n by simp_all
    then show ?thesis
      unfolding a_def [symmetric] b_def [symmetric] c_def [symmetric] a'_def [symmetric] b'_def [symmetric] c'_def [symmetric]
      by linarith
  qed
  finally show ?thesis .
qed

lemma pad3_length: "n < 1000 \<Longrightarrow> length (pad3 n) = 3"
  by (simp add: pad3_digits_eq)

lemma script_path_less:
  assumes "i < 1000" "j < 1000" "k < 1000" "l < 1000" and "i = j \<Longrightarrow> n = m"
  shows "script_path i n k < script_path j m l \<longleftrightarrow> i < j \<or> (i = j \<and> k < l)"
proof -
  let ?d = "DurableStartupDir @ ''/''"
  have sp: "script_path a x b = ?d @ pad3 a @ (''-'' @ x @ ''/'') @ pad3 b @ ''-cmd.sh''" for a x b
    by (simp add: namespace_dir_def)
  have irrefl: "\<not> s < s" for s :: string by simp
  have head: "?d @ x < ?d @ y \<longleftrightarrow> x < y" for x y
    by (subst append_less_append) (simp_all only: irrefl simp_thms)
  have num: "pad3 i @ x < pad3 j @ y \<longleftrightarrow> i < j \<or> (i = j \<and> x < y)" for x y
    by (subst append_less_append) (use assms in \<open>simp_all add: pad3_length pad3_less\<close>)
  have cnt: "pad3 k @ x < pad3 l @ x \<longleftrightarrow> k < l" for x
    by (subst append_less_append) (use assms in \<open>simp_all add: pad3_length pad3_less\<close>)
  have mid: "x @ y < x @ z \<longleftrightarrow> y < z" for x y z :: string
    by (subst append_less_append) (simp_all only: irrefl simp_thms)
  show ?thesis
    unfolding sp head num using assms(5) by (auto simp only: mid cnt)
qed

lemma position_inj: "n \<in> set ms \<Longrightarrow> m \<in> set ms \<Longrightarrow> position n ms = position m ms \<Longrightarrow> n = m"
  by (induction ms) (auto split: if_splits)

lemma number_of_inj:
  assumes "n \<in> fst ` set es" and "m \<in> fst ` set es" and "number_of es n = number_of es m"
  shows "n = m"
proof (cases "n = defaultDurableNamespace \<or> m = defaultDurableNamespace")
  case True
  with assms(3) show ?thesis by (auto simp: number_of_def split: if_splits)
next
  case False
  with assms(1,2) have "n \<in> set (first_names [] es)" "m \<in> set (first_names [] es)"
    by (auto simp: first_names_set)
  with assms(3) False show ?thesis by (auto simp: number_of_def dest: position_inj)
qed

lemma scripts_nth: "i < length es \<Longrightarrow> scripts_onto all earlier es ! i = script_of all (earlier @ take i es) (es ! i)"
proof (induction es arbitrary: i earlier)
  case (Cons e es)
  then show ?case by (cases i) auto
qed simp

lemma count_take_grow:
  assumes "a < b" and "b \<le> length es"
  shows "count_of (take a es) (fst (es ! a)) < count_of (take b es) (fst (es ! a))"
proof -
  obtain k where b: "b = a + Suc k" using less_imp_Suc_add [OF assms(1)] by auto
  have "drop a es = es ! a # drop (Suc a) es"
    by (rule Cons_nth_drop_Suc [symmetric]) (use assms in linarith)
  then have "take b es = take a es @ es ! a # take k (drop (Suc a) es)"
    unfolding b take_add by (simp only: take_Suc_Cons)
  then have "count_of (take b es) (fst (es ! a)) =
      count_of (take a es) (fst (es ! a)) + count_of (es ! a # take k (drop (Suc a) es)) (fst (es ! a))"
    by (simp only: count_append)
  moreover have "0 < count_of (es ! a # take k (drop (Suc a) es)) (fst (es ! a))"
    by (simp add: count_of_def)
  ultimately show ?thesis by linarith
qed

text \<open>A sequence of registrations through the two options.\<close>

definition register :: "string \<times> executable option list \<Rightarrow> sdk_file list \<Rightarrow> sdk_file list outcome" where
  "register r files =
     (if fst r = defaultDurableNamespace then WithDurableStartupCommand (snd r) files
      else WithDurableStartupCommandsFromDir (fst r) (snd r) files)"

fun register_all :: "(string \<times> executable option list) list \<Rightarrow> sdk_file list \<Rightarrow> sdk_file list outcome" where
  "register_all [] files = Ok files"
| "register_all (r # rs) files = then_do (register r files) (register_all rs)"

definition rendered :: "string \<times> executable option list \<Rightarrow> (string \<times> string) list" where
  "rendered r = (case render_all (fst r) 0 (snd r) of Ok cs \<Rightarrow> map (Pair (fst r)) cs | _ \<Rightarrow> [])"

lemma register_layout:
  assumes "layout files es" and "register r files = Ok files'"
  shows "layout files' (es @ rendered r)"
proof -
  have "appendDurableScripts files (fst r) (snd r) = Ok files'" "safe_name (fst r)"
    using assms(2) default_safe namespace_safe
    by (auto simp: register_def WithDurableStartupCommand_def WithDurableStartupCommandsFromDir_def split: if_splits)
  from appendDurableScripts_layout [OF assms(1) this(2,1)] show ?thesis by (auto simp: rendered_def)
qed

lemma register_all_layout:
  "layout files es \<Longrightarrow> register_all rs files = Ok files' \<Longrightarrow> layout files' (es @ concat (map rendered rs))"
proof (induction rs arbitrary: files es)
  case (Cons r rs)
  from Cons.prems(2) obtain files1 where "register r files = Ok files1" "register_all rs files1 = Ok files'"
    by (auto simp: outcome_simps)
  with Cons.IH [OF register_layout [OF Cons.prems(1)]] show ?case by simp
qed simp

text \<open>
  C12: what the dispatcher finds. After any registrations that succeeded, on a definition whose other
  files are elsewhere, the files below the startup directory are the dispatcher and one script for every
  registered command, and the byte order of their paths, in which the dispatcher runs them, is: the
  default namespace first, then the namespaces by their first registration, and within a namespace the
  order of registration across all calls. The numbers have three digits: this holds below a thousand
  namespaces and a thousand commands in each.
\<close>

theorem durable_startup_order:
  assumes "list_all foreign files" and "register_all rs files = Ok files'"
    and "es = concat (map rendered rs)"
    and "\<forall>n. number_of es n < 1000 \<and> count_of es n < 1000"
  shows "filter (\<lambda>f. \<not> foreign f \<and> f \<noteq> dispatcher_file) files' = scripts es
     \<and> (dispatcher_file \<in> set files' \<longleftrightarrow> es \<noteq> [])
     \<and> (\<forall>i<length es. \<forall>j<length es.
          fi_Reader (scripts es ! i) = Some (snd (es ! i)) \<and>
          (fi_ContainerPath (scripts es ! i) < fi_ContainerPath (scripts es ! j) \<longleftrightarrow>
             number_of es (fst (es ! i)) < number_of es (fst (es ! j))
             \<or> (fst (es ! i) = fst (es ! j) \<and> i < j)))"
proof -
  have "layout files []"
    using assms(1) dispatcher_not_foreign
    by (auto simp: layout_def scripts_def list_all_iff filter_empty_conv)
  from register_all_layout [OF this assms(2)] assms(3) have lay: "layout files' es" by simp
  have order: "fi_ContainerPath (scripts es ! i) < fi_ContainerPath (scripts es ! j) \<longleftrightarrow>
      number_of es (fst (es ! i)) < number_of es (fst (es ! j)) \<or> (fst (es ! i) = fst (es ! j) \<and> i < j)"
    if i: "i < length es" and j: "j < length es" for i j
  proof -
    let ?n = "fst (es ! i)" and ?m = "fst (es ! j)"
    have mem: "?n \<in> fst ` set es" "?m \<in> fst ` set es" using i j by auto
    have small: "count_of (take k es) n < 1000" for k n
    proof -
      have "count_of es n = count_of (take k es) n + count_of (drop k es) n"
        using count_append [of "take k es" "drop k es" n] by simp
      with assms(4) show ?thesis by (metis add_lessD1)
    qed
    have lt: "count_of (take i es) ?n < count_of (take j es) ?n \<longleftrightarrow> i < j" if same: "?n = ?m"
    proof -
      show ?thesis
        using count_take_grow [of i j es] count_take_grow [of j i es] i j same
        by (cases i j rule: linorder_cases) auto
    qed
    have p1: "fi_ContainerPath (scripts es ! i) = script_path (number_of es ?n) ?n (count_of (take i es) ?n)"
      unfolding scripts_def scripts_nth [OF i] script_of_path by simp
    have p2: "fi_ContainerPath (scripts es ! j) = script_path (number_of es ?m) ?m (count_of (take j es) ?m)"
      unfolding scripts_def scripts_nth [OF j] script_of_path by simp
    have "fi_ContainerPath (scripts es ! i) < fi_ContainerPath (scripts es ! j) \<longleftrightarrow>
        number_of es ?n < number_of es ?m \<or>
        (number_of es ?n = number_of es ?m \<and> count_of (take i es) ?n < count_of (take j es) ?m)"
      unfolding p1 p2
      by (rule script_path_less) (use assms(4) small in blast, use assms(4) in blast, use small in blast,
        use small in blast, rule number_of_inj [OF mem])
    with lt number_of_inj [OF mem] show ?thesis by auto
  qed
  have "fi_Reader (scripts es ! i) = Some (snd (es ! i))" if "i < length es" for i
    using that by (simp add: scripts_def scripts_nth script_of_def script_file_def)
  with order lay show ?thesis by (simp add: layout_def)
qed


definition demo_exec :: "string \<Rightarrow> executable option" where
  "demo_exec s = Some \<lparr>xe_cmd = [s], xe_options = []\<rparr>"

theorem durable_startup_order_witness:
  "\<exists>files es. register_all [(''web'', [demo_exec ''b'']), (''default'', [demo_exec ''a''])] [] = Ok files
     \<and> map fst es = [''web'', ''default'']
     \<and> fi_ContainerPath (scripts es ! 1) < fi_ContainerPath (scripts es ! 0)"
proof -
  let ?rs = "[(''web'', [demo_exec ''b'']), (''default'', [demo_exec ''a''])]"
  let ?es = "concat (map rendered ?rs)"
  have ok: "\<exists>c. renderDurableScript (demo_exec s) = Ok c" for s
    by (simp add: renderDurableScript_def demo_exec_def zero_process_options_def zero_exec_config_def)
  from ok obtain a b where ab: "renderDurableScript (demo_exec ''a'') = Ok a" "renderDurableScript (demo_exec ''b'') = Ok b"
    by metis
  have es: "?es = [(''web'', b), (''default'', a)]" using ab by (simp add: rendered_def)
  have app: "\<exists>files'. appendDurableScripts files n [demo_exec s] = Ok files'" for files n s
    using ok [of s] by (auto simp: appendDurableScripts_def split: prod.split)
  have web: "durableNamespaceName ''web''"
    by (simp add: durableNamespaceName_def lower_or_digit_def is_dec_def code_def)
  obtain f1 where f1: "appendDurableScripts [] ''web'' [demo_exec ''b''] = Ok f1" using app by blast
  obtain f2 where f2: "appendDurableScripts f1 defaultDurableNamespace [demo_exec ''a''] = Ok f2" using app by blast
  have reg: "register_all ?rs [] = Ok f2"
    using f1 f2 web
    by (simp add: register_def WithDurableStartupCommand_def WithDurableStartupCommandsFromDir_def
        defaultDurableNamespace_def)
  have nums: "number_of ?es n = (if n = ''default'' then 0 else if n = ''web'' then 1 else 2)"
    "count_of ?es n \<le> 2" for n
    unfolding es by (auto simp: number_of_def count_of_def defaultDurableNamespace_def)
  have small: "\<forall>n. number_of ?es n < 1000 \<and> count_of ?es n < 1000"
  proof
    fix n
    show "number_of ?es n < 1000 \<and> count_of ?es n < 1000" using nums [of n] by simp
  qed
  from durable_startup_order [OF _ reg refl small]
  have "\<forall>i<length ?es. \<forall>j<length ?es.
      fi_ContainerPath (scripts ?es ! i) < fi_ContainerPath (scripts ?es ! j) \<longleftrightarrow>
        number_of ?es (fst (?es ! i)) < number_of ?es (fst (?es ! j)) \<or> (fst (?es ! i) = fst (?es ! j) \<and> i < j)"
    by simp
  from this [rule_format, of 1 0] have "fi_ContainerPath (scripts ?es ! 1) < fi_ContainerPath (scripts ?es ! 0)"
    using nums unfolding es by simp
  moreover have "map fst ?es = [''web'', ''default'']" unfolding es by simp
  ultimately show ?thesis using reg by (intro exI [of _ f2] exI [of _ ?es] conjI)
qed

end
