(* ===== verification/Wait_Core.thy ===== *)
theory Wait_Core
  imports Docker_Engine
begin

text \<open>
  What the wait strategies of package \<open>container/wait\<close> share: the target they look at (\<open>StrategyTarget\<close>),
  the check of its state (\<open>wait.go\<close>), and polling. A polling loop of the source is \<open>poll\<close> of one round,
  the body of its \<open>for\<close> statement: it either stops with an outcome or goes round again. A loop that
  goes round for ever does not return; as nothing after it runs, this is the outcome
  \<open>Panic never_returns\<close>, and \<open>poll_returns\<close> says when it cannot happen. Durations are in milliseconds
  and not negative.
\<close>

named_theorems wait_defs \<open>the strategies, for unfolding\<close>


section \<open>The target\<close>

definition zero_port :: port where
  "zero_port = \<lparr>po_num = 0, po_proto = ''''\<rparr>"

text \<open>
  The logs, and a file, are the bytes read until the reader ended and the error it ended with, if any. \<open>tg_Exec\<close> says
  whether the option \<open>Multiplexed\<close> is given. \<open>MappedPort\<close> gives the zero port with an error.
\<close>

record 'w target =
  tg_Host :: "gctx \<Rightarrow> (string, 'w) call"
  tg_Inspect :: "gctx \<Rightarrow> (container_inspected, 'w) call"
  tg_MappedPort :: "gctx \<Rightarrow> port \<Rightarrow> (port, 'w) call"
  tg_Logs :: "gctx \<Rightarrow> (string \<times> err option, 'w) call"
  tg_Exec :: "gctx \<Rightarrow> string list \<Rightarrow> bool \<Rightarrow> (int \<times> string, 'w) call"
  tg_State :: "gctx \<Rightarrow> (container_state, 'w) call"
  tg_CopyFromContainer :: "gctx \<Rightarrow> string \<Rightarrow> (string \<times> err option, 'w) call"

definition show_int :: "int \<Rightarrow> string" where
  "show_int i = (if i < 0 then CHR ''-'' # show_nat (nat (- i)) else show_nat (nat i))"

definition checkState :: "container_state \<Rightarrow> unit outcome" where
  "checkState st =
     (if st_Running st then Ok ()
      else if st_OOMKilled st then Err (Msg ''container crashed with out-of-memory (OOMKilled)'')
      else if st_Status st = ''exited'' then Err (Msg (''container exited with code '' @ show_int (st_ExitCode st)))
      else Err (Msg (''unexpected container status '' @ show_q (st_Status st))))"

definition checkTarget :: "gctx \<Rightarrow> 'w target \<Rightarrow> (unit, 'w) call" where
  "checkTarget ctx tg s = st_wrap ''get state'' (tg_State tg ctx s) (\<lambda>st s'. (checkState st, s'))"

definition defaultTimeout :: nat where
  "defaultTimeout = 60 * 1000"

definition defaultPollInterval :: nat where
  "defaultPollInterval = 100"

text \<open>The timeout of a strategy, or the default one.\<close>

definition timeout_or :: "nat option \<Rightarrow> nat" where
  "timeout_or d0 = (case d0 of None \<Rightarrow> defaultTimeout | Some d \<Rightarrow> d)"

definition sleep :: "nat \<Rightarrow> 'w clocked \<Rightarrow> 'w clocked" where
  "sleep d s = (fst s + d, snd s)"

lemma fst_sleep [simp]: "fst (sleep d s) = fst s + d"
  by (simp add: sleep_def)

lemma checkState_Ok [simp]: "checkState st = Ok u \<longleftrightarrow> st_Running st"
  by (simp add: checkState_def)

lemma checkState_Ok' [simp]: "Ok u = checkState st \<longleftrightarrow> st_Running st"
  by (auto simp: checkState_def)

lemma checkState_running: "st_Running st \<Longrightarrow> checkState st = Ok ()"
  by simp

lemma checkState_no_panic [simp]: "checkState st \<noteq> Panic p"
  by (simp add: checkState_def)


section \<open>Polling\<close>

datatype ('s, 'a) round = Again 's | Stop "'a outcome"

type_synonym ('s, 'a, 'w) rounds = "'s \<Rightarrow> 'w clocked \<Rightarrow> ('s, 'a) round \<times> 'w clocked"

definition never_returns :: string where
  "never_returns = ''never returns''"

partial_function (option) poll_loop ::
    "('s, 'a, 'w) rounds \<Rightarrow> 's \<Rightarrow> 'w clocked \<Rightarrow> ('a outcome \<times> 'w clocked) option" where
  "poll_loop body st s =
     (case body st s of
        (Stop r, s') \<Rightarrow> Some (r, s')
      | (Again st', s') \<Rightarrow> poll_loop body st' s')"

definition poll :: "('s, 'a, 'w) rounds \<Rightarrow> 's \<Rightarrow> ('a, 'w) call" where
  "poll body st s = (case poll_loop body st s of Some r \<Rightarrow> r | None \<Rightarrow> (Panic never_returns, s))"

text \<open>The states at the start of the rounds of a loop.\<close>

inductive reached :: "('s, 'a, 'w) rounds \<Rightarrow> 's \<times> 'w clocked \<Rightarrow> 's \<times> 'w clocked \<Rightarrow> bool"
  for body :: "('s, 'a, 'w) rounds" and c :: "'s \<times> 'w clocked" where
  start: "reached body c c"
| round: "reached body c (st, s) \<Longrightarrow> body st s = (Again st', s') \<Longrightarrow> reached body c (st', s')"

inductive_simps reached_start [simp]: "reached body c c"
inductive_cases reached_cases: "reached body c d"

lemma poll_loop_stop [simp]: "body st s = (Stop r, s') \<Longrightarrow> poll_loop body st s = Some (r, s')"
  by (subst poll_loop.simps) simp

lemma poll_loop_again: "body st s = (Again st', s') \<Longrightarrow> poll_loop body st s = poll_loop body st' s'"
  by (subst poll_loop.simps) simp

lemma poll_stop: "body st s = (Stop r, s') \<Longrightarrow> poll body st s = (r, s')"
  by (simp add: poll_def)

lemma reached_first:
  assumes "body st s = (Again st', s')" and "reached body (st', s') d"
  shows "reached body (st, s) d"
  using assms(2)
proof (induction rule: reached.induct)
  case start
  from reached.start assms(1) show ?case by (rule reached.round)
next
  case (round st1 s1 st2 s2)
  then show ?case by (blast intro: reached.round)
qed

lemma poll_loop_Some:
  assumes "poll_loop body st s = Some (r, s')"
  shows "\<exists>st1 s1. reached body (st, s) (st1, s1) \<and> body st1 s1 = (Stop r, s')"
proof -
  have "\<exists>st1 s1. reached body (st, s) (st1, s1) \<and> body st1 s1 = (Stop (fst rs), snd rs)"
    if "poll_loop body st s = Some rs" for rs
    using that
  proof (induct rule: poll_loop.raw_induct [rotated, consumes 1, case_names loop])
    case (loop go body st s rs)
    obtain q s1 where b: "body st s = (q, s1)" by (cases "body st s")
    show ?case
    proof (cases q)
      case (Stop x)
      with b loop(2) have "body st s = (Stop (fst rs), snd rs)" by auto
      with reached.start show ?thesis by blast
    next
      case (Again st')
      with b loop(2) have "go body st' s1 = Some rs" by simp
      from loop(1) [OF this] obtain st2 s2 where "reached body (st', s1) (st2, s2)"
        and stop: "body st2 s2 = (Stop (fst rs), snd rs)" by blast
      with b Again have "reached body (st, s) (st2, s2)" by (simp add: reached_first)
      with stop show ?thesis by blast
    qed
  qed
  from this [OF assms] show ?thesis by simp
qed

text \<open>
  What a loop did when it came back: it went round until a round stopped. The loop does come back when
  every round that goes on takes time and a round that starts at the deadline or later stops.
\<close>

lemma poll_result:
  assumes "poll body st s = (r, s')"
  obtains (never) "r = Panic never_returns" and "poll_loop body st s = None"
  | (stops) st1 s1 where "reached body (st, s) (st1, s1)" and "body st1 s1 = (Stop r, s')"
  using assms poll_loop_Some [of body st s] by (auto simp: poll_def split: option.splits)

lemma poll_loop_total:
  fixes m :: "'s \<Rightarrow> 'w clocked \<Rightarrow> nat"
  assumes "\<And>st s st' s'. body st s = (Again st', s') \<Longrightarrow> m st' s' < m st s"
  shows "\<exists>r. poll_loop body st s = Some r"
proof (induction "m st s" arbitrary: st s rule: less_induct)
  case less
  obtain q s1 where b: "body st s = (q, s1)" by (cases "body st s")
  show ?case
  proof (cases q)
    case (Stop r)
    with b show ?thesis by simp
  next
    case (Again st')
    with b assms have "m st' s1 < m st s" by blast
    from less [OF this] obtain r where "poll_loop body st' s1 = Some r" by blast
    with b Again show ?thesis by (metis poll_loop_again)
  qed
qed

lemma reached_forward:
  assumes "reached body c d" and "\<And>st s st' s'. body st s = (Again st', s') \<Longrightarrow> fst s \<le> fst s'"
  shows "fst (snd c) \<le> fst (snd d)"
  using assms(1) by induction (auto dest!: assms(2))


section \<open>Targets that answer\<close>

text \<open>A call that comes back, and does not turn back the clock. Running a command takes some time.\<close>

definition answers :: "('a, 'w) call \<Rightarrow> bool" where
  "answers f \<longleftrightarrow> (\<forall>s. fst (f s) \<noteq> Panic never_returns \<and> fst s \<le> fst (snd (f s)))"

definition answering :: "'w target \<Rightarrow> bool" where
  "answering tg \<longleftrightarrow>
     (\<forall>ctx. answers (tg_Host tg ctx) \<and> answers (tg_Inspect tg ctx) \<and> answers (tg_Logs tg ctx)
        \<and> answers (tg_State tg ctx) \<and> (\<forall>p. answers (tg_MappedPort tg ctx p))
        \<and> (\<forall>cmd m. answers (tg_Exec tg ctx cmd m) \<and> (\<forall>s. fst s < fst (snd (tg_Exec tg ctx cmd m s))))
        \<and> (\<forall>f. answers (tg_CopyFromContainer tg ctx f)))"

lemma answersI:
  "(\<And>s r s'. f s = (r, s') \<Longrightarrow> r \<noteq> Panic never_returns \<and> fst s \<le> fst s') \<Longrightarrow> answers f"
  unfolding answers_def by (metis prod.collapse)

lemma answersD: "answers f \<Longrightarrow> f s = (r, s') \<Longrightarrow> r \<noteq> Panic never_returns \<and> fst s \<le> fst s'"
  unfolding answers_def by (metis fst_conv snd_conv)

lemma poll_answers:
  fixes m :: "'s \<Rightarrow> 'w clocked \<Rightarrow> nat"
  assumes progress: "\<And>st s q s'. body st s = (q, s') \<Longrightarrow> fst s \<le> fst s'
     \<and> (case q of Again st' \<Rightarrow> m st' s' < m st s | Stop r \<Rightarrow> r \<noteq> Panic never_returns)"
  shows "answers (poll body st)"
proof (rule answersI)
  fix s r s' assume r: "poll body st s = (r, s')"
  have "\<exists>x. poll_loop body st s = Some x" by (intro poll_loop_total [where m = m]) (auto dest!: progress)
  then obtain x where x: "poll_loop body st s = Some x" by blast
  from r show "r \<noteq> Panic never_returns \<and> fst s \<le> fst s'"
  proof (cases rule: poll_result)
    case (stops st1 s1)
    have "fst s \<le> fst s1" using reached_forward [OF stops(1)] by (auto dest!: progress)
    with progress [OF stops(2)] show ?thesis by simp
  qed (use x in simp)
qed

lemma answers_fst: "answers f \<Longrightarrow> fst (f s) \<noteq> Panic never_returns"
  and answers_snd: "answers f \<Longrightarrow> fst s \<le> fst (snd (f s))"
  unfolding answers_def by blast+

lemma answers_return: "r \<noteq> Panic never_returns \<Longrightarrow> answers (\<lambda>s. (r, s))"
  by (simp add: answers_def)

lemma answers_st_do:
  assumes "answers f" and "\<And>x. answers (g x)"
  shows "answers (\<lambda>s. st_do (f s) g)"
proof (rule answersI)
  fix s r s' assume r: "st_do (f s) g = (r, s')"
  obtain a s1 where a: "f s = (a, s1)" by (cases "f s")
  note came = answersD [OF assms(1) a]
  show "r \<noteq> Panic never_returns \<and> fst s \<le> fst s'"
  proof (cases a)
    case (Ok x)
    with r a have "g x s1 = (r, s')" by simp
    from answersD [OF assms(2) this] came show ?thesis by simp
  qed (use a r came in \<open>auto\<close>)
qed

lemma answers_st_wrap:
  assumes "answers f" and "\<And>x. answers (g x)"
  shows "answers (\<lambda>s. st_wrap what (f s) g)"
proof (rule answersI)
  fix s r s' assume r: "st_wrap what (f s) g = (r, s')"
  obtain a s1 where a: "f s = (a, s1)" by (cases "f s")
  note came = answersD [OF assms(1) a]
  show "r \<noteq> Panic never_returns \<and> fst s \<le> fst s'"
  proof (cases a)
    case (Ok x)
    with r a have "g x s1 = (r, s')" by simp
    from answersD [OF assms(2) this] came show ?thesis by simp
  qed (use a r came in \<open>auto\<close>)
qed

lemma answers_at: "(\<And>x. answers (h x)) \<Longrightarrow> answers (\<lambda>s. h (f s) s)"
  by (rule answersI) (blast dest: answersD)

lemma answers_case_prod: "(\<And>a b. answers (f a b)) \<Longrightarrow> answers (\<lambda>s. case p of (a, b) \<Rightarrow> f a b s)"
  by (cases p) simp

lemma answers_if: "(b \<Longrightarrow> answers f) \<Longrightarrow> (\<not> b \<Longrightarrow> answers g) \<Longrightarrow> answers (\<lambda>s. if b then f s else g s)"
  by (cases b) simp_all

lemma answeringD:
  assumes "answering tg"
  shows "answers (tg_Host tg ctx)" "answers (tg_Inspect tg ctx)" "answers (tg_Logs tg ctx)"
    "answers (tg_State tg ctx)" "answers (tg_MappedPort tg ctx p)" "answers (tg_Exec tg ctx cmd m)"
    "answers (tg_CopyFromContainer tg ctx f)"
  using assms by (auto simp: answering_def)

lemma answering_Exec: "answering tg \<Longrightarrow> tg_Exec tg ctx cmd m s = (r, s') \<Longrightarrow> r \<noteq> Panic never_returns \<and> fst s < fst s'"
  unfolding answering_def using answersD by (metis snd_conv)

lemma answers_checkTarget:
  assumes "answering tg"
  shows "answers (checkTarget ctx tg)"
proof (rule answersI)
  fix s r s' assume r: "checkTarget ctx tg s = (r, s')"
  obtain q s1 where q: "tg_State tg ctx s = (q, s1)" by (cases "tg_State tg ctx s")
  with answersD [OF answeringD(4) [OF assms] q] r
  show "r \<noteq> Panic never_returns \<and> fst s \<le> fst s'"
    by (cases q) (auto simp: checkTarget_def)
qed

text \<open>The deadline of a context, where it has one.\<close>

lemma WithTimeout_due:
  obtains t e where "WithTimeout ctx now d = Some (t, e)" and "t \<le> now + d"
proof (cases ctx)
  case None
  then show ?thesis using that by (simp add: WithTimeout_def)
next
  case (Some te)
  obtain t e where "te = (t, e)" by (cases te)
  with Some show ?thesis using that by (cases "t \<le> now + d") (simp_all add: WithTimeout_def)
qed

lemma ctx_err_None_due: "ctx_err (Some (t, e)) now = None \<longleftrightarrow> now < t"
  by (auto simp: ctx_err_def)

lemma select_after_due: "select_after (Some (t, e)) d now = (None, t') \<Longrightarrow> now + d = t' \<and> t' < t"
  by (auto simp: select_after_def split: if_splits)


section \<open>What happens while a strategy waits\<close>

text \<open>
  A strategy only asks the target and lets time pass: \<open>seen\<close> relates a world to one in which it can be later,
  whatever was asked in between. The claims about strategies order what they saw by it.
\<close>

definition target_step :: "'w target \<Rightarrow> gctx \<Rightarrow> 'w clocked \<Rightarrow> 'w clocked \<Rightarrow> bool" where
  "target_step tg ctx s s' \<longleftrightarrow>
     (\<exists>r. tg_Host tg ctx s = (r, s')) \<or> (\<exists>r. tg_Inspect tg ctx s = (r, s')) \<or> (\<exists>p r. tg_MappedPort tg ctx p s = (r, s'))
   \<or> (\<exists>r. tg_Logs tg ctx s = (r, s')) \<or> (\<exists>cmd m r. tg_Exec tg ctx cmd m s = (r, s')) \<or> (\<exists>r. tg_State tg ctx s = (r, s'))
   \<or> (\<exists>f r. tg_CopyFromContainer tg ctx f s = (r, s')) \<or> (fst s \<le> fst s' \<and> snd s' = snd s)"

abbreviation seen :: "'w target \<Rightarrow> gctx \<Rightarrow> 'w clocked \<Rightarrow> 'w clocked \<Rightarrow> bool" where
  "seen tg ctx \<equiv> (target_step tg ctx)\<^sup>*\<^sup>*"

lemma seen_step: "target_step tg ctx s s' \<Longrightarrow> seen tg ctx s s'"
  by (rule r_into_rtranclp)

lemma seen_calls:
  "tg_Host tg ctx s = (a, s') \<Longrightarrow> seen tg ctx s s'" "tg_Inspect tg ctx s = (b, s') \<Longrightarrow> seen tg ctx s s'"
  "tg_MappedPort tg ctx p s = (c, s') \<Longrightarrow> seen tg ctx s s'" "tg_Logs tg ctx s = (d, s') \<Longrightarrow> seen tg ctx s s'"
  "tg_Exec tg ctx cmd m s = (x, s') \<Longrightarrow> seen tg ctx s s'" "tg_State tg ctx s = (y, s') \<Longrightarrow> seen tg ctx s s'"
  by (rule seen_step; unfold target_step_def; blast)+

lemma seen_time: "fst s \<le> t \<Longrightarrow> seen tg ctx s (t, snd s)" and seen_sleep: "seen tg ctx s (sleep n s)"
  by (rule seen_step; simp add: target_step_def sleep_def)+

lemma seen_checkTarget: "checkTarget ctx tg s = (r, s') \<Longrightarrow> seen tg ctx s s'"
  by (cases "tg_State tg ctx s"; cases "fst (tg_State tg ctx s)") (auto simp: checkTarget_def dest: seen_calls)

lemma seen_select: "select_after ctx d now = (x, t) \<Longrightarrow> seen tg ctx (now, w) (t, w)"
  by (rule seen_step) (auto simp: target_step_def select_after_def split: option.splits if_splits prod.splits)

lemma poll_Ok:
  assumes "poll body st s = (Ok x, s')"
  obtains st1 s1 where "reached body (st, s) (st1, s1)" and "body st1 s1 = (Stop (Ok x), s')"
  using assms by (cases rule: poll_result) auto

lemma reached_seen:
  assumes "reached body c d" and "\<And>st s q s'. body st s = (q, s') \<Longrightarrow> R\<^sup>*\<^sup>* s s'"
  shows "R\<^sup>*\<^sup>* (snd c) (snd d)"
  using assms(1)
proof induction
  case (round st s st' s')
  from round(3) assms(2) [OF round(2)] show ?case by simp
qed simp

lemma poll_Ok_seen:
  assumes "poll body st s = (Ok x, s')" and "\<And>st s q s'. body st s = (q, s') \<Longrightarrow> R\<^sup>*\<^sup>* s s'"
  obtains st1 s1 where "R\<^sup>*\<^sup>* s s1" and "body st1 s1 = (Stop (Ok x), s')"
proof -
  from assms(1) obtain st1 s1 where r: "reached body (st, s) (st1, s1)" and stop: "body st1 s1 = (Stop (Ok x), s')"
    by (rule poll_Ok)
  have "R\<^sup>*\<^sup>* (snd (st, s)) (snd (st1, s1))" by (rule reached_seen [OF r]) (rule assms(2))
  with stop that show thesis by simp
qed

end
