(* ===== verification/Wait_Strategies.thy ===== *)
theory Wait_Strategies
  imports Wait_Core
begin

text \<open>
  The strategies of package \<open>container/wait\<close> that look at the container alone: \<open>exit.go\<close>, \<open>health.go\<close>,
  \<open>file.go\<close>, \<open>exec.go\<close>, \<open>log.go\<close> and \<open>nop.go\<close>. Each has its record, its builders, \<open>String\<close> and
  \<open>WaitUntilReady\<close>, which is \<open>poll\<close> of the round that its \<open>for\<close> statement repeats. The functions a
  caller gives (matchers, callbacks) are values of the records.
\<close>


section \<open>The contract of a strategy\<close>

text \<open>
  A strategy that is well configured comes back on a target whose calls come back, whatever they answer,
  and does not turn back the clock.
\<close>

locale waiting =
  fixes well :: "'s \<Rightarrow> bool"
    and wait_for :: "'s \<Rightarrow> gctx \<Rightarrow> 'w target \<Rightarrow> (unit, 'w) call"
  assumes wait_answers: "well ws \<Longrightarrow> answering tg \<Longrightarrow> answers (wait_for ws ctx tg)"
begin

lemma returns: "well ws \<Longrightarrow> answering tg \<Longrightarrow> fst (wait_for ws ctx tg s) \<noteq> Panic never_returns"
  by (rule answers_fst [OF wait_answers])

lemma forward: "well ws \<Longrightarrow> answering tg \<Longrightarrow> fst s \<le> fst (snd (wait_for ws ctx tg s))"
  by (rule answers_snd [OF wait_answers])

end


section \<open>exit.go\<close>

record exit_strategy =
  xs_timeout :: "nat option"
  xs_PollInterval :: nat

definition NewExitStrategy :: exit_strategy where
  "NewExitStrategy = \<lparr>xs_timeout = None, xs_PollInterval = defaultPollInterval\<rparr>"

definition ForExit :: exit_strategy where
  "ForExit = NewExitStrategy"

definition Exit_WithTimeout :: "nat \<Rightarrow> exit_strategy \<Rightarrow> exit_strategy" where
  "Exit_WithTimeout d ws = ws\<lparr>xs_timeout := Some d\<rparr>"

definition Exit_WithPollInterval :: "nat \<Rightarrow> exit_strategy \<Rightarrow> exit_strategy" where
  "Exit_WithPollInterval d ws = ws\<lparr>xs_PollInterval := d\<rparr>"

definition Exit_String :: "exit_strategy \<Rightarrow> string" where
  "Exit_String ws = ''container to exit''"

definition exit_round :: "exit_strategy \<Rightarrow> gctx \<Rightarrow> 'w target \<Rightarrow> (unit, unit, 'w) rounds" where
  "exit_round ws ctx tg u s =
     (case ctx_err ctx (fst s) of
        Some e \<Rightarrow> (Stop (Err e), s)
      | None \<Rightarrow>
          (case tg_State tg ctx s of
             (Panic p, s') \<Rightarrow> (Stop (Panic p), s')
           | (Err e, s') \<Rightarrow>
               (if \<not> contains (err_text e) ''No such container'' then (Stop (Err e), s') else (Stop (Ok ()), s'))
           | (Ok st, s') \<Rightarrow>
               (if st_Running st then (Again (), sleep (xs_PollInterval ws) s') else (Stop (Ok ()), s'))))"

definition Exit_WaitUntilReady :: "exit_strategy \<Rightarrow> gctx \<Rightarrow> 'w target \<Rightarrow> (unit, 'w) call" where
  "Exit_WaitUntilReady ws ctx0 tg s =
     (let ctx = (case xs_timeout ws of None \<Rightarrow> ctx0 | Some d \<Rightarrow> WithTimeout ctx0 (fst s) d) in
      poll (exit_round ws ctx tg) () s)"


section \<open>health.go\<close>

record health_strategy =
  hs_timeout :: "nat option"
  hs_PollInterval :: nat

definition NewHealthStrategy :: health_strategy where
  "NewHealthStrategy = \<lparr>hs_timeout = None, hs_PollInterval = defaultPollInterval\<rparr>"

definition ForHealthCheck :: health_strategy where
  "ForHealthCheck = NewHealthStrategy"

definition Health_WithTimeout :: "nat \<Rightarrow> health_strategy \<Rightarrow> health_strategy" where
  "Health_WithTimeout d ws = ws\<lparr>hs_timeout := Some d\<rparr>"

definition Health_WithPollInterval :: "nat \<Rightarrow> health_strategy \<Rightarrow> health_strategy" where
  "Health_WithPollInterval d ws = ws\<lparr>hs_PollInterval := d\<rparr>"

definition Health_String :: "health_strategy \<Rightarrow> string" where
  "Health_String ws = ''container to become healthy''"

definition Healthy :: string where
  "Healthy = ''healthy''"

definition health_round :: "health_strategy \<Rightarrow> gctx \<Rightarrow> 'w target \<Rightarrow> (unit, unit, 'w) rounds" where
  "health_round ws ctx tg u s =
     (case ctx_err ctx (fst s) of
        Some e \<Rightarrow> (Stop (Err e), s)
      | None \<Rightarrow>
          (case tg_State tg ctx s of
             (Panic p, s') \<Rightarrow> (Stop (Panic p), s')
           | (Err e, s') \<Rightarrow> (Stop (Err e), s')
           | (Ok st, s') \<Rightarrow>
               (case checkState st of
                  Ok _ \<Rightarrow> (if st_Health st \<noteq> Some Healthy then (Again (), sleep (hs_PollInterval ws) s')
                          else (Stop (Ok ()), s'))
                | r \<Rightarrow> (Stop r, s'))))"

definition Health_WaitUntilReady :: "health_strategy \<Rightarrow> gctx \<Rightarrow> 'w target \<Rightarrow> (unit, 'w) call" where
  "Health_WaitUntilReady ws ctx tg s =
     poll (health_round ws (WithTimeout ctx (fst s) (timeout_or (hs_timeout ws))) tg) () s"


section \<open>file.go\<close>

text \<open>
  A ticker holds one tick that was not received yet: \<open>n\<close> is the time of the oldest one. Receiving at
  time \<open>t\<close> takes that tick; those between it and \<open>t\<close> were dropped.
\<close>

definition next_tick :: "nat \<Rightarrow> nat \<Rightarrow> nat \<Rightarrow> nat" where
  "next_tick period n t = n + period * ((t - n) div period + 1)"

definition select_tick :: "gctx \<Rightarrow> nat \<Rightarrow> 'w clocked \<Rightarrow> err option \<times> 'w clocked" where
  "select_tick ctx n s =
     (case select_after ctx (n - fst s) (fst s) of (e, t) \<Rightarrow> (e, (t, snd s)))"

definition bad_ticker :: string where
  "bad_ticker = ''non-positive interval for NewTicker''"

record 'w file_strategy =
  fs_timeout :: "nat option"
  fs_file :: string
  fs_pollInterval :: nat
  fs_matcher :: "(string \<times> err option \<Rightarrow> (unit, 'w) call) option"

definition NewFileStrategy :: "string \<Rightarrow> 'w file_strategy" where
  "NewFileStrategy file =
     \<lparr>fs_timeout = None, fs_file = file, fs_pollInterval = defaultPollInterval, fs_matcher = None\<rparr>"

definition ForFile :: "string \<Rightarrow> 'w file_strategy" where
  "ForFile file = NewFileStrategy file"

definition File_WithTimeout :: "nat \<Rightarrow> 'w file_strategy \<Rightarrow> 'w file_strategy" where
  "File_WithTimeout d ws = ws\<lparr>fs_timeout := Some d\<rparr>"

definition File_WithPollInterval :: "nat \<Rightarrow> 'w file_strategy \<Rightarrow> 'w file_strategy" where
  "File_WithPollInterval d ws = ws\<lparr>fs_pollInterval := d\<rparr>"

definition WithMatcher :: "(string \<times> err option \<Rightarrow> (unit, 'w) call) \<Rightarrow> 'w file_strategy \<Rightarrow> 'w file_strategy" where
  "WithMatcher m ws = ws\<lparr>fs_matcher := Some m\<rparr>"

definition File_String :: "'w file_strategy \<Rightarrow> string" where
  "File_String ws =
     (if fs_matcher ws \<noteq> None then ''file '' @ show_q (fs_file ws) @ '' to exist and match condition''
      else ''file '' @ show_q (fs_file ws) @ '' to exist'')"

definition matchFile :: "'w file_strategy \<Rightarrow> gctx \<Rightarrow> 'w target \<Rightarrow> (unit, 'w) call" where
  "matchFile ws ctx tg s =
     st_wrap ''copy from container'' (tg_CopyFromContainer tg ctx (fs_file ws) s) (\<lambda>rc s'.
       case fs_matcher ws of
         None \<Rightarrow> (Ok (), s')
       | Some m \<Rightarrow> st_wrap ''matcher'' (m rc s') (\<lambda>_ s''. (Ok (), s'')))"

text \<open>The state of the loop is the ticker.\<close>

definition file_round :: "'w file_strategy \<Rightarrow> gctx \<Rightarrow> 'w target \<Rightarrow> (nat, unit, 'w) rounds" where
  "file_round ws ctx tg n s =
     (case select_tick ctx n s of
        (Some e, s') \<Rightarrow> (Stop (Err e), s')
      | (None, s') \<Rightarrow>
          (case matchFile ws ctx tg s' of
             (Ok _, s'') \<Rightarrow> (Stop (Ok ()), s'')
           | (Panic p, s'') \<Rightarrow> (Stop (Panic p), s'')
           | (Err e, s'') \<Rightarrow>
               (if errors_is e ErrNotFound then (Again (next_tick (fs_pollInterval ws) n (fst s')), s'')
                else (Stop (Err (wrapf ''copy from container'' e)), s''))))"

definition File_WaitUntilReady :: "'w file_strategy \<Rightarrow> gctx \<Rightarrow> 'w target \<Rightarrow> (unit, 'w) call" where
  "File_WaitUntilReady ws ctx tg s =
     (if fs_pollInterval ws = 0 then (Panic bad_ticker, s)
      else poll (file_round ws (WithTimeout ctx (fst s) (timeout_or (fs_timeout ws))) tg)
             (fst s + fs_pollInterval ws) s)"


section \<open>exec.go\<close>

record exec_strategy =
  es_timeout :: "nat option"
  es_cmd :: "string list"
  es_ExitCodeMatcher :: "int \<Rightarrow> bool"
  es_ResponseMatcher :: "(string \<Rightarrow> bool) option"
  es_PollInterval :: nat
  es_retryOnError :: bool

definition defaultExitCodeMatcher :: "int \<Rightarrow> bool" where
  "defaultExitCodeMatcher exitCode \<longleftrightarrow> exitCode = 0"

definition NewExecStrategy :: "string list \<Rightarrow> exec_strategy" where
  "NewExecStrategy cmd =
     \<lparr>es_timeout = None, es_cmd = cmd, es_ExitCodeMatcher = defaultExitCodeMatcher,
      es_ResponseMatcher = Some (\<lambda>_. True), es_PollInterval = defaultPollInterval, es_retryOnError = False\<rparr>"

definition ForExec :: "string list \<Rightarrow> exec_strategy" where
  "ForExec cmd = NewExecStrategy cmd"

definition Exec_WithTimeout :: "nat \<Rightarrow> exec_strategy \<Rightarrow> exec_strategy" where
  "Exec_WithTimeout d ws = ws\<lparr>es_timeout := Some d\<rparr>"

definition WithExitCodeMatcher :: "(int \<Rightarrow> bool) \<Rightarrow> exec_strategy \<Rightarrow> exec_strategy" where
  "WithExitCodeMatcher m ws = ws\<lparr>es_ExitCodeMatcher := m\<rparr>"

definition WithExitCode :: "int \<Rightarrow> exec_strategy \<Rightarrow> exec_strategy" where
  "WithExitCode exitCode ws = WithExitCodeMatcher (\<lambda>actual. actual = exitCode) ws"

definition Exec_WithResponseMatcher :: "(string \<Rightarrow> bool) option \<Rightarrow> exec_strategy \<Rightarrow> exec_strategy" where
  "Exec_WithResponseMatcher m ws = ws\<lparr>es_ResponseMatcher := m\<rparr>"

definition Exec_WithPollInterval :: "nat \<Rightarrow> exec_strategy \<Rightarrow> exec_strategy" where
  "Exec_WithPollInterval d ws = ws\<lparr>es_PollInterval := d\<rparr>"

definition WithRetryOnError :: "exec_strategy \<Rightarrow> exec_strategy" where
  "WithRetryOnError ws = ws\<lparr>es_retryOnError := True\<rparr>"

definition Exec_String :: "exec_strategy \<Rightarrow> string" where
  "Exec_String ws =
     (case es_cmd ws of
        [] \<Rightarrow> ''exec command''
      | c # args \<Rightarrow>
          (if args = [] then ''exec command '' @ show_q c
           else if length args = 1 then ''exec command '' @ show_q c @ '' with 1 argument''
           else ''exec command '' @ show_q c @ '' with '' @ show_nat (length args) @ '' arguments''))"

definition exec_round :: "exec_strategy \<Rightarrow> gctx \<Rightarrow> 'w target \<Rightarrow> (unit, unit, 'w) rounds" where
  "exec_round ws ctx tg u s =
     (case select_after ctx (es_PollInterval ws) (fst s) of
        (Some e, t) \<Rightarrow> (Stop (Err e), (t, snd s))
      | (None, t) \<Rightarrow>
          (let execCtx = WithTimeout ctx t (es_PollInterval ws) in
           case tg_Exec tg execCtx (es_cmd ws) True (t, snd s) of
             (Panic p, s') \<Rightarrow> (Stop (Panic p), s')
           | (Err e, s') \<Rightarrow>
               (case ctx_err ctx (fst s') of
                  Some ce \<Rightarrow> (Stop (Err ce), s')
                | None \<Rightarrow>
                    (if ctx_err execCtx (fst s') \<noteq> None then (Again (), s')
                     else if es_retryOnError ws then (Again (), s')
                     else (Stop (Err e), s')))
           | (Ok (exitCode, resp), s') \<Rightarrow>
               (if \<not> es_ExitCodeMatcher ws exitCode then (Again (), s')
                else if (case es_ResponseMatcher ws of None \<Rightarrow> False | Some m \<Rightarrow> \<not> m resp) then (Again (), s')
                else (Stop (Ok ()), s'))))"

definition Exec_WaitUntilReady :: "exec_strategy \<Rightarrow> gctx \<Rightarrow> 'w target \<Rightarrow> (unit, 'w) call" where
  "Exec_WaitUntilReady ws ctx tg s =
     poll (exec_round ws (WithTimeout ctx (fst s) (timeout_or (es_timeout ws))) tg) () s"



section \<open>log.go\<close>

text \<open>
  Regular expressions are those of Go's package regexp, a parameter of the strategies that use them: an
  expression that does not compile is \<open>None\<close>; compiled, it gives all its matches in a text, each as the
  list of its submatches. A \<open>PermanentError\<close> shows the text of the error it was made of and hides the
  error itself.
\<close>

type_synonym regexp_lib = "string \<Rightarrow> (string \<Rightarrow> string list list) option"

definition PermanentError :: string where
  "PermanentError = ''*wait.PermanentError''"

definition NewPermanentError :: "err \<Rightarrow> err" where
  "NewPermanentError e = Class PermanentError (err_text e)"

record log_strategy =
  ls_timeout :: "nat option"
  ls_Log :: string
  ls_IsRegexp :: bool
  ls_Occurrence :: int
  ls_PollInterval :: nat
  ls_submatchCallback :: "(string \<Rightarrow> string list list \<Rightarrow> err option) option"

definition NewLogStrategy :: "string \<Rightarrow> log_strategy" where
  "NewLogStrategy log =
     \<lparr>ls_timeout = None, ls_Log = log, ls_IsRegexp = False, ls_Occurrence = 1,
      ls_PollInterval = defaultPollInterval, ls_submatchCallback = None\<rparr>"

definition ForLog :: "string \<Rightarrow> log_strategy" where
  "ForLog log = NewLogStrategy log"

definition AsRegexp :: "log_strategy \<Rightarrow> log_strategy" where
  "AsRegexp ws = ws\<lparr>ls_IsRegexp := True\<rparr>"

definition Submatch :: "(string \<Rightarrow> string list list \<Rightarrow> err option) \<Rightarrow> log_strategy \<Rightarrow> log_strategy" where
  "Submatch f ws = ws\<lparr>ls_submatchCallback := Some f\<rparr>"

definition Log_WithTimeout :: "nat \<Rightarrow> log_strategy \<Rightarrow> log_strategy" where
  "Log_WithTimeout d ws = ws\<lparr>ls_timeout := Some d\<rparr>"

definition Log_WithPollInterval :: "nat \<Rightarrow> log_strategy \<Rightarrow> log_strategy" where
  "Log_WithPollInterval d ws = ws\<lparr>ls_PollInterval := d\<rparr>"

definition WithOccurrence :: "int \<Rightarrow> log_strategy \<Rightarrow> log_strategy" where
  "WithOccurrence n ws = ws\<lparr>ls_Occurrence := (if n \<le> 0 then 1 else n)\<rparr>"

definition Log_String :: "log_strategy \<Rightarrow> string" where
  "Log_String ws =
     (let logType = (if ls_IsRegexp ws then ''log pattern'' else ''log message'');
          occurrence = (if ls_Occurrence ws > 1 then '' (occurrence: '' @ show_int (ls_Occurrence ws) @ '')'' else '''')
      in logType @ '' '' @ show_q (ls_Log ws) @ occurrence)"

text \<open>\<open>bytes.Count\<close>: occurrences that do not overlap; an empty text occurs around every character.\<close>

fun count_from :: "string \<Rightarrow> nat \<Rightarrow> string \<Rightarrow> nat" where
  "count_from sep k [] = 0"
| "count_from sep (Suc k) (c # s) = count_from sep k s"
| "count_from sep 0 (c # s) =
     (if has_prefix (c # s) sep then Suc (count_from sep (length sep - 1) s) else count_from sep 0 s)"

definition bytes_Count :: "string \<Rightarrow> string \<Rightarrow> nat" where
  "bytes_Count b sep = (if sep = [] then length b + 1 else count_from sep 0 b)"

definition checkCount :: "log_strategy \<Rightarrow> string \<Rightarrow> err option" where
  "checkCount ws b =
     (if int (bytes_Count b (ls_Log ws)) < ls_Occurrence ws
      then Some (Msg (show_q (ls_Log ws) @ '' matched '' @ show_nat (bytes_Count b (ls_Log ws)) @ '' times, expected ''
                        @ show_int (ls_Occurrence ws)))
      else None)"

definition checkRegexp :: "(string \<Rightarrow> string list list) \<Rightarrow> log_strategy \<Rightarrow> string \<Rightarrow> err option" where
  "checkRegexp re ws b =
     (if int (length (re b)) < ls_Occurrence ws
      then Some (Msg (''`'' @ ls_Log ws @ ''` matched '' @ show_nat (length (re b)) @ '' times, expected ''
                        @ show_int (ls_Occurrence ws)))
      else None)"

definition log_check :: "regexp_lib \<Rightarrow> log_strategy \<Rightarrow> (string \<Rightarrow> err option) option" where
  "log_check lib ws =
     (case ls_submatchCallback ws of
        Some f \<Rightarrow> (case lib (ls_Log ws) of None \<Rightarrow> None | Some re \<Rightarrow> Some (\<lambda>b. f (ls_Log ws) (re b)))
      | None \<Rightarrow>
          (if ls_IsRegexp ws then (case lib (ls_Log ws) of None \<Rightarrow> None | Some re \<Rightarrow> Some (checkRegexp re ws))
           else Some (checkCount ws)))"

text \<open>The state of the loop: the length of the logs and the error of the last check.\<close>

definition log_round ::
    "(string \<Rightarrow> err option) \<Rightarrow> log_strategy \<Rightarrow> gctx \<Rightarrow> 'w target \<Rightarrow> (nat \<times> err option, unit, 'w) rounds" where
  "log_round check ws ctx tg st s =
     (case ctx_err ctx (fst s) of
        Some e \<Rightarrow>
          (Stop (case errors_join [snd st, Some e] of None \<Rightarrow> Ok () | Some j \<Rightarrow> Err j), s)
      | None \<Rightarrow>
          (case checkTarget ctx tg s of
             (Panic p, s') \<Rightarrow> (Stop (Panic p), s')
           | (checkErr, s') \<Rightarrow>
               (case tg_Logs tg ctx s' of
                  (Panic p, s'') \<Rightarrow> (Stop (Panic p), s'')
                | (Err e, s'') \<Rightarrow> (Again st, sleep (ls_PollInterval ws) s'')
                | (Ok (b, Some e), s'') \<Rightarrow> (Again st, sleep (ls_PollInterval ws) s'')
                | (Ok (b, None), s'') \<Rightarrow>
                    (if fst st = length b \<and> checkErr \<noteq> Ok () then (Stop checkErr, s'')
                     else case check b of
                       None \<Rightarrow> (Stop (Ok ()), s'')
                     | Some e \<Rightarrow>
                         (if errors_is e PermanentError then (Stop (Err e), s'')
                          else (Again (length b, Some e), sleep (ls_PollInterval ws) s''))))))"

definition Log_WaitUntilReady :: "regexp_lib \<Rightarrow> log_strategy \<Rightarrow> gctx \<Rightarrow> 'w target \<Rightarrow> (unit, 'w) call" where
  "Log_WaitUntilReady lib ws ctx tg s =
     (case log_check lib ws of
        None \<Rightarrow> (Panic ''regexp: Compile'', s)
      | Some check \<Rightarrow>
          poll (log_round check ws (WithTimeout ctx (fst s) (timeout_or (ls_timeout ws))) tg) (0, None) s)"


section \<open>nop.go\<close>

record 'w nop_strategy =
  ns_timeout :: "nat option"
  ns_waitUntilReady :: "gctx \<Rightarrow> 'w target \<Rightarrow> (unit, 'w) call"

definition ForNop :: "(gctx \<Rightarrow> 'w target \<Rightarrow> (unit, 'w) call) \<Rightarrow> 'w nop_strategy" where
  "ForNop f = \<lparr>ns_timeout = None, ns_waitUntilReady = f\<rparr>"

definition Nop_WithTimeout :: "nat \<Rightarrow> 'w nop_strategy \<Rightarrow> 'w nop_strategy" where
  "Nop_WithTimeout d ws = ws\<lparr>ns_timeout := Some d\<rparr>"

definition Nop_String :: "'w nop_strategy \<Rightarrow> string" where
  "Nop_String ws = ''custom wait condition''"

definition Nop_WaitUntilReady :: "'w nop_strategy \<Rightarrow> gctx \<Rightarrow> 'w target \<Rightarrow> (unit, 'w) call" where
  "Nop_WaitUntilReady ws ctx tg s = ns_waitUntilReady ws ctx tg s"



section \<open>The strategies come back\<close>

text \<open>
  A round that goes on brings the deadline of the context nearer; for a file strategy, the next tick.
\<close>

lemmas round_splits = outcome.splits option.splits if_splits prod.splits

lemma health_round_answers:
  assumes "answering tg" and "0 < hs_PollInterval ws"
  shows "answers (poll (health_round ws (Some (due, e)) tg) u)"
proof (rule poll_answers [where m = "\<lambda>_ s. due - fst s"])
  fix u :: unit and s q s'
  assume r: "health_round ws (Some (due, e)) tg u s = (q, s')"
  obtain a s1 where a: "tg_State tg (Some (due, e)) s = (a, s1)" by (cases "tg_State tg (Some (due, e)) s")
  from answersD [OF answeringD(4) [OF assms(1)] a] r a assms(2)
  show "fst s \<le> fst s' \<and> (case q of Again _ \<Rightarrow> due - fst s' < due - fst s | Stop r \<Rightarrow> r \<noteq> Panic never_returns)"
    by (auto simp: health_round_def ctx_err_def split: round_splits)
qed

lemma exit_round_answers:
  assumes "answering tg" and "0 < xs_PollInterval ws"
  shows "answers (poll (exit_round ws (Some (due, e)) tg) u)"
proof (rule poll_answers [where m = "\<lambda>_ s. due - fst s"])
  fix u :: unit and s q s'
  assume r: "exit_round ws (Some (due, e)) tg u s = (q, s')"
  obtain a s1 where a: "tg_State tg (Some (due, e)) s = (a, s1)" by (cases "tg_State tg (Some (due, e)) s")
  from answersD [OF answeringD(4) [OF assms(1)] a] r a assms(2)
  show "fst s \<le> fst s' \<and> (case q of Again _ \<Rightarrow> due - fst s' < due - fst s | Stop r \<Rightarrow> r \<noteq> Panic never_returns)"
    by (auto simp: exit_round_def ctx_err_def split: round_splits)
qed

lemma exec_round_answers:
  assumes "answering tg" and "0 < es_PollInterval ws"
  shows "answers (poll (exec_round ws (Some (due, e)) tg) u)"
proof (rule poll_answers [where m = "\<lambda>_ s. due - fst s"])
  fix u :: unit and s q s'
  assume r: "exec_round ws (Some (due, e)) tg u s = (q, s')"
  let ?x = "tg_Exec tg (WithTimeout (Some (due, e)) (fst s + es_PollInterval ws) (es_PollInterval ws))
    (es_cmd ws) True (fst s + es_PollInterval ws, snd s)"
  obtain a s1 where a: "?x = (a, s1)" by (cases ?x)
  from answersD [OF answeringD(6) [OF assms(1)] a] r a assms(2)
  show "fst s \<le> fst s' \<and> (case q of Again _ \<Rightarrow> due - fst s' < due - fst s | Stop r \<Rightarrow> r \<noteq> Panic never_returns)"
    by (auto simp: exec_round_def select_after_def Let_def split: round_splits)
qed

lemma log_round_answers:
  assumes "answering tg" and "0 < ls_PollInterval ws"
  shows "answers (poll (log_round check ws (Some (due, e)) tg) st)"
proof (rule poll_answers [where m = "\<lambda>_ s. due - fst s"])
  fix st s q s'
  assume r: "log_round check ws (Some (due, e)) tg st s = (q, s')"
  obtain a s1 where a: "checkTarget (Some (due, e)) tg s = (a, s1)" by (cases "checkTarget (Some (due, e)) tg s")
  obtain b s2 where b: "tg_Logs tg (Some (due, e)) s1 = (b, s2)" by (cases "tg_Logs tg (Some (due, e)) s1")
  from answersD [OF answers_checkTarget [OF assms(1)] a] answersD [OF answeringD(3) [OF assms(1)] b] r a b assms(2)
  show "fst s \<le> fst s' \<and> (case q of Again _ \<Rightarrow> due - fst s' < due - fst s | Stop r \<Rightarrow> r \<noteq> Panic never_returns)"
    by (auto simp: log_round_def ctx_err_def split: round_splits)
qed

definition matcher_answers :: "'w file_strategy \<Rightarrow> bool" where
  "matcher_answers ws \<longleftrightarrow> (\<forall>m b. fs_matcher ws = Some m \<longrightarrow> answers (m b))"

lemma matchFile_answers:
  assumes "answering tg" and "matcher_answers ws"
  shows "answers (matchFile ws ctx tg)"
proof (rule answersI)
  fix s r s' assume r: "matchFile ws ctx tg s = (r, s')"
  obtain a s1 where a: "tg_CopyFromContainer tg ctx (fs_file ws) s = (a, s1)"
    by (cases "tg_CopyFromContainer tg ctx (fs_file ws) s")
  note as = answersD [OF answeringD(7) [OF assms(1)] a]
  show "r \<noteq> Panic never_returns \<and> fst s \<le> fst s'"
  proof (cases "\<exists>rc m. a = Ok rc \<and> fs_matcher ws = Some m")
    case True
    then obtain rc m where m: "a = Ok rc" "fs_matcher ws = Some m" by blast
    obtain b s2 where b: "m rc s1 = (b, s2)" by (cases "m rc s1")
    from assms(2) m have "answers (m rc)" unfolding matcher_answers_def by blast
    from answersD [OF this b] have "b \<noteq> Panic never_returns \<and> fst s1 \<le> fst s2" .
    with as a b m r show ?thesis by (cases b) (auto simp: matchFile_def)
  next
    case False
    with as a r show ?thesis by (cases a) (auto simp: matchFile_def split: option.splits)
  qed
qed

lemma next_tick_later: "0 < p \<Longrightarrow> n < next_tick p n t \<and> t < next_tick p n t"
proof -
  assume p: "0 < p"
  have "t - n < p * ((t - n) div p) + p" using p
    by (metis add_strict_left_mono mod_less_divisor mult_div_mod_eq)
  with p show ?thesis by (simp add: next_tick_def algebra_simps)
qed

lemma file_round_answers:
  assumes "answering tg" and "0 < fs_pollInterval ws" and "matcher_answers ws"
  shows "answers (poll (file_round ws (Some (due, e)) tg) n)"
proof (rule poll_answers [where m = "\<lambda>n _. due - n"])
  fix n s q s'
  assume r: "file_round ws (Some (due, e)) tg n s = (q, s')"
  obtain c s1 where c: "select_tick (Some (due, e)) n s = (c, s1)" by (cases "select_tick (Some (due, e)) n s")
  then have s1: "fst s \<le> fst s1" "c = None \<Longrightarrow> n < due"
    by (auto simp: select_tick_def select_after_def split: if_splits)
  obtain a s2 where a: "matchFile ws (Some (due, e)) tg s1 = (a, s2)" by (cases "matchFile ws (Some (due, e)) tg s1")
  from answersD [OF matchFile_answers [OF assms(1,3)] a] r a c s1
    next_tick_later [OF assms(2), of n "fst s1"]
  show "fst s \<le> fst s' \<and> (case q of Again n' \<Rightarrow> due - n' < due - n | Stop r \<Rightarrow> r \<noteq> Panic never_returns)"
    by (auto simp: file_round_def split: round_splits)
qed

lemma answers_Timeout:
  assumes "\<And>due e. answers (f (Some (due, e)))"
  shows "answers (\<lambda>s. f (WithTimeout ctx (fst s) d) s)"
proof (rule answersI)
  fix s r s' assume r: "f (WithTimeout ctx (fst s) d) s = (r, s')"
  obtain t e where "WithTimeout ctx (fst s) d = Some (t, e)" by (rule WithTimeout_due)
  with r answersD [OF assms] show "r \<noteq> Panic never_returns \<and> fst s \<le> fst s'" by metis
qed

interpretation health_wait: waiting "\<lambda>ws. 0 < hs_PollInterval ws" Health_WaitUntilReady
proof
  fix ws :: health_strategy and tg :: "'w target" and ctx
  assume "0 < hs_PollInterval ws" and "answering tg"
  then show "answers (Health_WaitUntilReady ws ctx tg)"
    unfolding Health_WaitUntilReady_def
    by (intro answers_Timeout [where f = "\<lambda>c. poll (health_round ws c tg) ()"] health_round_answers)
qed

interpretation exec_wait: waiting "\<lambda>ws. 0 < es_PollInterval ws" Exec_WaitUntilReady
proof
  fix ws :: exec_strategy and tg :: "'w target" and ctx
  assume "0 < es_PollInterval ws" and "answering tg"
  then show "answers (Exec_WaitUntilReady ws ctx tg)"
    unfolding Exec_WaitUntilReady_def
    by (intro answers_Timeout [where f = "\<lambda>c. poll (exec_round ws c tg) ()"] exec_round_answers)
qed

interpretation file_wait: waiting "\<lambda>ws. 0 < fs_pollInterval ws \<and> matcher_answers ws" File_WaitUntilReady
proof
  fix ws :: "'w file_strategy" and tg :: "'w target" and ctx
  assume ws: "0 < fs_pollInterval ws \<and> matcher_answers ws" and tg: "answering tg"
  have "answers (\<lambda>s. (\<lambda>c s. poll (file_round ws c tg) (fst s + fs_pollInterval ws) s)
      (WithTimeout ctx (fst s) (timeout_or (fs_timeout ws))) s)"
  proof (rule answers_Timeout)
    fix due e
    show "answers (\<lambda>s. poll (file_round ws (Some (due, e)) tg) (fst s + fs_pollInterval ws) s)"
      using file_round_answers [OF tg] ws by (intro answersI) (metis answersD)
  qed
  with ws show "answers (File_WaitUntilReady ws ctx tg)"
    unfolding File_WaitUntilReady_def by simp
qed

text \<open>Without a timeout of its own, waiting for the exit may go on for ever.\<close>

interpretation exit_wait: waiting "\<lambda>ws. 0 < xs_PollInterval ws \<and> xs_timeout ws \<noteq> None" Exit_WaitUntilReady
proof
  fix ws :: exit_strategy and tg :: "'w target" and ctx
  assume ws: "0 < xs_PollInterval ws \<and> xs_timeout ws \<noteq> None" and tg: "answering tg"
  then obtain d where "xs_timeout ws = Some d" by blast
  with ws tg show "answers (Exit_WaitUntilReady ws ctx tg)"
    unfolding Exit_WaitUntilReady_def
    by (simp add: answers_Timeout [where f = "\<lambda>c. poll (exit_round ws c tg) ()"] exit_round_answers)
qed

definition log_well :: "regexp_lib \<Rightarrow> log_strategy \<Rightarrow> bool" where
  "log_well lib ws \<longleftrightarrow> 0 < ls_PollInterval ws"

interpretation log_wait: waiting "log_well lib" "Log_WaitUntilReady lib" for lib
proof
  fix ws :: log_strategy and tg :: "'w target" and ctx
  assume ws: "log_well lib ws" and tg: "answering tg"
  show "answers (Log_WaitUntilReady lib ws ctx tg)"
  proof (cases "log_check lib ws")
    case None
    then show ?thesis by (auto simp: Log_WaitUntilReady_def answers_def never_returns_def)
  next
    case (Some check)
    with ws tg show ?thesis
      unfolding Log_WaitUntilReady_def
      by (simp add: answers_Timeout [where f = "\<lambda>c. poll (log_round check ws c tg) (0, None)"]
          log_round_answers log_well_def)
  qed
qed



section \<open>What the outcome of a strategy means\<close>

lemma seen_health_round: "health_round ws ctx tg u s = (q, s') \<Longrightarrow> seen tg ctx s s'"
  by (auto simp: health_round_def split: round_splits dest!: seen_calls(6) intro: rtranclp_trans seen_sleep)

text \<open>
  C27: a health strategy that came back did so for the answer of its last look at the container, which it
  took before the deadline: it succeeds only for a container that runs and is healthy, and fails with the
  error of that look, or because the container does not run; otherwise its context was done.
\<close>

theorem Health_WaitUntilReady_outcome:
  assumes "Health_WaitUntilReady ws ctx0 tg s = (r, s')" and "r \<noteq> Panic never_returns"
    and "ctx = WithTimeout ctx0 (fst s) (timeout_or (hs_timeout ws))"
  shows "(\<exists>e. ctx_err ctx (fst s') = Some e \<and> r = Err e)
     \<or> (\<exists>s1 st. seen tg ctx s s1 \<and> ctx_err ctx (fst s1) = None \<and> tg_State tg ctx s1 = (Ok st, s') \<and> r = checkState st
          \<and> (st_Running st \<longrightarrow> st_Health st = Some ''healthy''))
     \<or> (\<exists>s1 e. seen tg ctx s s1 \<and> ctx_err ctx (fst s1) = None \<and> tg_State tg ctx s1 = (Err e, s') \<and> r = Err e)
     \<or> (\<exists>s1 p. seen tg ctx s s1 \<and> tg_State tg ctx s1 = (Panic p, s') \<and> r = Panic p)"
proof -
  from assms(1,3) have "poll (health_round ws ctx tg) () s = (r, s')" by (simp add: Health_WaitUntilReady_def)
  then show ?thesis
  proof (cases rule: poll_result)
    case (stops u s1)
    have "seen tg ctx (snd ((), s)) (snd (u, s1))" by (rule reached_seen [OF stops(1)]) (rule seen_health_round)
    then have seen: "seen tg ctx s s1" by simp
    obtain a s2 where a: "tg_State tg ctx s1 = (a, s2)" by (cases "tg_State tg ctx s1")
    show ?thesis
    proof (cases "ctx_err ctx (fst s1)")
      case (Some e)
      with stops(2) show ?thesis by (simp add: health_round_def)
    next
      case None
      show ?thesis
      proof (cases a)
        case (Ok st)
        with None stops(2) a have "r = checkState st \<and> s' = s2 \<and> (st_Running st \<longrightarrow> st_Health st = Some ''healthy'')"
          by (cases "st_Running st") (auto simp: health_round_def Healthy_def checkState_running split: round_splits)
        with None Ok a seen show ?thesis by blast
      next
        case (Err e)
        with None stops(2) a have "tg_State tg ctx s1 = (Err e, s') \<and> r = Err e" by (simp add: health_round_def)
        with None seen show ?thesis by blast
      next
        case (Panic p)
        with None stops(2) a have "tg_State tg ctx s1 = (Panic p, s') \<and> r = Panic p" by (simp add: health_round_def)
        with seen show ?thesis by blast
      qed
    qed
  qed (use assms(2) in simp)
qed

definition demo_state :: container_state where
  "demo_state = \<lparr>st_Status = ''running'', st_Running = True, st_ExitCode = 0, st_OOMKilled = False,
     st_Health = Some ''healthy''\<rparr>"

definition demo_target :: "'w target" where
  "demo_target = \<lparr>tg_Host = (\<lambda>_ s. (Ok ''localhost'', s)),
     tg_Inspect = (\<lambda>_ s. (Ok \<lparr>in_NetworkMode = ''bridge'', in_Ports = [], in_Networks = [], in_Tty = False,
        in_State = demo_state\<rparr>, s)),
     tg_MappedPort = (\<lambda>_ p s. (Ok p, s)),
     tg_Logs = (\<lambda>_ s. (Ok (if fst s < 150 then ''starting'' else ''starting and listening'', None), s)),
     tg_Exec = (\<lambda>_ _ _ s. (Ok (if fst s < 250 then 1 else 0, ''out''), sleep 20 s)),
     tg_State = (\<lambda>_ s. (Ok (demo_state\<lparr>st_Health := Some (if fst s < 150 then ''starting'' else ''healthy'')\<rparr>), s)),
     tg_CopyFromContainer = (\<lambda>_ f s. (Ok (''content'', None), s))\<rparr>"

theorem Health_WaitUntilReady_outcome_witness:
  "Health_WaitUntilReady ForHealthCheck Background demo_target (0, ()) = (Ok (), (200, ()))
   \<and> (\<exists>s1 st. tg_State demo_target (Some (60000, DeadlineExceeded)) s1 = (Ok st, (200, ()))
          \<and> st_Health st = Some ''healthy'')"
proof -
  have run: "Health_WaitUntilReady ForHealthCheck Background demo_target (0, ()) = (Ok (), (200, ()))"
    by (simp add: Health_WaitUntilReady_def poll_def poll_loop.simps health_round_def ForHealthCheck_def
        NewHealthStrategy_def demo_target_def demo_state_def checkState_def WithTimeout_def Background_def
        ctx_err_def timeout_or_def defaultTimeout_def defaultPollInterval_def sleep_def Healthy_def)
  have ctx: "Some (60000, DeadlineExceeded) = WithTimeout Background (fst (0 :: nat, ())) (timeout_or (hs_timeout ForHealthCheck))"
    by (simp add: ForHealthCheck_def NewHealthStrategy_def WithTimeout_def Background_def timeout_or_def
        defaultTimeout_def)
  from Health_WaitUntilReady_outcome [OF run _ ctx] run show ?thesis
    by (auto simp: ctx_err_def)
qed

text \<open>The logs that were read on the way, and what the loop of the log strategy remembers of them.\<close>

definition logs_read :: "'w target \<Rightarrow> gctx \<Rightarrow> 'w clocked \<Rightarrow> string \<Rightarrow> 'w clocked \<Rightarrow> bool" where
  "logs_read tg ctx s b s' \<longleftrightarrow>
     (\<exists>s1 s2. seen tg ctx s s1 \<and> tg_Logs tg ctx s1 = (Ok (b, None), s2) \<and> seen tg ctx s2 s')"

lemma logs_read_later: "logs_read tg ctx s b s1 \<Longrightarrow> seen tg ctx s1 s2 \<Longrightarrow> logs_read tg ctx s b s2"
  unfolding logs_read_def by (meson rtranclp_trans)

lemma logs_read_since: "seen tg ctx s s1 \<Longrightarrow> logs_read tg ctx s1 b s2 \<Longrightarrow> logs_read tg ctx s b s2"
  unfolding logs_read_def by (meson rtranclp_trans)

lemma seen_log_round: "log_round check ws ctx tg st s = (q, s') \<Longrightarrow> seen tg ctx s s'"
  by (auto simp: log_round_def split: round_splits
      dest!: seen_checkTarget seen_calls(4) intro: rtranclp_trans seen_sleep)

lemma log_round_again:
  assumes "log_round check ws ctx tg st s = (Again st', s')"
  shows "st' = st \<or> (\<exists>b e. logs_read tg ctx s b s' \<and> check b = Some e \<and> st' = (length b, Some e))"
proof -
  obtain a s1 where a: "checkTarget ctx tg s = (a, s1)" by (cases "checkTarget ctx tg s")
  obtain l s2 where l: "tg_Logs tg ctx s1 = (l, s2)" by (cases "tg_Logs tg ctx s1")
  show ?thesis
  proof (cases "\<exists>b. l = Ok (b, None)")
    case True
    then obtain b where "l = Ok (b, None)" by blast
    with assms a l have "s' = sleep (ls_PollInterval ws) s2"
      and "st' = st \<or> (\<exists>e. check b = Some e \<and> st' = (length b, Some e))"
      by (cases a; simp add: log_round_def split: option.splits if_splits)+
    with l \<open>l = Ok (b, None)\<close> seen_checkTarget [OF a] seen_sleep [of tg ctx s2] show ?thesis
      unfolding logs_read_def by blast
  qed (use assms a l in \<open>cases a; simp add: log_round_def split: round_splits\<close>)
qed

lemma log_round_stop:
  assumes "log_round check ws ctx tg st s = (Stop r, s')" and "ctx_err ctx (fst s) = None" and "\<not> is_panic r"
  shows "\<exists>a s1 b. checkTarget ctx tg s = (a, s1) \<and> tg_Logs tg ctx s1 = (Ok (b, None), s')
     \<and> (if fst st = length b \<and> a \<noteq> Ok () then r = a
         else case check b of None \<Rightarrow> r = Ok () | Some e \<Rightarrow> errors_is e PermanentError \<and> r = Err e)"
proof -
  obtain a s1 where a: "checkTarget ctx tg s = (a, s1)" by (cases "checkTarget ctx tg s")
  obtain l s2 where l: "tg_Logs tg ctx s1 = (l, s2)" by (cases "tg_Logs tg ctx s1")
  show ?thesis
  proof (cases "\<exists>b. l = Ok (b, None)")
    case True
    then obtain b where "l = Ok (b, None)" by blast
    moreover have "\<not> is_panic a" using assms a by (cases a) (auto simp: log_round_def)
    ultimately show ?thesis using assms(1,2) a l
      by (cases a) (simp_all add: log_round_def split: option.splits if_splits)
  next
    case False
    with assms a l show ?thesis by (cases a; cases l) (auto simp: log_round_def split: option.splits)
  qed
qed

lemma log_reached:
  assumes "reached (log_round check ws ctx tg) ((0, None), s) (st, s1)"
  shows "seen tg ctx s s1 \<and> (fst st = 0 \<or> (\<exists>b. logs_read tg ctx s b s1 \<and> length b = fst st \<and> check b \<noteq> None))
     \<and> (\<forall>x. snd st = Some x \<longrightarrow> (\<exists>b. logs_read tg ctx s b s1 \<and> check b = Some x))"
proof -
  have "seen tg ctx s (snd d)
       \<and> (fst (fst d) = 0 \<or> (\<exists>b. logs_read tg ctx s b (snd d) \<and> length b = fst (fst d) \<and> check b \<noteq> None))
       \<and> (\<forall>x. snd (fst d) = Some x \<longrightarrow> (\<exists>b. logs_read tg ctx s b (snd d) \<and> check b = Some x))"
    if "reached (log_round check ws ctx tg) ((0, None), s) d" for d
    using that
  proof induction
    case start
    show ?case by simp
  next
    case (round st s1 st' s')
    have later: "logs_read tg ctx s b s'" if "logs_read tg ctx s b s1" for b
      using that seen_log_round [OF round(2)] by (rule logs_read_later)
    from round(3) have "seen tg ctx s s1" by simp
    then have now: "seen tg ctx s s'" using seen_log_round [OF round(2)] by (rule rtranclp_trans)
    from log_round_again [OF round(2)] consider (same) "st' = st"
      | (read) b e where "logs_read tg ctx s1 b s'" "check b = Some e" "st' = (length b, Some e)"
      by blast
    then show ?case
    proof cases
      case same
      with round(3) now show ?thesis by (auto dest: later)
    next
      case read
      with round(3) have "logs_read tg ctx s b s'" by (auto intro: logs_read_since)
      with read now show ?thesis by auto
    qed
  qed
  from this [OF assms] show ?thesis by simp
qed

text \<open>
  C28: why a log strategy that checks with \<open>check\<close> came back. It succeeds only when the check passes on
  the logs it has just read. It fails for a container that does not run only when these logs are as long
  as the logs that it had read, and the check failed on, before (or empty), so that the last lines of a container
  that ended are still looked at. Otherwise the check gave a permanent error, or the context was done, and the
  error has the last failure of the check on logs that it read, too.
\<close>

theorem Log_WaitUntilReady_outcome:
  assumes "Log_WaitUntilReady lib ws ctx0 tg s = (r, s')" and "log_check lib ws = Some check"
    and "\<not> is_panic r" and "ctx = WithTimeout ctx0 (fst s) (timeout_or (ls_timeout ws))"
  shows "(\<exists>s1 b. seen tg ctx s s1 \<and> tg_Logs tg ctx s1 = (Ok (b, None), s') \<and> check b = None \<and> r = Ok ())
     \<or> (\<exists>s1 s2 b. seen tg ctx s s1 \<and> checkTarget ctx tg s1 = (r, s2) \<and> r \<noteq> Ok () \<and> tg_Logs tg ctx s2 = (Ok (b, None), s')
          \<and> (b = '''' \<or> (\<exists>b0. logs_read tg ctx s b0 s1 \<and> check b0 \<noteq> None \<and> length b0 = length b)))
     \<or> (\<exists>s1 b e. seen tg ctx s s1 \<and> tg_Logs tg ctx s1 = (Ok (b, None), s') \<and> check b = Some e \<and> errors_is e PermanentError
          \<and> r = Err e)
     \<or> (\<exists>e l. ctx_err ctx (fst s') = Some e \<and> r = Err (Join (l @ [e])) \<and> length l \<le> 1
          \<and> (\<forall>x\<in>set l. \<exists>b. logs_read tg ctx s b s' \<and> check b = Some x))"
proof -
  from assms have "poll (log_round check ws ctx tg) (0, None) s = (r, s')" by (simp add: Log_WaitUntilReady_def)
  then show ?thesis
  proof (cases rule: poll_result)
    case (stops st s1)
    note inv = log_reached [OF stops(1)]
    show ?thesis
    proof (cases "ctx_err ctx (fst s1)")
      case (Some e)
      with stops(2) have r: "r = Err (Join (somes [snd st, Some e]))" "s' = s1"
        by (cases "snd st"; simp add: log_round_def errors_join_def)+
      with Some inv have "ctx_err ctx (fst s') = Some e \<and> r = Err (Join (somes [snd st] @ [e]))
          \<and> length (somes [snd st]) \<le> 1 \<and> (\<forall>x\<in>set (somes [snd st]). \<exists>b. logs_read tg ctx s b s' \<and> check b = Some x)"
        by (cases "snd st") auto
      then show ?thesis by blast
    next
      case None
      from log_round_stop [OF stops(2) None assms(3)] obtain a s2 b
        where look: "checkTarget ctx tg s1 = (a, s2)" "tg_Logs tg ctx s2 = (Ok (b, None), s')"
          and r: "if fst st = length b \<and> a \<noteq> Ok () then r = a
                  else case check b of None \<Rightarrow> r = Ok () | Some e \<Rightarrow> errors_is e PermanentError \<and> r = Err e"
        by blast
      from inv have s1: "seen tg ctx s s1" by blast
      show ?thesis
      proof (cases "fst st = length b \<and> a \<noteq> Ok ()")
        case True
        with inv have "b = [] \<or> (\<exists>b0. logs_read tg ctx s b0 s1 \<and> check b0 \<noteq> None \<and> length b0 = length b)"
          by (metis length_0_conv)
        with True r look s1 show ?thesis by (metis (mono_tags, lifting))
      next
        case False
        with r have "check b = None \<and> r = Ok () \<or> (\<exists>e. check b = Some e \<and> errors_is e PermanentError \<and> r = Err e)"
          by (simp only: if_False) (cases "check b"; simp)
        moreover have "seen tg ctx s s2" using s1 seen_checkTarget [OF look(1)] by (rule rtranclp_trans)
        ultimately show ?thesis using look(2) by blast
      qed
    qed
  qed (use assms(3) in simp)
qed

theorem Log_WaitUntilReady_outcome_witness:
  "Log_WaitUntilReady (\<lambda>_. None) (ForLog ''listening'') Background demo_target (0, ()) = (Ok (), (200, ()))
   \<and> (\<exists>s1 b. tg_Logs demo_target (Some (60000, DeadlineExceeded)) s1 = (Ok (b, None), (200, ()))
        \<and> checkCount (ForLog ''listening'') b = None)"
proof -
  have run: "Log_WaitUntilReady (\<lambda>_. None) (ForLog ''listening'') Background demo_target (0, ()) = (Ok (), (200, ()))"
    by (simp add: Log_WaitUntilReady_def log_check_def poll_def poll_loop.simps log_round_def ForLog_def
        NewLogStrategy_def demo_target_def demo_state_def checkTarget_def checkState_def WithTimeout_def
        Background_def ctx_err_def timeout_or_def defaultTimeout_def defaultPollInterval_def sleep_def
        checkCount_def bytes_Count_def)
  have check: "log_check (\<lambda>_. None) (ForLog ''listening'') = Some (checkCount (ForLog ''listening''))"
    by (simp add: log_check_def ForLog_def NewLogStrategy_def)
  have ctx: "Some (60000, DeadlineExceeded) = WithTimeout Background (fst (0 :: nat, ())) (timeout_or (ls_timeout (ForLog ''listening'')))"
    by (simp add: ForLog_def NewLogStrategy_def WithTimeout_def Background_def timeout_or_def defaultTimeout_def)
  from Log_WaitUntilReady_outcome [OF run check _ ctx] run show ?thesis
    by (auto simp: ctx_err_def)
qed

end
