(* ===== verification/Wait_Ports.thy ===== *)
theory Wait_Ports
  imports Wait_Strategies Go_Url
begin

text \<open>
  The strategies of package \<open>container/wait\<close> that reach the container through a port: \<open>host_port.go\<close>,
  \<open>sql.go\<close> and \<open>http.go\<close>. What they use of the host (dialling, package net/http, database/sql and
  \<open>network.ParsePort\<close> of the Moby API) is the record \<open>host_env\<close>, a parameter. The entries of a port map
  come in the order in which this run walks the map.
\<close>


section \<open>The host\<close>

record tls_config =
  tc_RootCAs :: "string list option"
  tc_Certificates :: "(string \<times> string) list"
  tc_ServerName :: string
  tc_InsecureSkipVerify :: bool

definition zero_tls_config :: tls_config where
  "zero_tls_config = \<lparr>tc_RootCAs = None, tc_Certificates = [], tc_ServerName = '''', tc_InsecureSkipVerify = False\<rparr>"

record http_request =
  rq_Method :: string
  rq_URL :: url
  rq_User :: "(string \<times> string) option"
  rq_Headers :: "string smap"
  rq_Body :: string
  rq_TLS :: "tls_config option"

record http_response =
  rs_StatusCode :: int
  rs_Body :: string
  rs_Header :: "string \<rightharpoonup> string list"
  rs_Close :: "err option"

record 'w host_env =
  he_ParsePort :: "string \<Rightarrow> port outcome"
  he_Dial :: "gctx \<Rightarrow> string \<Rightarrow> string \<Rightarrow> (unit, 'w) call"
  he_Do :: "gctx \<Rightarrow> http_request \<Rightarrow> (http_response, 'w) call"
  he_sqlOpen :: "string \<Rightarrow> string \<Rightarrow> (gctx \<Rightarrow> string \<Rightarrow> (unit, 'w) call) outcome"

text \<open>What the strategies rely on: calls come back, and dialling fails for good once the context is done.\<close>

definition ECONNREFUSED :: string where
  "ECONNREFUSED = ''connection refused''"

definition isConnRefusedErr :: "err \<Rightarrow> bool" where
  "isConnRefusedErr e = errors_is e ECONNREFUSED"

definition answering_host :: "'w host_env \<Rightarrow> bool" where
  "answering_host he \<longleftrightarrow>
     (\<forall>ctx p a. answers (he_Dial he ctx p a)) \<and> (\<forall>ctx r. answers (he_Do he ctx r))
     \<and> (\<forall>d u f ctx q. he_sqlOpen he d u = Ok f \<longrightarrow> answers (f ctx q))
     \<and> (\<forall>d u. he_sqlOpen he d u \<noteq> Panic never_returns)
     \<and> (\<forall>x. he_ParsePort he x \<noteq> Panic never_returns)
     \<and> (\<forall>ctx p a s e s'. ctx_err ctx (fst s) \<noteq> None \<longrightarrow> he_Dial he ctx p a s = (Err e, s') \<longrightarrow> \<not> isConnRefusedErr e)
     \<and> (\<forall>ctx p a s s'. ctx_err ctx (fst s) \<noteq> None \<longrightarrow> he_Dial he ctx p a s \<noteq> (Ok (), s'))"

text \<open>\<open>net.JoinHostPort\<close>.\<close>

definition JoinHostPort :: "string \<Rightarrow> nat \<Rightarrow> string" where
  "JoinHostPort host p =
     (if CHR '':'' \<in> set host then ''['' @ host @ '']:'' @ show_nat p else host @ '':'' @ show_nat p)"

definition IsValid :: "port \<Rightarrow> bool" where
  "IsValid p \<longleftrightarrow> po_proto p \<noteq> ''''"

definition show_port :: "port \<Rightarrow> string" where
  "show_port p = (if IsValid p then show_nat (po_num p) @ ''/'' @ po_proto p else ''invalid port'')"

text \<open>\<open>fmt.Errorf\<close> with two \<open>%w\<close>, the first of which may be nil.\<close>

definition wrap_last :: "string \<Rightarrow> err option \<Rightarrow> string \<Rightarrow> err \<Rightarrow> err" where
  "wrap_last a prev b e =
     (case prev of Some x \<Rightarrow> Wrap2 a x b e '''' | None \<Rightarrow> Wrap (a @ ''%!w(<nil>)'' @ b) e '''')"

text \<open>\<open>port, err := target.MappedPort(ctx, p)\<close>.\<close>

definition mapped :: "'w target \<Rightarrow> gctx \<Rightarrow> port \<Rightarrow> (port \<times> err option, 'w) call" where
  "mapped tg ctx p s =
     (case tg_MappedPort tg ctx p s of
        (Ok q, s') \<Rightarrow> (Ok (q, None), s')
      | (Err e, s') \<Rightarrow> (Ok (zero_port, Some e), s')
      | (Panic x, s') \<Rightarrow> (Panic x, s'))"


section \<open>host_port.go\<close>

definition errShellNotExecutable :: string where
  "errShellNotExecutable = ''/bin/sh command not executable''"

definition errShellNotFound :: string where
  "errShellNotFound = ''/bin/sh command not found''"

record host_port_strategy =
  hp_Port :: port
  hp_timeout :: "nat option"
  hp_PollInterval :: nat
  hp_skipInternalCheck :: bool
  hp_skipExternalCheck :: bool

definition NewHostPortStrategy :: "port \<Rightarrow> host_port_strategy" where
  "NewHostPortStrategy p =
     \<lparr>hp_Port = p, hp_timeout = None, hp_PollInterval = defaultPollInterval,
      hp_skipInternalCheck = False, hp_skipExternalCheck = False\<rparr>"

definition ForListeningPort :: "port \<Rightarrow> host_port_strategy" where
  "ForListeningPort p = NewHostPortStrategy p"

definition ForExposedPort :: host_port_strategy where
  "ForExposedPort = NewHostPortStrategy zero_port"

definition SkipInternalCheck :: "host_port_strategy \<Rightarrow> host_port_strategy" where
  "SkipInternalCheck hp = hp\<lparr>hp_skipInternalCheck := True\<rparr>"

definition SkipExternalCheck :: "host_port_strategy \<Rightarrow> host_port_strategy" where
  "SkipExternalCheck hp = hp\<lparr>hp_skipExternalCheck := True\<rparr>"

definition ForMappedPort :: "port \<Rightarrow> host_port_strategy" where
  "ForMappedPort p = SkipExternalCheck (SkipInternalCheck (NewHostPortStrategy p))"

definition HostPort_WithTimeout :: "nat \<Rightarrow> host_port_strategy \<Rightarrow> host_port_strategy" where
  "HostPort_WithTimeout d hp = hp\<lparr>hp_timeout := Some d\<rparr>"

definition HostPort_WithPollInterval :: "nat \<Rightarrow> host_port_strategy \<Rightarrow> host_port_strategy" where
  "HostPort_WithPollInterval d hp = hp\<lparr>hp_PollInterval := d\<rparr>"

definition HostPort_String :: "host_port_strategy \<Rightarrow> string" where
  "HostPort_String hp =
     (let p = (if IsValid (hp_Port hp) then ''port '' @ show_port (hp_Port hp) else ''first exposed port'');
          checks = (if hp_skipInternalCheck hp \<and> hp_skipExternalCheck hp then '' to be mapped''
                    else if hp_skipInternalCheck hp then '' to be accessible externally''
                    else if hp_skipExternalCheck hp then '' to be listening internally''
                    else '' to be listening'')
      in p @ checks)"

fun lowest_port :: "port \<Rightarrow> port list \<Rightarrow> port" where
  "lowest_port low [] = low"
| "lowest_port low (p # ps) =
     lowest_port (if low = zero_port \<or> po_num p < po_num low then p else low) ps"

definition detectInternalPort :: "gctx \<Rightarrow> 'w target \<Rightarrow> (port, 'w) call" where
  "detectInternalPort ctx tg s =
     st_wrap ''inspect'' (tg_Inspect tg ctx s) (\<lambda>i s'. (Ok (lowest_port zero_port (map fst (in_Ports i))), s'))"

text \<open>The variable \<open>i\<close> of this loop stays 0, and \<open>err\<close> nil: a failed detection returns.\<close>

definition detect_round :: "nat \<Rightarrow> gctx \<Rightarrow> 'w target \<Rightarrow> (unit, port, 'w) rounds" where
  "detect_round interval ctx tg u s =
     (case select_after ctx interval (fst s) of
        (Some e, t) \<Rightarrow> (Stop (Err (wrap_last ''detect internal port: retries: 0, last err: '' None '', ctx err: '' e)), (t, snd s))
      | (None, t) \<Rightarrow>
          (case checkTarget ctx tg (t, snd s) of
             (Panic p, s1) \<Rightarrow> (Stop (Panic p), s1)
           | (Err e, s1) \<Rightarrow> (Stop (Err (wrapf ''detect internal port: check target: retries: 0, last err'' e)), s1)
           | (Ok _, s1) \<Rightarrow>
               (case detectInternalPort ctx tg s1 of
                  (Panic p, s2) \<Rightarrow> (Stop (Panic p), s2)
                | (Err e, s2) \<Rightarrow> (Stop (Err (wrapf ''detect internal port'' e)), s2)
                | (Ok p, s2) \<Rightarrow> (if p = zero_port then (Again (), s2) else (Stop (Ok p), s2)))))"

definition internal_port :: "host_port_strategy \<Rightarrow> gctx \<Rightarrow> 'w target \<Rightarrow> (port, 'w) call" where
  "internal_port hp ctx tg s =
     (if hp_Port hp \<noteq> zero_port then (Ok (hp_Port hp), s)
      else st_wrap ''detect internal port'' (detectInternalPort ctx tg s) (\<lambda>p s'.
        if p \<noteq> zero_port then (Ok p, s') else poll (detect_round (hp_PollInterval hp) ctx tg) () s'))"

text \<open>The state of the loop: \<open>i\<close> before it is counted up, and \<open>err\<close>. \<open>port\<close> is zero in it.\<close>

definition mapped_round :: "nat \<Rightarrow> gctx \<Rightarrow> 'w target \<Rightarrow> port \<Rightarrow> (nat \<times> err option, port, 'w) rounds" where
  "mapped_round interval ctx tg internalPort st s =
     (let i = Suc (fst st); retries = show_nat i @ '', port: '' @ show_q (show_port zero_port) @ '', last err: '' in
      case select_after ctx interval (fst s) of
        (Some e, t) \<Rightarrow> (Stop (Err (wrap_last (''mapped port: retries: '' @ retries) (snd st) '', ctx err: '' e)), (t, snd s))
      | (None, t) \<Rightarrow>
          (case checkTarget ctx tg (t, snd s) of
             (Panic p, s1) \<Rightarrow> (Stop (Panic p), s1)
           | (Err e, s1) \<Rightarrow> (Stop (Err (Wrap (''mapped port: check target: retries: '' @ retries) e '''')), s1)
           | (Ok _, s1) \<Rightarrow>
               (case mapped tg ctx internalPort s1 of
                  (Panic p, s2) \<Rightarrow> (Stop (Panic p), s2)
                | (Err e, s2) \<Rightarrow> (Stop (Err e), s2)
                | (Ok (p, e), s2) \<Rightarrow> (if p = zero_port then (Again (i, e), s2) else (Stop (Ok p), s2)))))"

definition wait_mapped :: "nat \<Rightarrow> gctx \<Rightarrow> 'w target \<Rightarrow> port \<Rightarrow> (port, 'w) call" where
  "wait_mapped interval ctx tg internalPort s =
     st_do (mapped tg ctx internalPort s) (\<lambda>pe s'.
       if fst pe \<noteq> zero_port then (Ok (fst pe), s')
       else poll (mapped_round interval ctx tg internalPort) (0, snd pe) s')"

text \<open>The state of the loop is \<open>i\<close>.\<close>

definition external_round ::
    "'w host_env \<Rightarrow> nat \<Rightarrow> gctx \<Rightarrow> 'w target \<Rightarrow> string \<Rightarrow> string \<Rightarrow> (nat, unit, 'w) rounds" where
  "external_round he interval ctx tg proto address i s =
     (case checkTarget ctx tg s of
        (Panic p, s1) \<Rightarrow> (Stop (Panic p), s1)
      | (Err e, s1) \<Rightarrow> (Stop (Err (wrapf (''check target: retries: '' @ show_nat i @ '' address: '' @ address) e)), s1)
      | (Ok _, s1) \<Rightarrow>
          (case he_Dial he ctx proto address s1 of
             (Panic p, s2) \<Rightarrow> (Stop (Panic p), s2)
           | (Err e, s2) \<Rightarrow>
               (if isConnRefusedErr e then (Again (Suc i), sleep interval s2) else (Stop (Err (wrapf ''dial'' e)), s2))
           | (Ok _, s2) \<Rightarrow> (Stop (Ok ()), s2)))"

definition externalCheck ::
    "'w host_env \<Rightarrow> gctx \<Rightarrow> string \<Rightarrow> port \<Rightarrow> 'w target \<Rightarrow> nat \<Rightarrow> (unit, 'w) call" where
  "externalCheck he ctx ipAddress p tg interval s =
     poll (external_round he interval ctx tg (po_proto p) (JoinHostPort ipAddress (po_num p))) 0 s"

text \<open>The text of the shell command; \<open>%04x\<close> of a 16-bit number has at most four digits.\<close>

definition hex_digit :: "nat \<Rightarrow> char" where
  "hex_digit d = ''0123456789abcdef'' ! d"

definition hex4 :: "nat \<Rightarrow> string" where
  "hex4 n = map hex_digit [n div 4096 mod 16, n div 256 mod 16, n div 16 mod 16, n mod 16]"

definition buildInternalCheckCommand :: "nat \<Rightarrow> string" where
  "buildInternalCheckCommand p =
     (let nl = [CHR 0x0A]; tabs = replicate 4 (CHR 0x09); tab = [CHR 0x09]; q = [CHR 0x27] in
      ''true && (''
        @ nl @ tabs @ tab @ ''cat /proc/net/tcp* | awk '' @ q @ ''{print $2}'' @ q @ '' | grep -i :'' @ hex4 p @ '' ||''
        @ nl @ tabs @ tab @ ''nc -vz -w 1 localhost '' @ show_nat p @ '' ||''
        @ nl @ tabs @ tab @ ''/bin/sh -c '' @ q @ ''</dev/tcp/localhost/'' @ show_nat p @ q
        @ nl @ tabs @ '')'' @ nl @ tabs)"

definition internal_round :: "gctx \<Rightarrow> string \<Rightarrow> 'w target \<Rightarrow> (unit, unit, 'w) rounds" where
  "internal_round ctx command tg u s =
     (case ctx_err ctx (fst s) of
        Some e \<Rightarrow> (Stop (Err e), s)
      | None \<Rightarrow>
          (case checkTarget ctx tg s of
             (Panic p, s1) \<Rightarrow> (Stop (Panic p), s1)
           | (Err e, s1) \<Rightarrow> (Stop (Err e), s1)
           | (Ok _, s1) \<Rightarrow>
               (case tg_Exec tg ctx [''/bin/sh'', ''-c'', command] False s1 of
                  (Panic p, s2) \<Rightarrow> (Stop (Panic p), s2)
                | (Err e, s2) \<Rightarrow> (Stop (Err (Wrap '''' e '', host port waiting failed'')), s2)
                | (Ok (exitCode, _), s2) \<Rightarrow>
                    (if exitCode = 0 then (Stop (Ok ()), s2)
                     else if exitCode = 126 then (Stop (Err (Sentinel errShellNotExecutable)), s2)
                     else if exitCode = 127 then (Stop (Err (Sentinel errShellNotFound)), s2)
                     else (Again (), s2)))))"

definition internalCheck :: "gctx \<Rightarrow> port \<Rightarrow> 'w target \<Rightarrow> (unit, 'w) call" where
  "internalCheck ctx internalPort tg s =
     poll (internal_round ctx (buildInternalCheckCommand (po_num internalPort)) tg) () s"

definition check_external ::
    "'w host_env \<Rightarrow> host_port_strategy \<Rightarrow> gctx \<Rightarrow> 'w target \<Rightarrow> port \<Rightarrow> (unit, 'w) call" where
  "check_external he hp ctx tg p s =
     (if hp_skipExternalCheck hp then (Ok (), s)
      else st_wrap ''host'' (tg_Host tg ctx s) (\<lambda>ip s'.
        st_wrap ''external check'' (externalCheck he ctx ip p tg (hp_PollInterval hp) s') (\<lambda>_ s''. (Ok (), s''))))"

definition check_internal :: "host_port_strategy \<Rightarrow> gctx \<Rightarrow> 'w target \<Rightarrow> port \<Rightarrow> (unit, 'w) call" where
  "check_internal hp ctx tg internalPort s =
     (if hp_skipInternalCheck hp then (Ok (), s)
      else case internalCheck ctx internalPort tg s of
        (Ok _, s') \<Rightarrow> (Ok (), s')
      | (Panic p, s') \<Rightarrow> (Panic p, s')
      | (Err e, s') \<Rightarrow>
          (if errors_is e errShellNotExecutable then (Ok (), s')
           else if errors_is e errShellNotFound then (Ok (), s')
           else (Err (wrapf ''internal check'' e), s')))"

definition HostPort_WaitUntilReady ::
    "'w host_env \<Rightarrow> host_port_strategy \<Rightarrow> gctx \<Rightarrow> 'w target \<Rightarrow> (unit, 'w) call" where
  "HostPort_WaitUntilReady he hp ctx0 tg s =
     (let ctx = WithTimeout ctx0 (fst s) (timeout_or (hp_timeout hp)) in
      st_do (internal_port hp ctx tg s) (\<lambda>internalPort s1.
      st_do (wait_mapped (hp_PollInterval hp) ctx tg internalPort s1) (\<lambda>p s2.
      st_do (check_external he hp ctx tg p s2) (\<lambda>_ s3.
        check_internal hp ctx tg internalPort s3))))"



section \<open>sql.go\<close>

definition defaultForSQLQuery :: string where
  "defaultForSQLQuery = ''SELECT 1''"

record sql_strategy =
  sq_timeout :: "nat option"
  sq_URL :: "string \<Rightarrow> port \<Rightarrow> string"
  sq_Driver :: string
  sq_Port :: port
  sq_startupTimeout :: nat
  sq_PollInterval :: nat
  sq_query :: string

definition ForSQL :: "port \<Rightarrow> string \<Rightarrow> (string \<Rightarrow> port \<Rightarrow> string) \<Rightarrow> sql_strategy" where
  "ForSQL p driver u =
     \<lparr>sq_timeout = None, sq_URL = u, sq_Driver = driver, sq_Port = p, sq_startupTimeout = defaultTimeout,
      sq_PollInterval = defaultPollInterval, sq_query = defaultForSQLQuery\<rparr>"

definition SQL_WithTimeout :: "nat \<Rightarrow> sql_strategy \<Rightarrow> sql_strategy" where
  "SQL_WithTimeout d w = w\<lparr>sq_timeout := Some d\<rparr>"

definition SQL_WithPollInterval :: "nat \<Rightarrow> sql_strategy \<Rightarrow> sql_strategy" where
  "SQL_WithPollInterval d w = w\<lparr>sq_PollInterval := d\<rparr>"

definition WithQuery :: "string \<Rightarrow> sql_strategy \<Rightarrow> sql_strategy" where
  "WithQuery q w = w\<lparr>sq_query := q\<rparr>"

definition SQL_String :: "sql_strategy \<Rightarrow> string" where
  "SQL_String w =
     (let p = (if IsValid (sq_Port w) then show_port (sq_Port w) else ''default'');
          query = (if sq_query w \<noteq> defaultForSQLQuery then '' with query '' @ show_q (sq_query w) else '''')
      in ''SQL database on port '' @ p @ '' using driver '' @ show_q (sq_Driver w) @ query)"

text \<open>\<open>fmt.Errorf("%w: %w", ctx.Err(), err)\<close>, where \<open>err\<close> may be nil.\<close>

definition wrap_both :: "err \<Rightarrow> err option \<Rightarrow> err" where
  "wrap_both e prev =
     (case prev of Some x \<Rightarrow> Wrap2 '''' e '': '' x '''' | None \<Rightarrow> Wrap '''' e '': %!w(<nil>)'')"

text \<open>The state of the first loop: the ticker and \<open>err\<close>; it ends with the port and the ticker.\<close>

definition sql_port_round :: "sql_strategy \<Rightarrow> gctx \<Rightarrow> 'w target \<Rightarrow> (nat \<times> err option, port \<times> nat, 'w) rounds" where
  "sql_port_round w ctx tg st s =
     (case select_tick ctx (fst st) s of
        (Some e, s') \<Rightarrow> (Stop (Err (wrap_both e (snd st))), s')
      | (None, s') \<Rightarrow>
          (let n = next_tick (sq_PollInterval w) (fst st) (fst s') in
           case checkTarget ctx tg s' of
             (Panic p, s1) \<Rightarrow> (Stop (Panic p), s1)
           | (Err e, s1) \<Rightarrow> (Stop (Err e), s1)
           | (Ok _, s1) \<Rightarrow>
               (case mapped tg ctx (sq_Port w) s1 of
                  (Panic p, s2) \<Rightarrow> (Stop (Panic p), s2)
                | (Err e, s2) \<Rightarrow> (Stop (Err e), s2)
                | (Ok (p, e), s2) \<Rightarrow> (if p = zero_port then (Again (n, e), s2) else (Stop (Ok (p, n)), s2)))))"

definition sql_round ::
    "(gctx \<Rightarrow> string \<Rightarrow> (unit, 'w) call) \<Rightarrow> sql_strategy \<Rightarrow> gctx \<Rightarrow> 'w target \<Rightarrow> (nat, unit, 'w) rounds" where
  "sql_round db w ctx tg n s =
     (case select_tick ctx n s of
        (Some e, s') \<Rightarrow> (Stop (Err e), s')
      | (None, s') \<Rightarrow>
          (case checkTarget ctx tg s' of
             (Panic p, s1) \<Rightarrow> (Stop (Panic p), s1)
           | (Err e, s1) \<Rightarrow> (Stop (Err e), s1)
           | (Ok _, s1) \<Rightarrow>
               (case db ctx (sq_query w) s1 of
                  (Panic p, s2) \<Rightarrow> (Stop (Panic p), s2)
                | (Err e, s2) \<Rightarrow> (Again (next_tick (sq_PollInterval w) n (fst s')), s2)
                | (Ok _, s2) \<Rightarrow> (Stop (Ok ()), s2))))"

definition SQL_WaitUntilReady :: "'w host_env \<Rightarrow> sql_strategy \<Rightarrow> gctx \<Rightarrow> 'w target \<Rightarrow> (unit, 'w) call" where
  "SQL_WaitUntilReady he w ctx0 tg s =
     (let ctx = WithTimeout ctx0 (fst s) (timeout_or (sq_timeout w)) in
      st_do (tg_Host tg ctx s) (\<lambda>host s1.
        if sq_PollInterval w = 0 then (Panic bad_ticker, s1)
        else let n0 = fst s1 + sq_PollInterval w in
        st_do (mapped tg ctx (sq_Port w) s1) (\<lambda>pe s2.
        st_do (if fst pe \<noteq> zero_port then (Ok (fst pe, n0), s2) else poll (sql_port_round w ctx tg) (n0, snd pe) s2)
          (\<lambda>pn s3.
            case he_sqlOpen he (sq_Driver w) (sq_URL w host (fst pn)) of
              Panic p \<Rightarrow> (Panic p, s3)
            | Err e \<Rightarrow> (Err (wrapf ''sql.Open'' e), s3)
            | Ok db \<Rightarrow> poll (sql_round db w ctx tg) (snd pn) s3))))"


section \<open>http.go\<close>

text \<open>
  The body of the request is what the reader gives, and the error it ends with. Reading it uses it up; a
  second wait with the same strategy would have an empty body.
\<close>

record http_strategy =
  ht_timeout :: "nat option"
  ht_Port :: port
  ht_Path :: string
  ht_StatusCodeMatcher :: "(int \<Rightarrow> bool) option"
  ht_ResponseMatcher :: "(string \<Rightarrow> bool) option"
  ht_UseTLS :: bool
  ht_AllowInsecure :: bool
  ht_TLSConfig :: "tls_config option"
  ht_Method :: string
  ht_Body :: "(string \<times> err option) option"
  ht_Headers :: "string smap"
  ht_ResponseHeadersMatcher :: "((string \<rightharpoonup> string list) \<Rightarrow> bool) option"
  ht_PollInterval :: nat
  ht_UserInfo :: "(string \<times> string) option"
  ht_ForceIPv4LocalHost :: bool

definition defaultStatusCodeMatcher :: "int \<Rightarrow> bool" where
  "defaultStatusCodeMatcher status \<longleftrightarrow> status = 200"

definition NewHTTPStrategy :: "string \<Rightarrow> http_strategy" where
  "NewHTTPStrategy path =
     \<lparr>ht_timeout = None, ht_Port = zero_port, ht_Path = path,
      ht_StatusCodeMatcher = Some defaultStatusCodeMatcher, ht_ResponseMatcher = Some (\<lambda>_. True),
      ht_UseTLS = False, ht_AllowInsecure = False, ht_TLSConfig = None, ht_Method = ''GET'', ht_Body = None,
      ht_Headers = Map.empty, ht_ResponseHeadersMatcher = Some (\<lambda>_. True),
      ht_PollInterval = defaultPollInterval, ht_UserInfo = None, ht_ForceIPv4LocalHost = False\<rparr>"

definition ForHTTP :: "string \<Rightarrow> http_strategy" where
  "ForHTTP path = NewHTTPStrategy path"

definition HTTP_WithTimeout :: "nat \<Rightarrow> http_strategy \<Rightarrow> http_strategy" where
  "HTTP_WithTimeout d ws = ws\<lparr>ht_timeout := Some d\<rparr>"

definition WithPort :: "port \<Rightarrow> http_strategy \<Rightarrow> http_strategy" where
  "WithPort p ws = ws\<lparr>ht_Port := p\<rparr>"

definition WithStatusCodeMatcher :: "(int \<Rightarrow> bool) option \<Rightarrow> http_strategy \<Rightarrow> http_strategy" where
  "WithStatusCodeMatcher m ws = ws\<lparr>ht_StatusCodeMatcher := m\<rparr>"

definition WithStatus :: "int \<Rightarrow> http_strategy \<Rightarrow> http_strategy" where
  "WithStatus status ws = ws\<lparr>ht_StatusCodeMatcher := Some (\<lambda>x. x = status)\<rparr>"

definition HTTP_WithResponseMatcher :: "(string \<Rightarrow> bool) option \<Rightarrow> http_strategy \<Rightarrow> http_strategy" where
  "HTTP_WithResponseMatcher m ws = ws\<lparr>ht_ResponseMatcher := m\<rparr>"

definition WithTLS :: "bool \<Rightarrow> tls_config option list \<Rightarrow> http_strategy \<Rightarrow> http_strategy" where
  "WithTLS useTLS tlsconf ws =
     (let ws' = ws\<lparr>ht_UseTLS := useTLS\<rparr> in
      if useTLS \<and> tlsconf \<noteq> [] then ws'\<lparr>ht_TLSConfig := hd tlsconf\<rparr> else ws')"

definition WithAllowInsecure :: "bool \<Rightarrow> http_strategy \<Rightarrow> http_strategy" where
  "WithAllowInsecure b ws = ws\<lparr>ht_AllowInsecure := b\<rparr>"

definition WithMethod :: "string \<Rightarrow> http_strategy \<Rightarrow> http_strategy" where
  "WithMethod m ws = ws\<lparr>ht_Method := m\<rparr>"

definition WithBody :: "(string \<times> err option) option \<Rightarrow> http_strategy \<Rightarrow> http_strategy" where
  "WithBody b ws = ws\<lparr>ht_Body := b\<rparr>"

definition WithHeaders :: "string smap \<Rightarrow> http_strategy \<Rightarrow> http_strategy" where
  "WithHeaders h ws = ws\<lparr>ht_Headers := h\<rparr>"

definition WithResponseHeadersMatcher ::
    "((string \<rightharpoonup> string list) \<Rightarrow> bool) option \<Rightarrow> http_strategy \<Rightarrow> http_strategy" where
  "WithResponseHeadersMatcher m ws = ws\<lparr>ht_ResponseHeadersMatcher := m\<rparr>"

definition WithBasicAuth :: "string \<Rightarrow> string \<Rightarrow> http_strategy \<Rightarrow> http_strategy" where
  "WithBasicAuth username password ws = ws\<lparr>ht_UserInfo := Some (username, password)\<rparr>"

definition HTTP_WithPollInterval :: "nat \<Rightarrow> http_strategy \<Rightarrow> http_strategy" where
  "HTTP_WithPollInterval d ws = ws\<lparr>ht_PollInterval := d\<rparr>"

definition WithForcedIPv4LocalHost :: "http_strategy \<Rightarrow> http_strategy" where
  "WithForcedIPv4LocalHost ws = ws\<lparr>ht_ForceIPv4LocalHost := True\<rparr>"

definition HTTP_String :: "http_strategy \<Rightarrow> string" where
  "HTTP_String ws =
     (let proto = (if ht_UseTLS ws then ''HTTPS'' else ''HTTP'');
          p = (if IsValid (ht_Port ws) then show_port (ht_Port ws) else ''default'')
      in proto @ '' '' @ ht_Method ws @ '' request on port '' @ p @ '' path '' @ show_q (ht_Path ws))"

text \<open>\<open>strings.Replace(s, old, new, 1)\<close>.\<close>

fun replace_first :: "string \<Rightarrow> string \<Rightarrow> string \<Rightarrow> string" where
  "replace_first old new [] = (if old = [] then new else [])"
| "replace_first old new (c # s) =
     (if has_prefix (c # s) old then new @ drop (length old) (c # s) else c # replace_first old new s)"

definition tcp :: string where
  "tcp = ''tcp''"

text \<open>The lowest port that has a binding and speaks tcp, and the host port of its first binding.\<close>

fun lowest_tcp :: "port \<times> string \<Rightarrow> (port \<times> port_binding list) list \<Rightarrow> port \<times> string" where
  "lowest_tcp low [] = low"
| "lowest_tcp low ((p, bs) # ps) =
     lowest_tcp
       (if bs = [] \<or> po_proto p \<noteq> tcp then low
        else if fst low = zero_port \<or> po_num p < po_num (fst low) then (p, pb_HostPort (hd bs)) else low) ps"

definition no_tcp_port :: err where
  "no_tcp_port = Msg ''no exposed tcp ports or mapped ports - cannot wait for status''"

definition lowest_mapped :: "'w host_env \<Rightarrow> http_strategy \<Rightarrow> gctx \<Rightarrow> 'w target \<Rightarrow> (port, 'w) call" where
  "lowest_mapped he ws ctx tg s =
     (case select_after ctx (ht_PollInterval ws) (fst s) of
        (Some e, t) \<Rightarrow> (Err e, (t, snd s))
      | (None, t) \<Rightarrow>
          st_do (checkTarget ctx tg (t, snd s)) (\<lambda>_ s1.
          st_do (tg_Inspect tg ctx s1) (\<lambda>i s2.
            case lowest_tcp (zero_port, '''') (in_Ports i) of
              (low, hostPort) \<Rightarrow>
                (if low = zero_port then (Err no_tcp_port, s2)
                 else (he_ParsePort he (hostPort @ ''/'' @ po_proto low), s2)))))"

text \<open>The state of the loop is \<open>err\<close>.\<close>

definition http_port_round :: "http_strategy \<Rightarrow> gctx \<Rightarrow> 'w target \<Rightarrow> (err option, port, 'w) rounds" where
  "http_port_round ws ctx tg prev s =
     (case select_after ctx (ht_PollInterval ws) (fst s) of
        (Some e, t) \<Rightarrow> (Stop (Err (wrap_both e prev)), (t, snd s))
      | (None, t) \<Rightarrow>
          (case checkTarget ctx tg (t, snd s) of
             (Panic p, s1) \<Rightarrow> (Stop (Panic p), s1)
           | (Err e, s1) \<Rightarrow> (Stop (Err e), s1)
           | (Ok _, s1) \<Rightarrow>
               (case mapped tg ctx (ht_Port ws) s1 of
                  (Panic p, s2) \<Rightarrow> (Stop (Panic p), s2)
                | (Err e, s2) \<Rightarrow> (Stop (Err e), s2)
                | (Ok (p, e), s2) \<Rightarrow> (if p = zero_port then (Again e, s2) else (Stop (Ok p), s2)))))"

definition http_port :: "'w host_env \<Rightarrow> http_strategy \<Rightarrow> gctx \<Rightarrow> 'w target \<Rightarrow> (port, 'w) call" where
  "http_port he ws ctx tg s =
     (if ht_Port ws = zero_port then lowest_mapped he ws ctx tg s
      else st_do (mapped tg ctx (ht_Port ws) s) (\<lambda>pe s1.
        st_do (if fst pe \<noteq> zero_port then (Ok (fst pe), s1) else poll (http_port_round ws ctx tg) (snd pe) s1)
          (\<lambda>p s2. if po_proto p \<noteq> tcp then (Err (Msg ''cannot use HTTP client on non-TCP ports''), s2) else (Ok p, s2))))"

definition http_methods :: "string list" where
  "http_methods = [''GET'', ''HEAD'', ''POST'', ''PUT'', ''PATCH'', ''DELETE'', ''CONNECT'', ''OPTIONS'', ''TRACE'']"

definition http_method :: "string \<Rightarrow> string outcome" where
  "http_method m =
     (if m \<in> set http_methods then Ok m
      else if m \<noteq> '''' then Err (Msg (''invalid http method '' @ show_q m)) else Ok ''GET'')"

definition http_tls :: "http_strategy \<Rightarrow> tls_config option" where
  "http_tls ws =
     (if ht_UseTLS ws \<and> ht_AllowInsecure ws then
        Some (case ht_TLSConfig ws of None \<Rightarrow> zero_tls_config\<lparr>tc_InsecureSkipVerify := True\<rparr>
              | Some c \<Rightarrow> c\<lparr>tc_InsecureSkipVerify := True\<rparr>)
      else ht_TLSConfig ws)"

definition http_body :: "http_strategy \<Rightarrow> string outcome" where
  "http_body ws = (case ht_Body ws of None \<Rightarrow> Ok '''' | Some (b, None) \<Rightarrow> Ok b | Some (b, Some e) \<Rightarrow> Err e)"

text \<open>
  The request of every round; \<open>Set\<close> of the headers is left to package net/http. When the strategy has no user, the user
  information that the path may hold goes with the URL.
\<close>

definition http_request_of :: "http_strategy \<Rightarrow> string \<Rightarrow> port \<Rightarrow> http_request outcome" where
  "http_request_of ws ipAddress p =
     then_do (http_method (ht_Method ws)) (\<lambda>m.
     then_do (url_parse (ht_Path ws)) (\<lambda>u.
     then_do (http_body ws) (\<lambda>body.
       Ok \<lparr>rq_Method = m,
           rq_URL = u\<lparr>url_scheme := (if ht_UseTLS ws then ''https'' else ''http''),
                      url_host := JoinHostPort ipAddress (po_num p)\<rparr>,
           rq_User = ht_UserInfo ws, rq_Headers = ht_Headers ws, rq_Body = body, rq_TLS = http_tls ws\<rparr>)))"

definition matches :: "('a \<Rightarrow> bool) option \<Rightarrow> 'a \<Rightarrow> bool" where
  "matches m x = (case m of None \<Rightarrow> True | Some f \<Rightarrow> f x)"

definition http_round ::
    "'w host_env \<Rightarrow> http_strategy \<Rightarrow> http_request \<Rightarrow> gctx \<Rightarrow> 'w target \<Rightarrow> (unit, unit, 'w) rounds" where
  "http_round he ws req ctx tg u s =
     (case select_after ctx (ht_PollInterval ws) (fst s) of
        (Some e, t) \<Rightarrow> (Stop (Err e), (t, snd s))
      | (None, t) \<Rightarrow>
          (case checkTarget ctx tg (t, snd s) of
             (Panic p, s1) \<Rightarrow> (Stop (Panic p), s1)
           | (Err e, s1) \<Rightarrow> (Stop (Err e), s1)
           | (Ok _, s1) \<Rightarrow>
               (case he_Do he ctx req s1 of
                  (Panic p, s2) \<Rightarrow> (Stop (Panic p), s2)
                | (Err e, s2) \<Rightarrow> (Again (), s2)
                | (Ok resp, s2) \<Rightarrow>
                    (if \<not> matches (ht_StatusCodeMatcher ws) (rs_StatusCode resp) then (Again (), s2)
                     else if \<not> matches (ht_ResponseMatcher ws) (rs_Body resp) then (Again (), s2)
                     else if \<not> matches (ht_ResponseHeadersMatcher ws) (rs_Header resp) then (Again (), s2)
                     else if rs_Close resp \<noteq> None then (Again (), s2)
                     else (Stop (Ok ()), s2)))))"

definition HTTP_WaitUntilReady :: "'w host_env \<Rightarrow> http_strategy \<Rightarrow> gctx \<Rightarrow> 'w target \<Rightarrow> (unit, 'w) call" where
  "HTTP_WaitUntilReady he ws ctx0 tg s =
     (let ctx = WithTimeout ctx0 (fst s) (timeout_or (ht_timeout ws)) in
      st_do (tg_Host tg ctx s) (\<lambda>host s1.
        let ipAddress = (if ht_ForceIPv4LocalHost ws then replace_first ''localhost'' ''127.0.0.1'' host else host) in
        st_do (http_port he ws ctx tg s1) (\<lambda>p s2.
        st_do (http_request_of ws ipAddress p, s2) (\<lambda>req s3.
          poll (http_round he ws req ctx tg) () s3))))"



section \<open>The strategies come back\<close>

lemma answers_mapped:
  assumes "answering tg"
  shows "answers (mapped tg ctx p)"
  by (rule answersI) (auto simp: mapped_def split: round_splits dest!: answersD [OF answeringD(5) [OF assms]])

lemma select_after_next:
  "select_after (Some (due, e)) d now = (x, t) \<Longrightarrow>
     now \<le> t \<and> (x = None \<longrightarrow> 0 < d \<longrightarrow> now < t \<and> now < due)"
  by (auto simp: select_after_def split: if_splits option.splits)

lemma select_tick_next:
  "select_tick (Some (due, e)) n s = (x, s') \<Longrightarrow> fst s \<le> fst s' \<and> (x = None \<longrightarrow> n < due)"
  by (auto simp: select_tick_def select_after_def split: if_splits option.splits)

lemma answers_detectInternalPort:
  assumes "answering tg"
  shows "answers (detectInternalPort ctx tg)"
  unfolding detectInternalPort_def
  by (intro answers_st_wrap answeringD(2) [OF assms] answers_return) simp

lemma detect_round_answers:
  assumes tg: "answering tg" and "0 < interval"
  shows "answers (poll (detect_round interval (Some (due, e)) tg) u)"
proof (rule poll_answers [where m = "\<lambda>_ s. due - fst s"])
  fix u :: unit and s q s'
  assume "detect_round interval (Some (due, e)) tg u s = (q, s')"
  with assms(2) show "fst s \<le> fst s' \<and> (case q of Again _ \<Rightarrow> due - fst s' < due - fst s | Stop r \<Rightarrow> r \<noteq> Panic never_returns)"
    by (auto simp: detect_round_def split: round_splits
        dest!: select_after_next
          answersD [OF answers_checkTarget [OF tg]] answersD [OF answers_detectInternalPort [OF tg]])
qed

lemma mapped_round_answers:
  assumes tg: "answering tg" and "0 < interval"
  shows "answers (poll (mapped_round interval (Some (due, e)) tg p) st)"
proof (rule poll_answers [where m = "\<lambda>_ s. due - fst s"])
  fix st s q s'
  assume "mapped_round interval (Some (due, e)) tg p st s = (q, s')"
  with assms(2) show "fst s \<le> fst s' \<and> (case q of Again _ \<Rightarrow> due - fst s' < due - fst s | Stop r \<Rightarrow> r \<noteq> Panic never_returns)"
    by (auto simp: mapped_round_def Let_def split: round_splits
        dest!: select_after_next
          answersD [OF answers_checkTarget [OF tg]] answersD [OF answers_mapped [OF tg]])
qed

lemma http_port_round_answers:
  assumes tg: "answering tg" and "0 < ht_PollInterval ws"
  shows "answers (poll (http_port_round ws (Some (due, e)) tg) st)"
proof (rule poll_answers [where m = "\<lambda>_ s. due - fst s"])
  fix st s q s'
  assume "http_port_round ws (Some (due, e)) tg st s = (q, s')"
  with assms(2) show "fst s \<le> fst s' \<and> (case q of Again _ \<Rightarrow> due - fst s' < due - fst s | Stop r \<Rightarrow> r \<noteq> Panic never_returns)"
    by (auto simp: http_port_round_def split: round_splits
        dest!: select_after_next
          answersD [OF answers_checkTarget [OF tg]] answersD [OF answers_mapped [OF tg]])
qed

lemma sql_port_round_answers:
  assumes tg: "answering tg" and "0 < sq_PollInterval w"
  shows "answers (poll (sql_port_round w (Some (due, e)) tg) st)"
proof (rule poll_answers [where m = "\<lambda>st _. due - fst st"])
  fix st s q s'
  assume "sql_port_round w (Some (due, e)) tg st s = (q, s')"
  with next_tick_later [OF assms(2), of "fst st"]
  show "fst s \<le> fst s' \<and> (case q of Again st' \<Rightarrow> due - fst st' < due - fst st | Stop r \<Rightarrow> r \<noteq> Panic never_returns)"
    by (auto simp: sql_port_round_def Let_def diff_less_mono2 split: round_splits
        dest!: select_tick_next
          answersD [OF answers_checkTarget [OF tg]] answersD [OF answers_mapped [OF tg]])
qed

lemma external_round_answers:
  assumes tg: "answering tg" and he: "answering_host he" and "0 < interval"
  shows "answers (poll (external_round he interval (Some (due, e)) tg p a) i)"
proof (rule poll_answers [where m = "\<lambda>_ s. due - fst s"])
  fix i s q s'
  assume r: "external_round he interval (Some (due, e)) tg p a i s = (q, s')"
  have dial: "answers (he_Dial he (Some (due, e)) p a)" using he by (simp add: answering_host_def)
  have dialled: "r \<noteq> Panic never_returns \<and> fst s1 \<le> fst s2 \<and> (\<forall>x. r = Err x \<longrightarrow> isConnRefusedErr x \<longrightarrow> fst s1 < due)"
    if "he_Dial he (Some (due, e)) p a s1 = (r, s2)" for s1 s2 r
    using he that answersD [OF dial that] unfolding answering_host_def by (metis ctx_err_None_due)
  from r show "fst s \<le> fst s' \<and> (case q of Again _ \<Rightarrow> due - fst s' < due - fst s | Stop r \<Rightarrow> r \<noteq> Panic never_returns)"
    using assms(3) by (auto simp: external_round_def split: round_splits
        dest!: dialled answersD [OF answers_checkTarget [OF tg]])
qed


lemma internal_round_answers:
  assumes tg: "answering tg"
  shows "answers (poll (internal_round (Some (due, e)) command tg) u)"
proof (rule poll_answers [where m = "\<lambda>_ s. due - fst s"])
  fix u :: unit and s q s'
  assume "internal_round (Some (due, e)) command tg u s = (q, s')"
  then show "fst s \<le> fst s' \<and> (case q of Again _ \<Rightarrow> due - fst s' < due - fst s | Stop r \<Rightarrow> r \<noteq> Panic never_returns)"
    by (auto simp: internal_round_def ctx_err_def split: round_splits
        dest!: answersD [OF answers_checkTarget [OF tg]] answering_Exec [OF tg])
qed

lemma sql_round_answers:
  assumes tg: "answering tg" and "0 < sq_PollInterval w" and db: "\<And>c q. answers (db c q)"
  shows "answers (poll (sql_round db w (Some (due, e)) tg) n)"
proof (rule poll_answers [where m = "\<lambda>n _. due - n"])
  fix n s q s'
  assume "sql_round db w (Some (due, e)) tg n s = (q, s')"
  with next_tick_later [OF assms(2), of n]
  show "fst s \<le> fst s' \<and> (case q of Again n' \<Rightarrow> due - n' < due - n | Stop r \<Rightarrow> r \<noteq> Panic never_returns)"
    by (auto simp: sql_round_def diff_less_mono2 split: round_splits
        dest!: select_tick_next answersD [OF answers_checkTarget [OF tg]] answersD [OF db])
qed

lemma http_round_answers:
  assumes tg: "answering tg" and he: "answering_host he" and "0 < ht_PollInterval ws"
  shows "answers (poll (http_round he ws req (Some (due, e)) tg) u)"
proof (rule poll_answers [where m = "\<lambda>_ s. due - fst s"])
  fix u :: unit and s q s'
  assume r: "http_round he ws req (Some (due, e)) tg u s = (q, s')"
  have do: "answers (he_Do he (Some (due, e)) req)" using he by (simp add: answering_host_def)
  from r assms(3)
  show "fst s \<le> fst s' \<and> (case q of Again _ \<Rightarrow> due - fst s' < due - fst s | Stop r \<Rightarrow> r \<noteq> Panic never_returns)"
    by (auto simp: http_round_def split: round_splits
        dest!: select_after_next answersD [OF answers_checkTarget [OF tg]] answersD [OF do])
qed

lemma never_returns_neq [simp]: "bad_ticker \<noteq> never_returns" "never_returns \<noteq> bad_ticker"
  by (simp_all add: bad_ticker_def never_returns_def)

interpretation host_port: waiting
  "\<lambda>hp. 0 < hp_PollInterval hp \<and> answering_host he" "HostPort_WaitUntilReady he" for he :: "'w host_env"
proof
  fix hp :: host_port_strategy and tg :: "'w target" and ctx
  assume "0 < hp_PollInterval hp \<and> answering_host he" and tg: "answering tg"
  then have hp: "0 < hp_PollInterval hp" and he: "answering_host he" by simp_all
  have internal: "answers (check_internal hp (Some (due, e)) tg p)" for due e p
    using internal_round_answers [OF tg]
    by (intro answersI)
      (auto simp: check_internal_def internalCheck_def split: round_splits dest!: answersD)
  have external: "answers (check_external he hp (Some (due, e)) tg p)" for due e p
    unfolding check_external_def externalCheck_def
    by (intro answers_if answers_return answers_st_wrap answeringD(1) [OF tg] external_round_answers [OF tg he hp]) simp_all
  have "answers (\<lambda>s. st_do (internal_port hp (Some (due, e)) tg s) (\<lambda>internalPort s1.
      st_do (wait_mapped (hp_PollInterval hp) (Some (due, e)) tg internalPort s1) (\<lambda>p s2.
      st_do (check_external he hp (Some (due, e)) tg p s2) (\<lambda>_ s3.
        check_internal hp (Some (due, e)) tg internalPort s3))))" for due e
    unfolding internal_port_def wait_mapped_def
    by (intro answers_st_do answers_st_wrap answers_if answers_return internal external
        answers_detectInternalPort [OF tg] detect_round_answers [OF tg hp]
        answers_mapped [OF tg] mapped_round_answers [OF tg hp]) simp_all
  then show "answers (HostPort_WaitUntilReady he hp ctx tg)"
    unfolding HostPort_WaitUntilReady_def Let_def
    by (rule answers_Timeout [where f = "\<lambda>c s. st_do (internal_port hp c tg s) (\<lambda>internalPort s1.
      st_do (wait_mapped (hp_PollInterval hp) c tg internalPort s1) (\<lambda>p s2.
      st_do (check_external he hp c tg p s2) (\<lambda>_ s3.
        check_internal hp c tg internalPort s3)))"])
qed


interpretation sql_wait: waiting
  "\<lambda>w. 0 < sq_PollInterval w \<and> answering_host he" "SQL_WaitUntilReady he" for he :: "'w host_env"
proof
  fix w :: sql_strategy and tg :: "'w target" and ctx
  assume "0 < sq_PollInterval w \<and> answering_host he" and tg: "answering tg"
  then have w: "0 < sq_PollInterval w" and he: "answering_host he" by simp_all
  have query: "answers (\<lambda>s. case he_sqlOpen he d u of Panic p \<Rightarrow> (Panic p, s) | Err e \<Rightarrow> (Err (wrapf ''sql.Open'' e), s)
      | Ok db \<Rightarrow> poll (sql_round db w (Some (due, e)) tg) n s)" for d u due e n
  proof (cases "he_sqlOpen he d u")
    case (Ok db)
    with he have "answers (db c q)" for c q by (auto simp: answering_host_def)
    with Ok sql_round_answers [OF tg w, where db = db] show ?thesis by simp
  qed (use he in \<open>auto simp: answering_host_def intro!: answers_return\<close>)
  define body where "body = (\<lambda>c host n0 s1. st_do (mapped tg c (sq_Port w) s1) (\<lambda>pe s2.
        st_do (if fst pe \<noteq> zero_port then (Ok (fst pe, n0), s2) else poll (sql_port_round w c tg) (n0, snd pe) s2)
          (\<lambda>pn s3. case he_sqlOpen he (sq_Driver w) (sq_URL w host (fst pn)) of
              Panic p \<Rightarrow> (Panic p, s3)
            | Err e \<Rightarrow> (Err (wrapf ''sql.Open'' e), s3)
            | Ok db \<Rightarrow> poll (sql_round db w c tg) (snd pn) s3)))"
  have rest: "answers (body (Some (due, e)) host n0)" for due e host n0
    unfolding body_def
    by (intro answers_st_do answers_if answers_return answers_mapped [OF tg] sql_port_round_answers [OF tg w] query) simp
  have "answers (\<lambda>s. st_do (tg_Host tg (Some (due, e)) s) (\<lambda>host s1.
      body (Some (due, e)) host (fst s1 + sq_PollInterval w) s1))" for due e
    by (rule answers_st_do [OF answeringD(1) [OF tg] answers_at [OF rest]])
  then have "answers (\<lambda>s. (\<lambda>c s. st_do (tg_Host tg c s) (\<lambda>host s1. body c host (fst s1 + sq_PollInterval w) s1))
      (WithTimeout ctx (fst s) (timeout_or (sq_timeout w))) s)"
    by (rule answers_Timeout)
  with w show "answers (SQL_WaitUntilReady he w ctx tg)"
    unfolding SQL_WaitUntilReady_def body_def Let_def by simp
qed

interpretation http_wait: waiting
  "\<lambda>ws. 0 < ht_PollInterval ws \<and> answering_host he"
  "HTTP_WaitUntilReady he" for he :: "'w host_env"
proof
  fix ws :: http_strategy and tg :: "'w target" and ctx
  assume "0 < ht_PollInterval ws \<and> answering_host he"
    and tg: "answering tg"
  then have ws: "0 < ht_PollInterval ws" and he: "answering_host he" by simp_all
  have req: "http_request_of ws ip p \<noteq> Panic never_returns" for ip p
    by (auto simp: http_request_of_def http_method_def http_body_def then_do_def url_parse_no_panic split: round_splits)
  have parse: "he_ParsePort he x \<noteq> Panic never_returns" for x using he by (simp add: answering_host_def)
  have lowest: "answers (lowest_mapped he ws (Some (due, e)) tg)" for due e
  proof (rule answersI)
    fix s r s' assume r: "lowest_mapped he ws (Some (due, e)) tg s = (r, s')"
    have "answers (\<lambda>s. st_do (checkTarget (Some (due, e)) tg s) (\<lambda>_ s1. st_do (tg_Inspect tg (Some (due, e)) s1) (\<lambda>i s2.
        case lowest_tcp (zero_port, '''') (in_Ports i) of (low, hostPort) \<Rightarrow>
          (if low = zero_port then (Err no_tcp_port, s2) else (he_ParsePort he (hostPort @ ''/'' @ po_proto low), s2)))))"
      by (intro answers_st_do answers_checkTarget [OF tg] answeringD(2) [OF tg])
        (auto simp: parse intro!: answers_case_prod answers_if answers_return)
    note look = answersD [OF this]
    obtain x t where x: "select_after (Some (due, e)) (ht_PollInterval ws) (fst s) = (x, t)"
      by (cases "select_after (Some (due, e)) (ht_PollInterval ws) (fst s)")
    from select_after_next [OF x] r x show "r \<noteq> Panic never_returns \<and> fst s \<le> fst s'"
      by (cases x) (auto simp: lowest_mapped_def dest!: look)
  qed
  have port: "answers (http_port he ws (Some (due, e)) tg)" for due e
    unfolding http_port_def
    by (intro answers_if answers_st_do answers_return answers_mapped [OF tg] http_port_round_answers [OF tg ws] lowest) simp_all
  have "answers (\<lambda>s. st_do (tg_Host tg (Some (due, e)) s) (\<lambda>host s1.
        st_do (http_port he ws (Some (due, e)) tg s1) (\<lambda>p s2.
        st_do (http_request_of ws (if ht_ForceIPv4LocalHost ws then replace_first ''localhost'' ''127.0.0.1'' host else host) p, s2)
          (\<lambda>req s3. poll (http_round he ws req (Some (due, e)) tg) () s3))))" for due e
    by (intro answers_st_do answeringD(1) [OF tg] port answers_return [OF req] http_round_answers [OF tg he ws])
  then show "answers (HTTP_WaitUntilReady he ws ctx tg)"
    unfolding HTTP_WaitUntilReady_def Let_def
    by (rule answers_Timeout [where f = "\<lambda>c s. st_do (tg_Host tg c s) (\<lambda>host s1.
        st_do (http_port he ws c tg s1) (\<lambda>p s2.
        st_do (http_request_of ws (if ht_ForceIPv4LocalHost ws then replace_first ''localhost'' ''127.0.0.1'' host else host) p, s2)
          (\<lambda>req s3. poll (http_round he ws req c tg) () s3)))"])
qed



section \<open>What the outcome of a strategy means\<close>

lemma mapped_Ok: "mapped tg ctx p s = (Ok (q, e), s') \<Longrightarrow> q \<noteq> zero_port \<Longrightarrow> tg_MappedPort tg ctx p s = (Ok q, s')"
  by (auto simp: mapped_def split: round_splits)

definition host_step :: "'w host_env \<Rightarrow> gctx \<Rightarrow> 'w clocked \<Rightarrow> 'w clocked \<Rightarrow> bool" where
  "host_step he ctx s s' \<longleftrightarrow> (\<exists>p a r. he_Dial he ctx p a s = (r, s')) \<or> (\<exists>req r. he_Do he ctx req s = (r, s'))"

abbreviation waited :: "'w host_env \<Rightarrow> 'w target \<Rightarrow> gctx \<Rightarrow> 'w clocked \<Rightarrow> 'w clocked \<Rightarrow> bool" where
  "waited he tg ctx \<equiv> (sup (target_step tg ctx) (host_step he ctx))\<^sup>*\<^sup>*"

lemma waited_seen: "seen tg ctx s s' \<Longrightarrow> waited he tg ctx s s'"
  by (rule rtranclp_mono [OF sup_ge1, THEN predicate2D])

lemma waited_dial: "he_Dial he ctx p a s = (r, s') \<Longrightarrow> waited he tg ctx s s'"
  and waited_do: "he_Do he ctx req s = (q, s') \<Longrightarrow> waited he tg ctx s s'"
  by (rule r_into_rtranclp; simp add: host_step_def; blast)+

lemma seen_mapped: "mapped tg ctx p s = (r, s') \<Longrightarrow> seen tg ctx s s'"
  by (auto simp: mapped_def split: round_splits dest: seen_calls)

lemma seen_detectInternalPort: "detectInternalPort ctx tg s = (r, s') \<Longrightarrow> seen tg ctx s s'"
  by (cases "tg_Inspect tg ctx s"; cases "fst (tg_Inspect tg ctx s)") (auto simp: detectInternalPort_def dest: seen_calls)

lemma seen_detect_round: "detect_round interval ctx tg u s = (q, s') \<Longrightarrow> seen tg ctx s s'"
  by (cases s) (auto simp: detect_round_def split: round_splits
      dest!: seen_select [where tg = tg and w = "snd s"] seen_checkTarget seen_detectInternalPort intro: rtranclp_trans)

lemma seen_mapped_round: "mapped_round interval ctx tg ip st s = (q, s') \<Longrightarrow> seen tg ctx s s'"
  by (cases s) (auto simp: mapped_round_def Let_def split: round_splits
      dest!: seen_select [where tg = tg and w = "snd s"] seen_checkTarget seen_mapped intro: rtranclp_trans)

lemma seen_http_port_round: "http_port_round ws ctx tg st s = (q, s') \<Longrightarrow> seen tg ctx s s'"
  by (cases s) (auto simp: http_port_round_def split: round_splits
      dest!: seen_select [where tg = tg and w = "snd s"] seen_checkTarget seen_mapped intro: rtranclp_trans)

lemma waited_external_round: "external_round he interval ctx tg proto address i s = (q, s') \<Longrightarrow> waited he tg ctx s s'"
  by (auto simp: external_round_def split: round_splits
      dest!: seen_checkTarget [THEN waited_seen [where he = he]] waited_dial [where tg = tg]
      intro: rtranclp_trans waited_seen [OF seen_sleep])

lemma seen_internal_round: "internal_round ctx cmd tg u s = (q, s') \<Longrightarrow> seen tg ctx s s'"
  by (auto simp: internal_round_def split: round_splits dest!: seen_checkTarget seen_calls(5) intro: rtranclp_trans)

lemma waited_http_round: "http_round he ws req ctx tg u s = (q, s') \<Longrightarrow> waited he tg ctx s s'"
  by (cases s) (auto simp: http_round_def split: round_splits
      dest!: seen_select [where tg = tg and w = "snd s", THEN waited_seen [where he = he]]
        seen_checkTarget [THEN waited_seen [where he = he]] waited_do [where tg = tg] intro: rtranclp_trans)

lemma lowest_port_in: "lowest_port low ps \<in> insert low (set ps)"
  by (induction low ps rule: lowest_port.induct) auto

lemma lowest_port_least: "zero_port \<notin> set ps \<Longrightarrow> low \<noteq> zero_port \<Longrightarrow> q \<in> insert low (set ps) \<Longrightarrow> po_num (lowest_port low ps) \<le> po_num q"
proof (induction low ps arbitrary: q rule: lowest_port.induct)
  case (2 low p ps)
  let ?n = "if low = zero_port \<or> po_num p < po_num low then p else low"
  have n: "zero_port \<notin> set ps" "?n \<noteq> zero_port" using 2(2,3) by auto
  consider "q \<in> insert ?n (set ps)" | "po_num ?n \<le> po_num q" using 2(3,4) by (cases "q = low"; cases "q = p") auto
  then show ?case
  proof cases
    case 1
    then show ?thesis using 2(1) [OF n, of q] by simp
  next
    case 2
    then show ?thesis using "2.IH" [OF n, of ?n] by simp
  qed
qed simp

text \<open>The lowest of the exposed ports.\<close>

definition lowest_exposed :: "container_inspected \<Rightarrow> port \<Rightarrow> bool" where
  "lowest_exposed i p \<longleftrightarrow> p \<in> fst ` set (in_Ports i)
     \<and> (zero_port \<notin> fst ` set (in_Ports i) \<longrightarrow> (\<forall>q \<in> fst ` set (in_Ports i). po_num p \<le> po_num q))"

lemma detectInternalPort_Ok:
  assumes "detectInternalPort ctx tg s = (Ok p, s')" and "p \<noteq> zero_port"
  shows "\<exists>i. tg_Inspect tg ctx s = (Ok i, s') \<and> lowest_exposed i p"
proof -
  from assms(1) obtain i where i: "tg_Inspect tg ctx s = (Ok i, s')" and p: "p = lowest_port zero_port (map fst (in_Ports i))"
    by (auto simp: detectInternalPort_def outcome_simps)
  from p assms(2) lowest_port_in [of zero_port "map fst (in_Ports i)"] have "p \<in> fst ` set (in_Ports i)" by auto
  moreover have "po_num p \<le> po_num q" if q: "zero_port \<notin> fst ` set (in_Ports i)" "q \<in> fst ` set (in_Ports i)" for q
  proof (cases "map fst (in_Ports i)")
    case (Cons x xs)
    then have "p = lowest_port x xs" "set (x # xs) = fst ` set (in_Ports i)" using p by (simp, metis set_map)
    with lowest_port_least [of xs x q] q show ?thesis by auto
  qed (use q in simp)
  ultimately show ?thesis using i by (auto simp: lowest_exposed_def)
qed

lemma internal_port_found:
  assumes "internal_port hp ctx tg s = (Ok p, s')"
  shows "p \<noteq> zero_port \<and> (if hp_Port hp \<noteq> zero_port then p = hp_Port hp \<and> s' = s
      else \<exists>s1 i. seen tg ctx s s1 \<and> tg_Inspect tg ctx s1 = (Ok i, s') \<and> lowest_exposed i p)"
proof (cases "hp_Port hp = zero_port")
  case True
  with assms obtain q s1 where q: "detectInternalPort ctx tg s = (Ok q, s1)"
    and rest: "(if q \<noteq> zero_port then (Ok q, s1) else poll (detect_round (hp_PollInterval hp) ctx tg) () s1) = (Ok p, s')"
    by (auto simp: internal_port_def outcome_simps)
  show ?thesis
  proof (cases "q = zero_port")
    case True
    with rest have "poll (detect_round (hp_PollInterval hp) ctx tg) () s1 = (Ok p, s')" by simp
    then obtain u s2 where "seen tg ctx s1 s2" and stop: "detect_round (hp_PollInterval hp) ctx tg u s2 = (Stop (Ok p), s')"
      by (rule poll_Ok_seen [where R = "target_step tg ctx"]) (rule seen_detect_round)
    with seen_detectInternalPort [OF q] have s2: "seen tg ctx s s2" by simp
    from stop obtain t s3 where "select_after ctx (hp_PollInterval hp) (fst s2) = (None, t)"
      "checkTarget ctx tg (t, snd s2) = (Ok (), s3)" and d: "detectInternalPort ctx tg s3 = (Ok p, s')" "p \<noteq> zero_port"
      by (auto simp: detect_round_def split: round_splits)
    with seen_select [of ctx _ "fst s2" None t tg "snd s2"] seen_checkTarget s2 have "seen tg ctx s s3"
      by (metis prod.collapse rtranclp_trans)
    with detectInternalPort_Ok [OF d] d(2) \<open>hp_Port hp = zero_port\<close> show ?thesis by (auto simp del: split_paired_Ex)
  next
    case False
    with rest have "p = q" "s' = s1" by simp_all
    from detectInternalPort_Ok [OF q False] obtain i where "tg_Inspect tg ctx s = (Ok i, s1)" "lowest_exposed i q" by blast
    with \<open>s' = s1\<close> \<open>p = q\<close> False True show ?thesis by (simp del: split_paired_Ex) blast
  qed
qed (use assms in \<open>simp add: internal_port_def\<close>)

lemma wait_mapped_found:
  assumes "wait_mapped interval ctx tg ip s = (Ok p, s')"
  shows "p \<noteq> zero_port \<and> (\<exists>s1. seen tg ctx s s1 \<and> tg_MappedPort tg ctx ip s1 = (Ok p, s'))"
proof -
  from assms obtain pe s1 where m: "mapped tg ctx ip s = (Ok pe, s1)"
    and rest: "(if fst pe \<noteq> zero_port then (Ok (fst pe), s1)
        else poll (mapped_round interval ctx tg ip) (0, snd pe) s1) = (Ok p, s')"
    by (auto simp: wait_mapped_def outcome_simps)
  show ?thesis
  proof (cases "fst pe = zero_port")
    case True
    with rest have "poll (mapped_round interval ctx tg ip) (0, snd pe) s1 = (Ok p, s')" by simp
    then obtain st s2 where "seen tg ctx s1 s2" and stop: "mapped_round interval ctx tg ip st s2 = (Stop (Ok p), s')"
      by (rule poll_Ok_seen [where R = "target_step tg ctx"]) (rule seen_mapped_round)
    with seen_mapped [OF m] have s2: "seen tg ctx s s2" by simp
    from stop obtain t s3 e where "select_after ctx interval (fst s2) = (None, t)"
      "checkTarget ctx tg (t, snd s2) = (Ok (), s3)" and d: "mapped tg ctx ip s3 = (Ok (p, e), s')" "p \<noteq> zero_port"
      by (auto simp: mapped_round_def Let_def split: round_splits)
    with seen_select [of ctx _ "fst s2" None t tg "snd s2"] seen_checkTarget s2 have "seen tg ctx s s3"
      by (metis prod.collapse rtranclp_trans)
    with mapped_Ok [OF d] d(2) show ?thesis by blast
  next
    case False
    with rest m have "p \<noteq> zero_port" "mapped tg ctx ip s = (Ok (p, snd pe), s')" by auto
    with mapped_Ok show ?thesis by blast
  qed
qed

lemma externalCheck_Ok:
  assumes "externalCheck he ctx host p tg interval s = (Ok u, s')"
  shows "\<exists>d. waited he tg ctx s d \<and> he_Dial he ctx (po_proto p) (JoinHostPort host (po_num p)) d = (Ok (), s')"
proof -
  let ?body = "external_round he interval ctx tg (po_proto p) (JoinHostPort host (po_num p))"
  from assms obtain i s1 where s1: "waited he tg ctx s s1" and stop: "?body i s1 = (Stop (Ok ()), s')"
    unfolding externalCheck_def
    by (auto elim!: poll_Ok_seen [where R = "sup (target_step tg ctx) (host_step he ctx)", OF _ waited_external_round])
  from stop obtain d where "checkTarget ctx tg s1 = (Ok (), d)"
    "he_Dial he ctx (po_proto p) (JoinHostPort host (po_num p)) d = (Ok (), s')"
    by (auto simp: external_round_def split: round_splits)
  with s1 seen_checkTarget [THEN waited_seen, of ctx tg s1 "Ok ()" d he] show ?thesis by (meson rtranclp_trans)
qed

lemma lowest_tcp_in:
  "lowest_tcp low ps = (p, h) \<Longrightarrow> (p, h) = low \<or> (\<exists>bs. (p, bs) \<in> set ps \<and> bs \<noteq> [] \<and> po_proto p = tcp \<and> h = pb_HostPort (hd bs))"
  by (induction low ps rule: lowest_tcp.induct) (auto split: if_splits)

lemma lowest_tcp_least:
  "(fst low \<noteq> zero_port \<and> q = fst low) \<or> (\<exists>bs. (q, bs) \<in> set ps \<and> bs \<noteq> [] \<and> po_proto q = tcp) \<Longrightarrow>
     po_num (fst (lowest_tcp low ps)) \<le> po_num q"
proof (induction low ps arbitrary: q rule: lowest_tcp.induct)
  case (2 low p bs ps)
  let ?n = "if bs = [] \<or> po_proto p \<noteq> tcp then low
        else if fst low = zero_port \<or> po_num p < po_num (fst low) then (p, pb_HostPort (hd bs)) else low"
  have tcp: "po_proto q = tcp \<Longrightarrow> q \<noteq> zero_port" for q by (auto simp: zero_port_def tcp_def)
  consider "(fst ?n \<noteq> zero_port \<and> q = fst ?n) \<or> (\<exists>bs. (q, bs) \<in> set ps \<and> bs \<noteq> [] \<and> po_proto q = tcp)"
    | "fst ?n \<noteq> zero_port" "po_num (fst ?n) \<le> po_num q"
    using 2(2) tcp by (auto split: if_splits)
  then show ?case
  proof cases
    case 1
    from "2.IH" [OF this] show ?thesis by simp
  next
    case 2
    from "2.IH" [of "fst ?n"] 2 show ?thesis by simp
  qed
qed auto

text \<open>The lowest port with a binding that speaks tcp, and the host port of its first binding.\<close>

definition lowest_bound :: "container_inspected \<Rightarrow> port \<Rightarrow> string \<Rightarrow> bool" where
  "lowest_bound i p h \<longleftrightarrow>
     (\<exists>bs. (p, bs) \<in> set (in_Ports i) \<and> bs \<noteq> [] \<and> po_proto p = tcp \<and> h = pb_HostPort (hd bs))
   \<and> (\<forall>(q, bs) \<in> set (in_Ports i). bs \<noteq> [] \<longrightarrow> po_proto q = tcp \<longrightarrow> po_num p \<le> po_num q)"

lemma lowest_mapped_found:
  assumes "lowest_mapped he ws ctx tg s = (Ok p, s')"
  shows "\<exists>d i low h. seen tg ctx s d \<and> tg_Inspect tg ctx d = (Ok i, s') \<and> lowest_bound i low h
     \<and> he_ParsePort he (h @ ''/tcp'') = Ok p"
proof -
  obtain x t where xt: "select_after ctx (ht_PollInterval ws) (fst s) = (x, t)"
    by (cases "select_after ctx (ht_PollInterval ws) (fst s)")
  with assms have "x = None" by (auto simp: lowest_mapped_def split: option.splits)
  with xt have t: "select_after ctx (ht_PollInterval ws) (fst s) = (None, t)" by simp
  obtain r0 d where rd: "checkTarget ctx tg (t, snd s) = (r0, d)" by (cases "checkTarget ctx tg (t, snd s)")
  from assms t rd have r0: "r0 = Ok ()" by (cases r0) (simp_all add: lowest_mapped_def)
  from rd r0 have d: "checkTarget ctx tg (t, snd s) = (Ok (), d)" by simp
  from assms t d have rest: "st_do (tg_Inspect tg ctx d) (\<lambda>i s2. case lowest_tcp (zero_port, '''') (in_Ports i) of
       (low, hostPort) \<Rightarrow> (if low = zero_port then (Err no_tcp_port, s2)
         else (he_ParsePort he (hostPort @ ''/'' @ po_proto low), s2))) = (Ok p, s')"
    by (simp add: lowest_mapped_def)
  from rest obtain i s2 where i: "tg_Inspect tg ctx d = (Ok i, s2)"
    and r: "(case lowest_tcp (zero_port, '''') (in_Ports i) of (low, hostPort) \<Rightarrow> (if low = zero_port then (Err no_tcp_port, s2)
         else (he_ParsePort he (hostPort @ ''/'' @ po_proto low), s2))) = (Ok p, s')"
    unfolding st_do_Ok_iff by blast
  obtain low h where l: "lowest_tcp (zero_port, '''') (in_Ports i) = (low, h)" by fastforce
  with r have l0: "low \<noteq> zero_port" and "s2 = s'" and p: "he_ParsePort he (h @ ''/'' @ po_proto low) = Ok p"
    by (auto split: if_splits)
  from l0 l lowest_tcp_in [OF l] lowest_tcp_least [of "(zero_port, '''')" _ "in_Ports i"] have "lowest_bound i low h"
    by (auto simp: lowest_bound_def)
  moreover from this p have "he_ParsePort he (h @ ''/tcp'') = Ok p" by (auto simp: lowest_bound_def tcp_def)
  moreover have "seen tg ctx s d"
    using seen_select [OF t, of tg "snd s"] seen_checkTarget [OF d] by (metis prod.collapse rtranclp_trans)
  ultimately show ?thesis using i \<open>s2 = s'\<close> by blast
qed

lemma http_port_found:
  assumes "http_port he ws ctx tg s = (Ok p, s')"
  shows "if ht_Port ws = zero_port
     then \<exists>d i low h. seen tg ctx s d \<and> tg_Inspect tg ctx d = (Ok i, s') \<and> lowest_bound i low h
       \<and> he_ParsePort he (h @ ''/tcp'') = Ok p
     else po_proto p = ''tcp'' \<and> p \<noteq> zero_port \<and> (\<exists>d. seen tg ctx s d \<and> tg_MappedPort tg ctx (ht_Port ws) d = (Ok p, s'))"
proof (cases "ht_Port ws = zero_port")
  case True
  with assms lowest_mapped_found [of he ws ctx tg s p s'] show ?thesis by (simp add: http_port_def)
next
  case False
  with assms obtain pe s1 where m: "mapped tg ctx (ht_Port ws) s = (Ok pe, s1)"
    and rest: "(if fst pe \<noteq> zero_port then (Ok (fst pe), s1) else poll (http_port_round ws ctx tg) (snd pe) s1) = (Ok p, s')"
    and tcp: "po_proto p = ''tcp''"
    by (auto simp: http_port_def outcome_simps tcp_def split: if_splits)
  have "p \<noteq> zero_port \<and> (\<exists>d. seen tg ctx s d \<and> tg_MappedPort tg ctx (ht_Port ws) d = (Ok p, s'))"
  proof (cases "fst pe = zero_port")
    case True
    with rest have "poll (http_port_round ws ctx tg) (snd pe) s1 = (Ok p, s')" by simp
    then obtain st s2 where "seen tg ctx s1 s2" and stop: "http_port_round ws ctx tg st s2 = (Stop (Ok p), s')"
      by (rule poll_Ok_seen [where R = "target_step tg ctx"]) (rule seen_http_port_round)
    with seen_mapped [OF m] have s2: "seen tg ctx s s2" by simp
    from stop obtain t s3 e where "select_after ctx (ht_PollInterval ws) (fst s2) = (None, t)"
      "checkTarget ctx tg (t, snd s2) = (Ok (), s3)" and d: "mapped tg ctx (ht_Port ws) s3 = (Ok (p, e), s')" "p \<noteq> zero_port"
      by (auto simp: http_port_round_def split: round_splits)
    with seen_select [of ctx _ "fst s2" None t tg "snd s2"] seen_checkTarget s2 have "seen tg ctx s s3"
      by (metis prod.collapse rtranclp_trans)
    with mapped_Ok [OF d] d(2) show ?thesis by blast
  next
    case False
    with rest m have "p \<noteq> zero_port" "mapped tg ctx (ht_Port ws) s = (Ok (p, snd pe), s')" by auto
    with mapped_Ok show ?thesis by blast
  qed
  with tcp False show ?thesis by simp
qed

lemma http_loop_found:
  assumes "poll (http_round he ws req ctx tg) () s = (Ok (), s')"
  shows "\<exists>d resp. waited he tg ctx s d \<and> he_Do he ctx req d = (Ok resp, s')
     \<and> matches (ht_StatusCodeMatcher ws) (rs_StatusCode resp) \<and> matches (ht_ResponseMatcher ws) (rs_Body resp)
     \<and> matches (ht_ResponseHeadersMatcher ws) (rs_Header resp) \<and> rs_Close resp = None"
proof -
  from assms obtain u s1 where s1: "waited he tg ctx s s1" and stop: "http_round he ws req ctx tg u s1 = (Stop (Ok ()), s')"
    by (rule poll_Ok_seen [where R = "sup (target_step tg ctx) (host_step he ctx)"]) (rule waited_http_round)
  from stop obtain t d resp where "select_after ctx (ht_PollInterval ws) (fst s1) = (None, t)"
    and "checkTarget ctx tg (t, snd s1) = (Ok (), d)"
    and resp: "he_Do he ctx req d = (Ok resp, s')" "matches (ht_StatusCodeMatcher ws) (rs_StatusCode resp)"
      "matches (ht_ResponseMatcher ws) (rs_Body resp)" "matches (ht_ResponseHeadersMatcher ws) (rs_Header resp)" "rs_Close resp = None"
    by (auto simp: http_round_def split: round_splits)
  then have "waited he tg ctx s1 d"
    using seen_select [of ctx _ "fst s1" None t tg "snd s1"] seen_checkTarget [of ctx tg "(t, snd s1)" "Ok ()" d]
    by (metis prod.collapse rtranclp_trans waited_seen)
  with s1 resp show ?thesis by (meson rtranclp_trans)
qed

text \<open>The errors for a missing shell are not exported: no call gives one.\<close>

definition other_error :: "err \<Rightarrow> bool" where
  "other_error e \<longleftrightarrow> \<not> errors_is e errShellNotExecutable \<and> \<not> errors_is e errShellNotFound"

definition shell_errors_private :: "'w target \<Rightarrow> gctx \<Rightarrow> bool" where
  "shell_errors_private tg ctx \<longleftrightarrow>
     (\<forall>s e s'. tg_State tg ctx s = (Err e, s') \<longrightarrow> other_error e)
     \<and> (\<forall>cmd m s e s'. tg_Exec tg ctx cmd m s = (Err e, s') \<longrightarrow> other_error e)
     \<and> (\<forall>now e. ctx_err ctx now = Some e \<longrightarrow> other_error e)"

lemma checkTarget_other:
  "checkTarget ctx tg s = (Err e, s') \<Longrightarrow> shell_errors_private tg ctx \<Longrightarrow> other_error e"
proof -
  assume r: "checkTarget ctx tg s = (Err e, s')" and p: "shell_errors_private tg ctx"
  obtain a s1 where a: "tg_State tg ctx s = (a, s1)" by (cases "tg_State tg ctx s")
  show "other_error e"
  proof (cases a)
    case (Ok st)
    with r a have "checkState st = Err e" by (simp add: checkTarget_def)
    then show ?thesis by (auto simp: checkState_def other_error_def split: if_splits)
  next
    case (Err x)
    with a p have "other_error x" unfolding shell_errors_private_def by blast
    with r a Err show ?thesis by (auto simp: checkTarget_def other_error_def)
  qed (use r a in \<open>simp add: checkTarget_def\<close>)
qed

lemma internal_round_Stop:
  assumes "internal_round ctx cmd tg u s = (Stop r, s')" and "shell_errors_private tg ctx"
    and "r = Ok () \<or> (\<exists>e. r = Err e \<and> \<not> other_error e)"
  shows "\<exists>d exitCode out. seen tg ctx s d \<and> tg_Exec tg ctx [''/bin/sh'', ''-c'', cmd] False d = (Ok (exitCode, out), s')
     \<and> exitCode \<in> {0, 126, 127}"
proof -
  have ctx: "ctx_err ctx (fst s) = None"
    using assms by (cases "ctx_err ctx (fst s)") (auto simp: internal_round_def shell_errors_private_def)
  obtain a s1 where a: "checkTarget ctx tg s = (a, s1)" by (cases "checkTarget ctx tg s")
  obtain x s2 where x: "tg_Exec tg ctx [''/bin/sh'', ''-c'', cmd] False s1 = (x, s2)"
    by (cases "tg_Exec tg ctx [''/bin/sh'', ''-c'', cmd] False s1")
  show ?thesis
  proof (cases a)
    case (Ok unit)
    show ?thesis
    proof (cases x)
      case (Ok y)
      obtain exitCode out where y: "y = (exitCode, out)" by (cases y)
      with Ok \<open>a = Ok unit\<close> assms(1) ctx a x have "exitCode \<in> {0, 126, 127} \<and> s2 = s'"
        by (auto simp: internal_round_def split: if_splits)
      with Ok x y seen_checkTarget [OF a] show ?thesis by blast
    next
      case (Err e)
      with x assms(2) have "other_error e" unfolding shell_errors_private_def by blast
      with Err \<open>a = Ok unit\<close> assms(1,3) ctx a x show ?thesis by (auto simp: internal_round_def other_error_def)
    qed (use \<open>a = Ok unit\<close> assms(1,3) ctx a x in \<open>auto simp: internal_round_def\<close>)
  next
    case (Err e)
    with a assms(2) checkTarget_other have "other_error e" by blast
    with Err assms(1,3) ctx a show ?thesis by (auto simp: internal_round_def)
  qed (use assms(1,3) ctx a in \<open>auto simp: internal_round_def\<close>)
qed

text \<open>
  C25: what a host-port strategy that is ready has seen, in this order. It has a port: the given one, or the
  lowest that an inspection of the container showed; then the port was mapped to a host port; then, unless the
  external check is skipped, that host port was dialled with success at the address of the host; and at the end,
  unless the internal check is skipped, the shell command that looks for a listener on the port inside the container
  ended with status 0, or could not be run for want of a shell (126 or 127). In between it only looked at
  the container and the host (\<open>seen\<close>, \<open>waited\<close>).
\<close>

theorem HostPort_WaitUntilReady_ready:
  assumes "HostPort_WaitUntilReady he hp ctx0 tg s = (Ok (), s')"
    and "ctx = WithTimeout ctx0 (fst s) (timeout_or (hp_timeout hp))" and "shell_errors_private tg ctx"
  shows "\<exists>ip p s1 m s2 s3. ip \<noteq> zero_port
     \<and> (if hp_Port hp \<noteq> zero_port then ip = hp_Port hp \<and> s1 = s
        else \<exists>d i. seen tg ctx s d \<and> tg_Inspect tg ctx d = (Ok i, s1) \<and> lowest_exposed i ip)
     \<and> seen tg ctx s1 m \<and> tg_MappedPort tg ctx ip m = (Ok p, s2) \<and> p \<noteq> zero_port
     \<and> (if hp_skipExternalCheck hp then s3 = s2
        else \<exists>host h d. tg_Host tg ctx s2 = (Ok host, h) \<and> waited he tg ctx h d
             \<and> he_Dial he ctx (po_proto p) (JoinHostPort host (po_num p)) d = (Ok (), s3))
     \<and> (if hp_skipInternalCheck hp then s' = s3
        else \<exists>d exitCode out. seen tg ctx s3 d
             \<and> tg_Exec tg ctx [''/bin/sh'', ''-c'', buildInternalCheckCommand (po_num ip)] False d = (Ok (exitCode, out), s')
             \<and> exitCode \<in> {0, 126, 127})"
proof -
  from assms obtain ip s1 p s2 s3 where ip: "internal_port hp ctx tg s = (Ok ip, s1)"
    and p: "wait_mapped (hp_PollInterval hp) ctx tg ip s1 = (Ok p, s2)"
    and ext: "check_external he hp ctx tg p s2 = (Ok (), s3)"
    and int: "check_internal hp ctx tg ip s3 = (Ok (), s')"
    by (auto simp: HostPort_WaitUntilReady_def Let_def outcome_simps)
  have external: "if hp_skipExternalCheck hp then s3 = s2
        else \<exists>host h d. tg_Host tg ctx s2 = (Ok host, h) \<and> waited he tg ctx h d
             \<and> he_Dial he ctx (po_proto p) (JoinHostPort host (po_num p)) d = (Ok (), s3)"
    using ext externalCheck_Ok [of he ctx _ p tg "hp_PollInterval hp" _ "()" s3]
    by (auto simp: check_external_def outcome_simps simp del: split_paired_Ex split: if_splits)
  have internal: "if hp_skipInternalCheck hp then s' = s3
        else \<exists>d exitCode out. seen tg ctx s3 d
             \<and> tg_Exec tg ctx [''/bin/sh'', ''-c'', buildInternalCheckCommand (po_num ip)] False d = (Ok (exitCode, out), s')
             \<and> exitCode \<in> {0, 126, 127}"
  proof (cases "hp_skipInternalCheck hp")
    case False
    with int obtain r where r: "internalCheck ctx ip tg s3 = (r, s')"
      and ok: "r = Ok () \<or> (\<exists>e. r = Err e \<and> \<not> other_error e)"
      by (auto simp: check_internal_def other_error_def split: round_splits)
    from r [unfolded internalCheck_def] show ?thesis
    proof (cases rule: poll_result)
      case (stops u s4)
      have "seen tg ctx (snd ((), s3)) (snd (u, s4))" by (rule reached_seen [OF stops(1)]) (rule seen_internal_round)
      then have "seen tg ctx s3 s4" by simp
      moreover obtain d exitCode out where "seen tg ctx s4 d" "exitCode \<in> {0, 126, 127}"
        "tg_Exec tg ctx [''/bin/sh'', ''-c'', buildInternalCheckCommand (po_num ip)] False d = (Ok (exitCode, out), s')"
        using internal_round_Stop [OF stops(2) assms(3) ok] by blast
      ultimately show ?thesis using False by (meson rtranclp_trans)
    qed (use ok in auto)
  qed (use int in \<open>simp add: check_internal_def\<close>)
  show ?thesis
    using internal_port_found [OF ip] wait_mapped_found [OF p] external internal by blast
qed

definition demo_host_env :: "'w host_env" where
  "demo_host_env = \<lparr>he_ParsePort = (\<lambda>_. Ok \<lparr>po_num = 32768, po_proto = ''tcp''\<rparr>),
     he_Dial = (\<lambda>_ _ _ s. (if fst s < 50 then Err (Sentinel ECONNREFUSED) else Ok (), s)),
     he_Do = (\<lambda>_ _ s. (Ok \<lparr>rs_StatusCode = 200, rs_Body = ''hello'', rs_Header = Map.empty, rs_Close = None\<rparr>, s)),
     he_sqlOpen = (\<lambda>_ _. Ok (\<lambda>_ _ s. (Ok (), s)))\<rparr>"

definition demo_port :: port where
  "demo_port = \<lparr>po_num = 80, po_proto = ''tcp''\<rparr>"

lemma demo_private: "shell_errors_private demo_target (Some (60000, DeadlineExceeded))"
  by (auto simp: shell_errors_private_def demo_target_def ctx_err_def DeadlineExceeded_def other_error_def
      errShellNotExecutable_def errShellNotFound_def split: if_splits)

theorem HostPort_WaitUntilReady_ready_witness:
  "HostPort_WaitUntilReady demo_host_env (ForListeningPort demo_port) Background demo_target (0, ()) = (Ok (), (280, ()))
   \<and> (\<exists>(p :: port) s4 s5. he_Dial demo_host_env (Some (60000, DeadlineExceeded)) (po_proto p)
        (JoinHostPort ''localhost'' (po_num p)) s4 = (Ok (), s5 :: unit clocked))"
proof -
  have run: "HostPort_WaitUntilReady demo_host_env (ForListeningPort demo_port) Background demo_target (0, ())
      = (Ok (), (280, ()))"
    by (simp add: HostPort_WaitUntilReady_def ForListeningPort_def NewHostPortStrategy_def demo_port_def zero_port_def
        internal_port_def wait_mapped_def mapped_def check_external_def externalCheck_def poll_def poll_loop.simps
        external_round_def demo_host_env_def demo_target_def demo_state_def checkTarget_def checkState_def
        isConnRefusedErr_def sleep_def check_internal_def internalCheck_def internal_round_def WithTimeout_def
        Background_def ctx_err_def timeout_or_def defaultTimeout_def defaultPollInterval_def)
  have ctx: "Some (60000, DeadlineExceeded)
      = WithTimeout Background (fst (0 :: nat, ())) (timeout_or (hp_timeout (ForListeningPort demo_port)))"
    by (simp add: ForListeningPort_def NewHostPortStrategy_def WithTimeout_def Background_def timeout_or_def
        defaultTimeout_def)
  have "\<not> hp_skipExternalCheck (ForListeningPort demo_port)"
    by (simp add: ForListeningPort_def NewHostPortStrategy_def)
  moreover have "host = ''localhost''" if "tg_Host demo_target c s2 = (Ok host, s3)" for c s2 host and s3 :: "unit clocked"
    using that by (simp add: demo_target_def)
  moreover obtain p :: port and s2 s6 where "if hp_skipExternalCheck (ForListeningPort demo_port) then s6 = s2
        else \<exists>host h d. tg_Host demo_target (Some (60000, DeadlineExceeded)) s2 = (Ok host, h :: unit clocked)
             \<and> waited demo_host_env demo_target (Some (60000, DeadlineExceeded)) h d
             \<and> he_Dial demo_host_env (Some (60000, DeadlineExceeded)) (po_proto p) (JoinHostPort host (po_num p)) d
                = (Ok (), s6 :: unit clocked)"
    using HostPort_WaitUntilReady_ready [OF run ctx demo_private] by blast
  ultimately have "\<exists>(p :: port) s4 s5. he_Dial demo_host_env (Some (60000, DeadlineExceeded)) (po_proto p)
        (JoinHostPort ''localhost'' (po_num p)) s4 = (Ok (), s5 :: unit clocked)"
    by metis
  with run show ?thesis by blast
qed

text \<open>
  C26: what an HTTP strategy that is ready has seen, in this order: the address of the host; a mapped port, which
  the container gave for the port of the strategy and which is tcp, or without such a port, the host port of the
  lowest tcp port that an inspection showed with a binding; and at the end the response to a request that went,
  with the method, the headers and the user of the strategy, to the scheme that it asks for and to that port at
  that address. The response passed every matcher that is set, and was closed without an error.
\<close>

theorem HTTP_WaitUntilReady_ready:
  assumes "HTTP_WaitUntilReady he ws ctx0 tg s = (Ok (), s')"
    and "ctx = WithTimeout ctx0 (fst s) (timeout_or (ht_timeout ws))"
  shows "\<exists>host s1 p s2 req d resp. tg_Host tg ctx s = (Ok host, s1)
     \<and> (if ht_Port ws = zero_port
        then \<exists>d1 i low h. seen tg ctx s1 d1 \<and> tg_Inspect tg ctx d1 = (Ok i, s2) \<and> lowest_bound i low h
               \<and> he_ParsePort he (h @ ''/tcp'') = Ok p
        else po_proto p = ''tcp'' \<and> p \<noteq> zero_port
               \<and> (\<exists>d1. seen tg ctx s1 d1 \<and> tg_MappedPort tg ctx (ht_Port ws) d1 = (Ok p, s2)))
     \<and> rq_Method req \<in> set http_methods \<and> (ht_Method ws \<noteq> '''' \<longrightarrow> rq_Method req = ht_Method ws)
     \<and> url_scheme (rq_URL req) = (if ht_UseTLS ws then ''https'' else ''http'')
     \<and> url_host (rq_URL req) = JoinHostPort (if ht_ForceIPv4LocalHost ws
          then replace_first ''localhost'' ''127.0.0.1'' host else host) (po_num p)
     \<and> rq_Headers req = ht_Headers ws \<and> rq_User req = ht_UserInfo ws
     \<and> waited he tg ctx s2 d \<and> he_Do he ctx req d = (Ok resp, s')
     \<and> matches (ht_StatusCodeMatcher ws) (rs_StatusCode resp)
     \<and> matches (ht_ResponseMatcher ws) (rs_Body resp)
     \<and> matches (ht_ResponseHeadersMatcher ws) (rs_Header resp) \<and> rs_Close resp = None"
proof -
  from assms obtain host s1 p s2 req where host: "tg_Host tg ctx s = (Ok host, s1)"
    and p: "http_port he ws ctx tg s1 = (Ok p, s2)"
    and req: "http_request_of ws (if ht_ForceIPv4LocalHost ws then replace_first ''localhost'' ''127.0.0.1'' host
       else host) p = Ok req"
    and run: "poll (http_round he ws req ctx tg) () s2 = (Ok (), s')"
    by (auto simp: HTTP_WaitUntilReady_def Let_def outcome_simps)
  have "rq_Method req \<in> set http_methods \<and> (ht_Method ws \<noteq> '''' \<longrightarrow> rq_Method req = ht_Method ws)"
    using req by (auto simp: http_request_of_def http_method_def outcome_simps http_methods_def split: if_splits)
  moreover have "url_scheme (rq_URL req) = (if ht_UseTLS ws then ''https'' else ''http'')
     \<and> url_host (rq_URL req) = JoinHostPort (if ht_ForceIPv4LocalHost ws
          then replace_first ''localhost'' ''127.0.0.1'' host else host) (po_num p)
     \<and> rq_Headers req = ht_Headers ws \<and> rq_User req = ht_UserInfo ws"
    using req by (auto simp: http_request_of_def outcome_simps)
  ultimately show ?thesis using host http_port_found [OF p] http_loop_found [OF run] by blast
qed

theorem HTTP_WaitUntilReady_ready_witness:
  "HTTP_WaitUntilReady demo_host_env (WithPort demo_port (ForHTTP ''/health?full=1'')) Background demo_target (0, ())
     = (Ok (), (100, ()))
   \<and> (\<exists>(req :: http_request) (resp :: http_response) s2 s3. he_Do demo_host_env (Some (60000, DeadlineExceeded)) req s2 = (Ok resp, s3 :: unit clocked)
        \<and> url_host (rq_URL req) = ''localhost:80'' \<and> matches (Some defaultStatusCodeMatcher) (rs_StatusCode resp))"
proof -
  let ?ws = "WithPort demo_port (ForHTTP ''/health?full=1'')"
  have parse: "url_parse ''/health?full=1'' = Ok \<lparr>url_scheme = '''', url_opaque = '''', url_user = None, url_host = '''',
      url_path = ''/health'', url_query = ''full=1''\<rparr>"
    by code_simp
  have run: "HTTP_WaitUntilReady demo_host_env ?ws Background demo_target (0, ()) = (Ok (), (100, ()))"
    by (simp add: HTTP_WaitUntilReady_def WithPort_def ForHTTP_def NewHTTPStrategy_def demo_port_def zero_port_def
        http_port_def mapped_def tcp_def http_request_of_def http_method_def http_methods_def parse http_body_def
        poll_def poll_loop.simps http_round_def matches_def defaultStatusCodeMatcher_def
        demo_host_env_def demo_target_def demo_state_def checkTarget_def checkState_def WithTimeout_def
        Background_def select_after_def timeout_or_def defaultTimeout_def defaultPollInterval_def)
  have ctx: "Some (60000, DeadlineExceeded) = WithTimeout Background (fst (0 :: nat, ())) (timeout_or (ht_timeout ?ws))"
    by (simp add: WithPort_def ForHTTP_def NewHTTPStrategy_def WithTimeout_def Background_def timeout_or_def defaultTimeout_def)
  have ws: "ht_ForceIPv4LocalHost ?ws = False" "ht_StatusCodeMatcher ?ws = Some defaultStatusCodeMatcher"
    "ht_Port ?ws = demo_port" "demo_port \<noteq> zero_port"
    by (simp_all add: WithPort_def ForHTTP_def NewHTTPStrategy_def demo_port_def zero_port_def)
  have target: "host = ''localhost''" if "tg_Host demo_target c s2 = (Ok host, s3)" for c s2 host and s3 :: "unit clocked"
    using that by (simp add: demo_target_def)
  have mp: "p = demo_port" if "tg_MappedPort demo_target c demo_port s2 = (Ok p, s3)" for c p s2 and s3 :: "unit clocked"
    using that by (simp add: demo_target_def)
  have join: "JoinHostPort ''localhost'' (po_num demo_port) = ''localhost:80''"
    unfolding demo_port_def by code_simp
  obtain host and p :: port and req :: http_request and resp :: http_response and s2 s1 s3 s4
    where "tg_Host demo_target (Some (60000, DeadlineExceeded)) (0, ()) = (Ok host, s1 :: unit clocked)"
    and do: "he_Do demo_host_env (Some (60000, DeadlineExceeded)) req s2 = (Ok resp, (100, ()))"
    and url: "url_host (rq_URL req) = JoinHostPort host (po_num p)"
    and "tg_MappedPort demo_target (Some (60000, DeadlineExceeded)) demo_port s3 = (Ok p, s4 :: unit clocked)"
    and "matches (Some defaultStatusCodeMatcher) (rs_StatusCode resp)"
    using HTTP_WaitUntilReady_ready [OF run ctx] unfolding ws(1-3) if_not_P [OF ws(4)] if_False by blast
  with target mp join have "url_host (rq_URL req) = ''localhost:80''" by metis
  with run do \<open>matches _ _\<close> show ?thesis by blast
qed

end
