(* ===== verification/Wait_All.thy ===== *)
theory Wait_All
  imports Wait_Ports
begin

text \<open>
  Strategies together: \<open>MultiStrategy\<close> (\<open>all.go\<close>), the TLS strategy that is built from it (\<open>tls.go\<close>), the
  type of all strategies with their \<open>String\<close>, \<open>Timeout\<close> and \<open>WaitUntilReady\<close>, and the walk over a tree
  of strategies (\<open>walk.go\<close>).
\<close>


section \<open>all.go\<close>

text \<open>
  What \<open>MultiStrategy\<close> asks of a strategy: its timeout, when it has the method \<open>Timeout\<close>; whether it is
  a pointer or another kind of value that can be nil (package reflect panics on others); and to wait. A
  nil strategy, typed or not, is \<open>None\<close>.
\<close>

record 'w waiter =
  wt_Timeout :: "nat option option"
  wt_nilable :: bool
  wt_wait :: "gctx \<Rightarrow> 'w target \<Rightarrow> (unit, 'w) call"

definition IsNil_panic :: string where
  "IsNil_panic = ''reflect: call of reflect.Value.IsNil on struct Value''"

fun wait_all :: "nat option \<Rightarrow> 'w waiter option list \<Rightarrow> gctx \<Rightarrow> 'w target \<Rightarrow> (unit, 'w) call" where
  "wait_all timeout [] ctx tg s = (Ok (), s)"
| "wait_all timeout (None # ws) ctx tg s = wait_all timeout ws ctx tg s"
| "wait_all timeout (Some w # ws) ctx tg s =
     (if \<not> wt_nilable w then (Panic IsNil_panic, s)
      else let strategyCtx =
             (case (wt_Timeout w, timeout) of (Some None, Some d) \<Rightarrow> WithTimeout ctx (fst s) d | _ \<Rightarrow> ctx)
           in st_do (wt_wait w strategyCtx tg s) (\<lambda>_ s'. wait_all timeout ws ctx tg s'))"

definition multi_wait ::
    "nat option \<Rightarrow> nat option \<Rightarrow> 'w waiter option list \<Rightarrow> gctx \<Rightarrow> 'w target \<Rightarrow> (unit, 'w) call" where
  "multi_wait timeout deadline ws ctx0 tg s =
     (let ctx = (case deadline of None \<Rightarrow> ctx0 | Some d \<Rightarrow> WithTimeout ctx0 (fst s) d) in
      if ws = [] then (Err (Msg ''no wait strategy supplied''), s) else wait_all timeout ws ctx tg s)"


section \<open>tls.go\<close>

text \<open>
  \<open>CertPool.AppendCertsFromPEM\<close> and \<open>tls.X509KeyPair\<close> are parameters: whether a file has certificates,
  and the error of a pair. The certificate pool is the list of the files added to it.
\<close>

record tls_lib =
  tb_AppendCertsFromPEM :: "string \<Rightarrow> bool"
  tb_X509KeyPair :: "string \<Rightarrow> string \<Rightarrow> err option"

record tls_strategy =
  tl_timeout :: "nat option"
  tl_pollInterval :: nat
  tl_certFiles :: "(string \<times> string) option"
  tl_rootFiles :: "string list"
  tl_tlsConfig :: tls_config

definition ForTLSCert :: "string \<Rightarrow> string \<Rightarrow> tls_strategy" where
  "ForTLSCert certPEMFile keyPEMFile =
     \<lparr>tl_timeout = None, tl_pollInterval = defaultPollInterval, tl_certFiles = Some (certPEMFile, keyPEMFile),
      tl_rootFiles = [], tl_tlsConfig = zero_tls_config\<rparr>"

definition ForTLSRootCAs :: "string list \<Rightarrow> tls_strategy" where
  "ForTLSRootCAs pemFiles =
     \<lparr>tl_timeout = None, tl_pollInterval = defaultPollInterval, tl_certFiles = None,
      tl_rootFiles = pemFiles, tl_tlsConfig = zero_tls_config\<rparr>"

definition WithRootCAs :: "string list \<Rightarrow> tls_strategy \<Rightarrow> tls_strategy" where
  "WithRootCAs files ws = ws\<lparr>tl_rootFiles := files\<rparr>"

definition WithCert :: "string \<Rightarrow> string \<Rightarrow> tls_strategy \<Rightarrow> tls_strategy" where
  "WithCert certPEMFile keyPEMFile ws = ws\<lparr>tl_certFiles := Some (certPEMFile, keyPEMFile)\<rparr>"

definition WithServerName :: "string \<Rightarrow> tls_strategy \<Rightarrow> tls_strategy" where
  "WithServerName serverName ws = ws\<lparr>tl_tlsConfig := (tl_tlsConfig ws)\<lparr>tc_ServerName := serverName\<rparr>\<rparr>"

definition TLS_WithTimeout :: "nat \<Rightarrow> tls_strategy \<Rightarrow> tls_strategy" where
  "TLS_WithTimeout d ws = ws\<lparr>tl_timeout := Some d\<rparr>"

definition TLS_WithPollInterval :: "nat \<Rightarrow> tls_strategy \<Rightarrow> tls_strategy" where
  "TLS_WithPollInterval d ws = ws\<lparr>tl_pollInterval := d\<rparr>"

definition TLSConfig :: "tls_strategy option \<Rightarrow> tls_config option" where
  "TLSConfig ws = (case ws of None \<Rightarrow> None | Some w \<Rightarrow> Some (tl_tlsConfig w))"

definition TLS_String :: "tls_strategy \<Rightarrow> string" where
  "TLS_String ws =
     (let roots = (if tl_rootFiles ws \<noteq> [] then [''root CAs ['' @ intercalate '' '' (tl_rootFiles ws) @ '']''] else []);
          cert = (case tl_certFiles ws of
                    Some (c, k) \<Rightarrow> [''cert '' @ show_q c @ '' and key '' @ show_q k] | None \<Rightarrow> [])
      in if roots @ cert = [] then ''TLS certificates'' else intercalate '' and '' (roots @ cert))"

text \<open>
  The matchers of the file strategies fill the configuration: the world of the wait has, beside the
  target's, the configuration and the certificate block read so far.
\<close>

type_synonym 'w tls_world = "'w \<times> tls_config \<times> string"

definition lift_call :: "('a, 'w) call \<Rightarrow> ('a, 'w \<times> 'v) call" where
  "lift_call f s = (case s of (t, w, v) \<Rightarrow> case f (t, w) of (r, t', w') \<Rightarrow> (r, t', w', v))"

definition lift_target :: "'w target \<Rightarrow> ('w \<times> 'v) target" where
  "lift_target tg =
     \<lparr>tg_Host = (\<lambda>c. lift_call (tg_Host tg c)), tg_Inspect = (\<lambda>c. lift_call (tg_Inspect tg c)),
      tg_MappedPort = (\<lambda>c p. lift_call (tg_MappedPort tg c p)), tg_Logs = (\<lambda>c. lift_call (tg_Logs tg c)),
      tg_Exec = (\<lambda>c cmd m. lift_call (tg_Exec tg c cmd m)), tg_State = (\<lambda>c. lift_call (tg_State tg c)),
      tg_CopyFromContainer = (\<lambda>c f. lift_call (tg_CopyFromContainer tg c f))\<rparr>"

definition root_matcher :: "tls_lib \<Rightarrow> string \<Rightarrow> string \<times> err option \<Rightarrow> (unit, 'w tls_world) call" where
  "root_matcher lib file rd s =
     (case (rd, s) of ((buf, e), (t, w, cfg, block)) \<Rightarrow>
        case e of
          Some x \<Rightarrow> (Err (wrapf (''read CA cert file '' @ show_q file) x), s)
        | None \<Rightarrow>
            (let pool = (case tc_RootCAs cfg of None \<Rightarrow> [] | Some p \<Rightarrow> p) in
             if \<not> tb_AppendCertsFromPEM lib buf
             then (Err (Msg (''invalid CA cert file '' @ show_q file)), (t, w, cfg\<lparr>tc_RootCAs := Some pool\<rparr>, block))
             else (Ok (), (t, w, cfg\<lparr>tc_RootCAs := Some (pool @ [buf])\<rparr>, block))))"

definition cert_matcher :: "string \<Rightarrow> string \<times> err option \<Rightarrow> (unit, 'w tls_world) call" where
  "cert_matcher certFile rd s =
     (case (rd, s) of ((buf, e), (t, w, cfg, block)) \<Rightarrow>
        case e of
          Some x \<Rightarrow> (Err (wrapf (''read certificate cert '' @ show_q certFile) x), (t, w, cfg, buf))
        | None \<Rightarrow> (Ok (), (t, w, cfg, buf)))"

definition key_matcher :: "tls_lib \<Rightarrow> string \<Rightarrow> string \<Rightarrow> string \<times> err option \<Rightarrow> (unit, 'w tls_world) call" where
  "key_matcher lib certFile keyFile rd s =
     (case (rd, s) of ((buf, e), (t, w, cfg, block)) \<Rightarrow>
        case e of
          Some x \<Rightarrow> (Err (wrapf (''read certificate key '' @ show_q keyFile) x), s)
        | None \<Rightarrow>
            (case tb_X509KeyPair lib block buf of
               Some x \<Rightarrow> (Err (wrapf (''x509 key pair '' @ show_q certFile @ '' '' @ show_q keyFile) x), s)
             | None \<Rightarrow> (Ok (), (t, w, cfg\<lparr>tc_Certificates := [(block, buf)]\<rparr>, block))))"

definition file_waiter :: "'w file_strategy \<Rightarrow> 'w waiter" where
  "file_waiter f = \<lparr>wt_Timeout = Some (fs_timeout f), wt_nilable = True, wt_wait = File_WaitUntilReady f\<rparr>"

definition tls_files :: "tls_lib \<Rightarrow> tls_strategy \<Rightarrow> 'w tls_world file_strategy list" where
  "tls_files lib ws =
     map (\<lambda>file. File_WithPollInterval (tl_pollInterval ws) (WithMatcher (root_matcher lib file) (ForFile file)))
       (tl_rootFiles ws)
     @ (case tl_certFiles ws of
          None \<Rightarrow> []
        | Some (c, k) \<Rightarrow>
            [File_WithPollInterval (tl_pollInterval ws) (WithMatcher (cert_matcher c) (ForFile c)),
             File_WithPollInterval (tl_pollInterval ws) (WithMatcher (key_matcher lib c k) (ForFile k))])"

text \<open>The outcome and the configuration that the strategy has afterwards.\<close>

definition TLS_WaitUntilReady ::
    "tls_lib \<Rightarrow> tls_strategy \<Rightarrow> gctx \<Rightarrow> 'w target \<Rightarrow> 'w clocked \<Rightarrow> (unit outcome \<times> tls_config) \<times> 'w clocked" where
  "TLS_WaitUntilReady lib ws ctx tg s =
     (case multi_wait None (tl_timeout ws) (map (Some \<circ> file_waiter) (tls_files lib ws)) ctx (lift_target tg)
             (fst s, snd s, tl_tlsConfig ws, '''') of
        (r, t, w, cfg, block) \<Rightarrow> ((r, cfg), (t, w)))"


section \<open>All strategies\<close>

text \<open>
  A strategy of a caller's own: whether it is a pointer, its \<open>Timeout\<close> and \<open>String\<close> where it has them, the
  name of its type, and how it waits.
\<close>

record 'w custom_strategy =
  cu_pointer :: bool
  cu_Timeout :: "nat option option"
  cu_String :: "string option"
  cu_type :: string
  cu_wait :: "gctx \<Rightarrow> 'w target \<Rightarrow> (unit, 'w) call"

datatype 'w strategy =
    SNop "'w nop_strategy"
  | SExit exit_strategy
  | SHealth health_strategy
  | SFile "'w file_strategy"
  | SExec exec_strategy
  | SLog log_strategy
  | SHostPort host_port_strategy
  | SSQL sql_strategy
  | SHTTP http_strategy
  | STLS tls_strategy
  | SMulti (sm_timeout: "nat option") (sm_deadline: "nat option") (Strategies: "'w strategy option list")
  | SCustom "'w custom_strategy"

definition ForAll :: "'w strategy option list \<Rightarrow> 'w strategy" where
  "ForAll strategies = SMulti None None strategies"

fun WithStartupTimeoutDefault :: "nat \<Rightarrow> 'w strategy \<Rightarrow> 'w strategy" where
  "WithStartupTimeoutDefault d (SMulti t dl ss) = SMulti (Some d) dl ss"
| "WithStartupTimeoutDefault d st = st"

fun WithDeadline :: "nat \<Rightarrow> 'w strategy \<Rightarrow> 'w strategy" where
  "WithDeadline d (SMulti t dl ss) = SMulti t (Some d) ss"
| "WithDeadline d st = st"

fun Timeout_of :: "'w strategy \<Rightarrow> nat option option" where
  "Timeout_of (SNop ws) = Some (ns_timeout ws)"
| "Timeout_of (SExit ws) = Some (xs_timeout ws)"
| "Timeout_of (SHealth ws) = Some (hs_timeout ws)"
| "Timeout_of (SFile ws) = Some (fs_timeout ws)"
| "Timeout_of (SExec ws) = Some (es_timeout ws)"
| "Timeout_of (SLog ws) = Some (ls_timeout ws)"
| "Timeout_of (SHostPort ws) = Some (hp_timeout ws)"
| "Timeout_of (SSQL ws) = Some (sq_timeout ws)"
| "Timeout_of (SHTTP ws) = Some (ht_timeout ws)"
| "Timeout_of (STLS ws) = None"
| "Timeout_of (SMulti t dl ss) = Some t"
| "Timeout_of (SCustom c) = cu_Timeout c"

fun nilable :: "'w strategy \<Rightarrow> bool" where
  "nilable (SCustom c) = cu_pointer c"
| "nilable st = True"

text \<open>What the strategies use of other packages.\<close>

record 'w wait_lib =
  wl_host :: "'w host_env"
  wl_regexp :: regexp_lib
  wl_tls :: tls_lib

fun WaitUntilReady :: "'w wait_lib \<Rightarrow> 'w strategy \<Rightarrow> gctx \<Rightarrow> 'w target \<Rightarrow> (unit, 'w) call" where
  "WaitUntilReady lib (SNop ws) = Nop_WaitUntilReady ws"
| "WaitUntilReady lib (SExit ws) = Exit_WaitUntilReady ws"
| "WaitUntilReady lib (SHealth ws) = Health_WaitUntilReady ws"
| "WaitUntilReady lib (SFile ws) = File_WaitUntilReady ws"
| "WaitUntilReady lib (SExec ws) = Exec_WaitUntilReady ws"
| "WaitUntilReady lib (SLog ws) = Log_WaitUntilReady (wl_regexp lib) ws"
| "WaitUntilReady lib (SHostPort ws) = HostPort_WaitUntilReady (wl_host lib) ws"
| "WaitUntilReady lib (SSQL ws) = SQL_WaitUntilReady (wl_host lib) ws"
| "WaitUntilReady lib (SHTTP ws) = HTTP_WaitUntilReady (wl_host lib) ws"
| "WaitUntilReady lib (STLS ws) =
     (\<lambda>ctx tg s. case TLS_WaitUntilReady (wl_tls lib) ws ctx tg s of ((r, cfg), s') \<Rightarrow> (r, s'))"
| "WaitUntilReady lib (SMulti t dl ss) =
     multi_wait t dl (map (map_option (\<lambda>st.
       \<lparr>wt_Timeout = Timeout_of st, wt_nilable = nilable st, wt_wait = WaitUntilReady lib st\<rparr>)) ss)"
| "WaitUntilReady lib (SCustom c) = cu_wait c"

text \<open>
  \<open>String\<close>. \<open>MultiStrategy\<close> asks package reflect whether a strategy is nil here too, and leaves nil ones
  out; for a strategy that has no \<open>String\<close> it shows the type.
\<close>

fun collect :: "'a outcome option list \<Rightarrow> 'a list outcome" where
  "collect [] = Ok []"
| "collect (None # rs) = collect rs"
| "collect (Some r # rs) = then_do r (\<lambda>x. then_do (collect rs) (\<lambda>xs. Ok (x # xs)))"

fun String_of :: "'w strategy \<Rightarrow> string outcome" where
  "String_of (SNop ws) = Ok (Nop_String ws)"
| "String_of (SExit ws) = Ok (Exit_String ws)"
| "String_of (SHealth ws) = Ok (Health_String ws)"
| "String_of (SFile ws) = Ok (File_String ws)"
| "String_of (SExec ws) = Ok (Exec_String ws)"
| "String_of (SLog ws) = Ok (Log_String ws)"
| "String_of (SHostPort ws) = Ok (HostPort_String ws)"
| "String_of (SSQL ws) = Ok (SQL_String ws)"
| "String_of (SHTTP ws) = Ok (HTTP_String ws)"
| "String_of (STLS ws) = Ok (TLS_String ws)"
| "String_of (SMulti t dl ss) =
     (if ss = [] then Ok ''all of: (none)''
      else then_do (collect (map (map_option (\<lambda>st.
             if nilable st then String_of st else Panic IsNil_panic)) ss))
        (\<lambda>strategies. Ok (''all of: ['' @ intercalate '', '' strategies @ '']'')))"
| "String_of (SCustom c) = Ok (case cu_String c of Some x \<Rightarrow> x | None \<Rightarrow> cu_type c)"



section \<open>walk.go\<close>

definition ErrVisitStop :: string where
  "ErrVisitStop = ''stop the walk''"

definition ErrVisitRemove :: string where
  "ErrVisitRemove = ''remove this strategy''"

text \<open>
  The visit function may keep a state of its own; it looks at the strategy and does not change it. A walk
  returns the error and the tree, which loses the strategies that the visit function had removed: at the
  root the slot becomes nil, in a \<open>MultiStrategy\<close> the slot disappears. A slot \<open>None\<close> is an interface that is nil: a typed
  nil pointer, which \<open>WaitUntilReady\<close> skips in the same way but a walk would hand to the visit function, is not in the
  trees walked here.
\<close>

type_synonym ('w, 'v) visit = "'w strategy \<Rightarrow> 'v \<Rightarrow> err option \<times> 'v"

fun walk :: "('w, 'v) visit \<Rightarrow> 'w strategy option \<Rightarrow> 'v \<Rightarrow> err option \<times> 'w strategy option \<times> 'v"
  and walk_all :: "('w, 'v) visit \<Rightarrow> 'w strategy option list \<Rightarrow> 'v \<Rightarrow> err option \<times> 'w strategy option list \<times> 'v"
where
  "walk visit None v = (None, None, v)"
| "walk visit (Some st) v =
     (case visit st v of
        (Some e, v') \<Rightarrow> (Some e, if errors_is e ErrVisitRemove then None else Some st, v')
      | (None, v') \<Rightarrow>
          (case st of
             SMulti t dl ss \<Rightarrow>
               (case walk_all visit ss v' of (e, ss', v'') \<Rightarrow> (e, Some (SMulti t dl ss'), v''))
           | _ \<Rightarrow> (None, Some st, v')))"
| "walk_all visit [] v = (None, [], v)"
| "walk_all visit (c # cs) v =
     (case walk visit c v of
        (None, c', v') \<Rightarrow> (case walk_all visit cs v' of (e, cs', v'') \<Rightarrow> (e, c' # cs', v''))
      | (Some e, c', v') \<Rightarrow>
          (if errors_is e ErrVisitRemove then
             (if errors_is e ErrVisitStop then (Some (Sentinel ErrVisitStop), cs, v') else walk_all visit cs v')
           else (Some e, c' # cs, v')))"

definition Walk ::
    "'w strategy option option \<Rightarrow> ('w, 'v) visit \<Rightarrow> 'v \<Rightarrow> unit outcome \<times> 'w strategy option option \<times> 'v" where
  "Walk root visit v =
     (case root of
        None \<Rightarrow> (Err (Msg ''root strategy is nil''), None, v)
      | Some slot \<Rightarrow>
          (case walk visit slot v of
             (None, slot', v') \<Rightarrow> (Ok (), Some slot', v')
           | (Some e, slot', v') \<Rightarrow>
               (if errors_is e ErrVisitRemove \<or> errors_is e ErrVisitStop then (Ok (), Some slot', v')
                else (Err e, Some slot', v'))))"


section \<open>Removing strategies from a tree\<close>

text \<open>What is left of a tree without the strategies of a kind, and which strategies a walk looks at.\<close>

definition kept :: "('w strategy \<Rightarrow> bool) \<Rightarrow> 'w strategy option \<Rightarrow> bool" where
  "kept P c = (case c of None \<Rightarrow> True | Some st \<Rightarrow> \<not> P st)"

fun prune :: "('w strategy \<Rightarrow> bool) \<Rightarrow> 'w strategy \<Rightarrow> 'w strategy" where
  "prune P (SMulti t dl ss) = SMulti t dl (map (map_option (prune P)) (filter (kept P) ss))"
| "prune P st = st"

fun looked_at :: "('w strategy \<Rightarrow> bool) \<Rightarrow> 'w strategy \<Rightarrow> 'w strategy list" where
  "looked_at P (SMulti t dl ss) =
     SMulti t dl ss # (if P (SMulti t dl ss) then []
       else concat (map (\<lambda>c. case c of None \<Rightarrow> [] | Some st \<Rightarrow> looked_at P st) ss))"
| "looked_at P st = [st]"

definition remove_if :: "('w strategy \<Rightarrow> bool) \<Rightarrow> ('w, 'w strategy list) visit" where
  "remove_if P st visited = (if P st then Some (Sentinel ErrVisitRemove) else None, visited @ [st])"

lemma walk_remove:
  "walk (remove_if P) c visited =
     (if kept P c then None else Some (Sentinel ErrVisitRemove),
      (if kept P c then map_option (prune P) c else None),
      visited @ (case c of None \<Rightarrow> [] | Some st \<Rightarrow> looked_at P st))"
  "walk_all (remove_if P) cs visited =
     (None, map (map_option (prune P)) (filter (kept P) cs),
      visited @ concat (map (\<lambda>c. case c of None \<Rightarrow> [] | Some st \<Rightarrow> looked_at P st) cs))"
proof (induction "remove_if P" c visited and "remove_if P" cs visited rule: walk_walk_all.induct)
  case (2 st visited)
  show ?case
  proof (cases "P st")
    case True
    then show ?thesis by (cases st) (simp_all add: remove_if_def kept_def)
  next
    case False
    with 2 show ?thesis by (cases st) (simp_all add: remove_if_def kept_def)
  qed
next
  case (4 c cs visited)
  then show ?case by (cases "kept P c") (auto simp: ErrVisitRemove_def ErrVisitStop_def)
qed (simp_all add: kept_def)

text \<open>
  C38: a walk whose visit function removes the strategies of a kind removes exactly these: what is left
  is the tree without them, at every depth, in the old order; nil entries stay. It looks at every
  strategy once, parents first, and not below a strategy that it removes.
\<close>

theorem Walk_removes:
  "Walk (Some (Some st)) (remove_if P) [] =
     (Ok (), Some (if P st then None else Some (prune P st)), looked_at P st)"
  by (simp add: Walk_def walk_remove kept_def del: walk.simps)


section \<open>Nested strategies\<close>

lemma st_do_assoc: "st_do (st_do c f) g = st_do c (\<lambda>x s. st_do (f x s) g)"
  by (cases c; cases "fst c") auto

lemma st_do_return [simp]: "st_do c (\<lambda>u s. (Ok (), s)) = c"
  by (cases c; cases "fst c") auto

lemma wait_all_append:
  "wait_all timeout (xs @ ys) ctx tg =
     (\<lambda>s. st_do (wait_all timeout xs ctx tg s) (\<lambda>_. wait_all timeout ys ctx tg))"
proof (induction xs)
  case (Cons c cs)
  then show ?case by (cases c) (auto simp: st_do_assoc Let_def intro!: ext)
qed simp

lemma wait_all_Nil: "wait_all timeout [] ctx tg = (\<lambda>s. (Ok (), s))"
  by (rule ext) simp

lemma wait_all_one: "wt_nilable w \<Longrightarrow> wait_all None [Some w] ctx tg = wt_wait w ctx tg"
  by (rule ext) (simp add: Let_def wait_all_Nil split: option.splits)

lemma wait_all_two:
  "wt_nilable w \<Longrightarrow> wait_all None [Some w, Some x] ctx tg s =
     st_do (wt_wait w ctx tg s) (\<lambda>_. wait_all None [Some x] ctx tg)"
  by (simp add: Let_def split: option.splits)

lemma multi_wait_plain: "ws \<noteq> [] \<Longrightarrow> multi_wait None None ws ctx tg = wait_all None ws ctx tg"
  by (rule ext) (simp add: multi_wait_def)

text \<open>
  Waiting for two groups of strategies, each in a \<open>ForAll\<close> of its own, is waiting for all of them
  in one \<open>ForAll\<close>: same outcome, same calls, same time. In an empty group it is an error instead.
\<close>

theorem ForAll_nested:
  assumes "xs \<noteq> []" and "ys \<noteq> []"
  shows "WaitUntilReady lib (ForAll [Some (ForAll xs), Some (ForAll ys)]) ctx tg s
     = WaitUntilReady lib (ForAll (xs @ ys)) ctx tg s"
  using assms by (simp add: ForAll_def multi_wait_plain wait_all_one wait_all_two wait_all_append)

definition demo_wait_lib :: "'w wait_lib" where
  "demo_wait_lib = \<lparr>wl_host = demo_host_env, wl_regexp = (\<lambda>_. None),
     wl_tls = \<lparr>tb_AppendCertsFromPEM = (\<lambda>b. b \<noteq> []), tb_X509KeyPair = (\<lambda>_ _. None)\<rparr>\<rparr>"

theorem ForAll_nested_witness:
  "WaitUntilReady demo_wait_lib (ForAll [Some (ForAll [Some (SHealth ForHealthCheck)]),
       Some (ForAll [None, Some (SHostPort (ForMappedPort demo_port))])]) Background demo_target (0, ())
   = WaitUntilReady demo_wait_lib (ForAll [Some (SHealth ForHealthCheck), None, Some (SHostPort (ForMappedPort demo_port))])
       Background demo_target (0, ())"
  using ForAll_nested [of "[Some (SHealth ForHealthCheck)]" "[None, Some (SHostPort (ForMappedPort demo_port))]"
    demo_wait_lib Background demo_target "(0, ())"] by simp


section \<open>Every strategy comes back\<close>

lemma answers_lift: "answers f \<Longrightarrow> answers (lift_call f)"
  by (rule answersI) (auto simp: lift_call_def split: prod.splits dest!: answersD)

lemma answering_lift:
  fixes tg :: "'w target"
  assumes "answering tg"
  shows "answering (lift_target tg :: ('w \<times> 'v) target)"
proof -
  have "fst s < fst (snd (lift_call (tg_Exec tg c cmd m) s))" for c cmd m and s :: "('w \<times> 'v) clocked"
  proof (cases s)
    case (fields t w v)
    obtain r s' where "tg_Exec tg c cmd m (t, w) = (r, s')" by (cases "tg_Exec tg c cmd m (t, w)")
    with answering_Exec [OF assms this] fields show ?thesis by (auto simp: lift_call_def split: prod.splits)
  qed
  with assms show ?thesis by (simp add: answering_def lift_target_def answers_lift del: split_paired_All)
qed

lemma wait_all_answers:
  assumes "answering tg" and "\<And>w c. Some w \<in> set ws \<Longrightarrow>
      (if timeout \<noteq> None \<and> wt_Timeout w = Some None then c \<noteq> None else c = ctx) \<Longrightarrow> answers (wt_wait w c tg)"
  shows "answers (wait_all timeout ws ctx tg)"
  using assms(2)
proof (induction ws)
  case Nil
  then show ?case by (simp add: answers_def)
next
  case (Cons c cs)
  then have rest: "answers (wait_all timeout cs ctx tg)" by simp
  show ?case
  proof (cases c)
    case None
    with rest show ?thesis by (simp add: answers_def)
  next
    case (Some w)
    let ?c = "\<lambda>s :: 'a clocked. case (wt_Timeout w, timeout) of (Some None, Some d) \<Rightarrow> WithTimeout ctx (fst s) d | _ \<Rightarrow> ctx"
    show ?thesis
    proof (rule answersI)
      fix s r s' assume r: "wait_all timeout (c # cs) ctx tg s = (r, s')"
      have "answers (wt_wait w (?c s) tg)"
        by (rule Cons.prems) (auto simp: Some WithTimeout_def split: option.splits)
      then have "answers (\<lambda>s1. st_do (wt_wait w (?c s) tg s1) (\<lambda>_ s'. wait_all timeout cs ctx tg s'))"
        using rest by (rule answers_st_do)
      from answersD [OF this] r Some show "r \<noteq> Panic never_returns \<and> fst s \<le> fst s'"
        by (cases "wt_nilable w") (auto simp: Let_def IsNil_panic_def never_returns_def)
    qed
  qed
qed

lemma multi_wait_answers:
  assumes "\<And>c. if dl = None then c = ctx else c \<noteq> None \<Longrightarrow> answers (wait_all timeout ws c tg)"
  shows "answers (multi_wait timeout dl ws ctx tg)"
proof (rule answersI)
  fix s r s' assume r: "multi_wait timeout dl ws ctx tg s = (r, s')"
  let ?c = "case dl of None \<Rightarrow> ctx | Some d \<Rightarrow> WithTimeout ctx (fst s) d"
  have "answers (wait_all timeout ws ?c tg)"
    by (rule assms) (auto simp: WithTimeout_def split: option.splits)
  from answersD [OF this] r show "r \<noteq> Panic never_returns \<and> fst s \<le> fst s'"
    by (cases "ws = []") (auto simp: multi_wait_def Let_def)
qed

text \<open>
  A strategy that is well configured, in a context that has a deadline (\<open>bounded\<close>) or may have none:
  it polls at intervals; waiting for the exit has a deadline of its own or around it; a strategy or
  matcher of the caller's comes back.
\<close>

fun well :: "'w wait_lib \<Rightarrow> bool \<Rightarrow> 'w strategy \<Rightarrow> bool" where
  "well lib bounded (SNop ws) \<longleftrightarrow> (\<forall>ctx tg. answering tg \<longrightarrow> answers (ns_waitUntilReady ws ctx tg))"
| "well lib bounded (SExit ws) \<longleftrightarrow> 0 < xs_PollInterval ws \<and> (bounded \<or> xs_timeout ws \<noteq> None)"
| "well lib bounded (SHealth ws) \<longleftrightarrow> 0 < hs_PollInterval ws"
| "well lib bounded (SFile ws) \<longleftrightarrow> 0 < fs_pollInterval ws \<and> matcher_answers ws"
| "well lib bounded (SExec ws) \<longleftrightarrow> 0 < es_PollInterval ws"
| "well lib bounded (SLog ws) \<longleftrightarrow> 0 < ls_PollInterval ws"
| "well lib bounded (SHostPort ws) \<longleftrightarrow> 0 < hp_PollInterval ws"
| "well lib bounded (SSQL ws) \<longleftrightarrow> 0 < sq_PollInterval ws"
| "well lib bounded (SHTTP ws) \<longleftrightarrow> 0 < ht_PollInterval ws"
| "well lib bounded (STLS ws) \<longleftrightarrow> 0 < tl_pollInterval ws"
| "well lib bounded (SMulti t dl ss) \<longleftrightarrow>
     list_all (\<lambda>c. case c of None \<Rightarrow> True | Some st \<Rightarrow>
       well lib (bounded \<or> dl \<noteq> None \<or> (t \<noteq> None \<and> Timeout_of st = Some None)) st) ss"
| "well lib bounded (SCustom c) \<longleftrightarrow> (\<forall>ctx tg. answering tg \<longrightarrow> answers (cu_wait c ctx tg))"

lemma tls_files_well:
  assumes "f \<in> set (tls_files lib ws)"
  shows "fs_pollInterval f = tl_pollInterval ws \<and> matcher_answers f"
proof -
  have "answers (root_matcher lib x b)" for x b
    by (rule answersI) (auto simp: root_matcher_def Let_def split: prod.splits option.splits if_splits)
  moreover have "answers (cert_matcher x b)" for x b
    by (rule answersI) (auto simp: cert_matcher_def split: prod.splits option.splits)
  moreover have "answers (key_matcher lib x y b)" for x y b
    by (rule answersI) (auto simp: key_matcher_def split: prod.splits option.splits)
  ultimately show ?thesis using assms
    by (auto simp: tls_files_def File_WithPollInterval_def WithMatcher_def matcher_answers_def split: option.splits)
qed

lemma TLS_answers:
  fixes tg :: "'w target"
  assumes "answering tg" and "0 < tl_pollInterval ws"
  shows "answers (\<lambda>s. case TLS_WaitUntilReady lib ws ctx tg s of ((r, cfg), s') \<Rightarrow> (r, s'))"
proof (rule answersI)
  let ?ws = "map (Some \<circ> file_waiter) (tls_files lib ws) :: 'w tls_world waiter option list"
  fix s r s' assume r: "(case TLS_WaitUntilReady lib ws ctx tg s of ((r, cfg), s') \<Rightarrow> (r, s')) = (r, s')"
  have "answers (wait_all None ?ws c (lift_target tg))" for c
  proof (rule wait_all_answers [OF answering_lift [OF assms(1)]])
    fix w d assume "Some w \<in> set ?ws"
    then obtain f :: "'w tls_world file_strategy" where f: "f \<in> set (tls_files lib ws)" "w = file_waiter f" by auto
    from tls_files_well [OF f(1)] assms(2) have "0 < fs_pollInterval f \<and> matcher_answers f" by simp
    from file_wait.wait_answers [OF this answering_lift [OF assms(1)]]
    show "answers (wt_wait w d (lift_target tg))" by (simp add: f file_waiter_def)
  qed
  then have "answers (multi_wait None (tl_timeout ws) ?ws ctx (lift_target tg))"
    by (rule multi_wait_answers)
  from answersD [OF this] r show "r \<noteq> Panic never_returns \<and> fst s \<le> fst s'"
    by (fastforce simp: TLS_WaitUntilReady_def split: prod.splits)
qed

lemma exit_bounded_answers:
  assumes "answering tg" and "0 < xs_PollInterval ws" and "ctx \<noteq> None \<or> xs_timeout ws \<noteq> None"
  shows "answers (Exit_WaitUntilReady ws ctx tg)"
proof (cases "xs_timeout ws")
  case None
  with assms(3) obtain due e where "ctx = Some (due, e)" by auto
  with None exit_round_answers [OF assms(1,2)] show ?thesis
    by (simp add: Exit_WaitUntilReady_def [abs_def] Let_def)
next
  case (Some d)
  with assms exit_wait.wait_answers show ?thesis by blast
qed


lemma WaitUntilReady_answers:
  assumes tg: "answering tg" and lib: "answering_host (wl_host lib)"
  shows "well lib bounded st \<Longrightarrow> (bounded \<Longrightarrow> ctx \<noteq> None) \<Longrightarrow> answers (WaitUntilReady lib st ctx tg)"
proof (induction st arbitrary: bounded ctx)
  case (SExit ws)
  then show ?case using exit_bounded_answers [OF tg, of ws ctx] by auto
next
  case (SHealth ws)
  then show ?case using health_wait.wait_answers [OF _ tg, of ws ctx] by simp
next
  case (SFile ws)
  then show ?case using file_wait.wait_answers [OF _ tg, of ws ctx] by simp
next
  case (SExec ws)
  then show ?case using exec_wait.wait_answers [OF _ tg, of ws ctx] by simp
next
  case (SLog ws)
  then show ?case using log_wait.wait_answers [OF _ tg, of "wl_regexp lib" ws ctx] by (simp add: log_well_def)
next
  case (SHostPort ws)
  then show ?case using host_port.wait_answers [OF _ tg, of ws "wl_host lib" ctx] lib by simp
next
  case (SSQL ws)
  then show ?case using sql_wait.wait_answers [OF _ tg, of ws "wl_host lib" ctx] lib by simp
next
  case (SHTTP ws)
  then show ?case using http_wait.wait_answers [OF _ tg, of ws "wl_host lib" ctx] lib by simp
next
  case (STLS ws)
  then show ?case using TLS_answers [OF tg, of ws "wl_tls lib" ctx] by simp
next
  case (SMulti t dl ss)
  let ?w = "\<lambda>st. \<lparr>wt_Timeout = Timeout_of st, wt_nilable = nilable st, wt_wait = WaitUntilReady lib st\<rparr>"
  have all: "answers (wait_all t (map (map_option ?w) ss) c tg)" if c: "bounded \<or> dl \<noteq> None \<Longrightarrow> c \<noteq> None" for c
  proof (rule wait_all_answers [OF tg])
    fix w d
    assume "Some w \<in> set (map (map_option ?w) ss)"
      and d: "if t \<noteq> None \<and> wt_Timeout w = Some None then d \<noteq> None else d = c"
    from this(1) have "Some w \<in> map_option ?w ` set ss" by (simp only: set_map)
    then obtain x where w: "Some w = map_option ?w x" and x: "x \<in> set ss" by (rule imageE)
    from w obtain st where st: "x = Some st" "w = ?w st" by (cases x) simp_all
    let ?b = "bounded \<or> dl \<noteq> None \<or> (t \<noteq> None \<and> Timeout_of st = Some None)"
    from SMulti.prems(1) x have "case x of None \<Rightarrow> True | Some st \<Rightarrow>
        well lib (bounded \<or> dl \<noteq> None \<or> (t \<noteq> None \<and> Timeout_of st = Some None)) st"
      unfolding well.simps list_all_iff by blast
    with st(1) have well: "well lib ?b st" by simp
    have "?b \<Longrightarrow> d \<noteq> None" using d c st(2) by (auto split: if_splits)
    with SMulti.IH [OF x, of st ?b d] well st show "answers (wt_wait w d tg)" by simp
  qed
  have "answers (multi_wait t dl (map (map_option ?w) ss) ctx tg)"
    using SMulti.prems(2) by (intro multi_wait_answers all) (auto split: if_splits)
  then show ?case by simp
qed (use tg in \<open>simp_all add: Nop_WaitUntilReady_def [abs_def]\<close>)

text \<open>
  C10: every strategy comes back. A well-configured strategy, waited for in a context, returns on a
  target and a host whose calls return, whatever they answer, and time does not run backwards meanwhile;
  this includes trees of strategies of any depth, and waiting for an exit when there is a deadline at it
  or around it.
\<close>

theorem WaitUntilReady_returns:
  assumes "answering tg" and "answering_host (wl_host lib)" and "well lib (ctx \<noteq> None) st"
  shows "fst (WaitUntilReady lib st ctx tg s) \<noteq> Panic never_returns
     \<and> fst s \<le> fst (snd (WaitUntilReady lib st ctx tg s))"
  using WaitUntilReady_answers [OF assms] by (simp add: answers_fst answers_snd)

lemma answering_demo: "answering demo_target"
  by (simp add: answering_def demo_target_def answers_def never_returns_def)

lemma answering_demo_host: "answering_host (demo_host_env\<lparr>he_Dial := \<lambda>c _ _ s. (if ctx_err c (fst s) = None then
    Err (Sentinel ECONNREFUSED) else Err DeadlineExceeded, s)\<rparr>)"
  by (auto simp: answering_host_def demo_host_env_def answers_def isConnRefusedErr_def DeadlineExceeded_def
      ECONNREFUSED_def)

text \<open>Here nothing ever listens on the port and the container never exits.\<close>

theorem WaitUntilReady_returns_witness:
  "fst (WaitUntilReady (demo_wait_lib\<lparr>wl_host := demo_host_env\<lparr>he_Dial := \<lambda>c _ _ s.
         (if ctx_err c (fst s) = None then Err (Sentinel ECONNREFUSED) else Err DeadlineExceeded, s)\<rparr>\<rparr>)
      (WithDeadline 5000 (ForAll [Some (SHostPort (ForListeningPort demo_port)), None, Some (SExit ForExit)]))
      Background demo_target (0, ())) \<noteq> Panic never_returns"
proof -
  let ?lib = "demo_wait_lib\<lparr>wl_host := demo_host_env\<lparr>he_Dial := \<lambda>c _ _ s.
         (if ctx_err c (fst s) = None then Err (Sentinel ECONNREFUSED) else Err DeadlineExceeded, s)\<rparr>\<rparr>"
  let ?st = "WithDeadline 5000 (ForAll [Some (SHostPort (ForListeningPort demo_port)), None, Some (SExit ForExit)])"
  have "well ?lib (Background \<noteq> None) ?st"
    by (simp add: ForAll_def ForListeningPort_def NewHostPortStrategy_def ForExit_def NewExitStrategy_def
        defaultPollInterval_def)
  from WaitUntilReady_returns [OF answering_demo _ this, of "(0, ())"] answering_demo_host show ?thesis by simp
qed

text \<open>
  One strategy that is a value and not a pointer makes \<open>ForAll\<close> panic when its turn comes: the test for a
  typed nil does not look at the kind of the value.
\<close>

lemma ForAll_value_strategy_panics:
  "\<not> cu_pointer c \<Longrightarrow> WaitUntilReady lib (ForAll (Some (SCustom c) # ss)) ctx tg s = (Panic IsNil_panic, s)"
  by (simp add: ForAll_def multi_wait_def)

end
