(* ===== verification/Image_Dockerfile.thy ===== *)
theory Image_Dockerfile
  imports Wait_Core File_Tree
begin

text \<open>
  Package \<open>image\<close>, the files \<open>dockerfiles.go\<close> and \<open>dockerignore.go\<close>: which images a Dockerfile is built
  from, with the build arguments in the image names replaced, and the patterns that \<open>.dockerignore\<close>
  excludes from a build context. \<open>bufio.Scanner\<close>, which cuts the Dockerfile into lines, and the one
  regular expression of the package are modelled here; the parser of \<open>.dockerignore\<close> is a parameter.
\<close>


section \<open>Lines\<close>

text \<open>
  \<open>bufio.ScanLines\<close>: the lines without their newline and one carriage return before it; no empty line
  after a final newline. A line of 64 kilobytes or more stops the scanner.
\<close>

definition raw_lines :: "string \<Rightarrow> string list" where
  "raw_lines s = (let ls = split_on newline s in if last ls = [] then butlast ls else ls)"

definition dropCR :: "string \<Rightarrow> string" where
  "dropCR l = trim_suffix l [CHR 0x0D]"

definition MaxScanTokenSize :: nat where
  "MaxScanTokenSize = 64 * 1024"

definition scan_lines :: "string \<Rightarrow> string list outcome" where
  "scan_lines s =
     (if list_ex (\<lambda>l. MaxScanTokenSize \<le> length l) (raw_lines s)
      then Err (Sentinel ''bufio.Scanner: token too long'') else Ok (map dropCR (raw_lines s)))"


section \<open>Build arguments\<close>

text \<open>
  A match of \<open>buildArgPattern\<close> at the front of a text: the name, the default (the empty string when
  there is none) and the length of the match. The name runs up to the first closing brace, colon or
  dash, the default up to the first closing brace.
\<close>

definition name_char :: "char \<Rightarrow> bool" where
  "name_char c \<longleftrightarrow> c \<noteq> CHR ''}'' \<and> c \<noteq> CHR '':'' \<and> c \<noteq> CHR ''-''"

definition buildArgPattern :: "string \<Rightarrow> (string \<times> string \<times> nat) option" where
  "buildArgPattern s =
     (if \<not> has_prefix s ''${'' then None
      else let name = takeWhile name_char (drop 2 s);
               rest = dropWhile name_char (drop 2 s) in
           if name = '''' then None
           else if has_prefix rest ''}'' then Some (name, '''', length name + 3)
           else if has_prefix rest '':-'' then
             (let dflt = takeWhile (\<lambda>c. c \<noteq> CHR ''}'') (drop 2 rest) in
              if length dflt < length (drop 2 rest) then Some (name, dflt, length name + length dflt + 5)
              else None)
           else None)"

definition build_arg :: "string option smap \<Rightarrow> string \<Rightarrow> string \<Rightarrow> string \<Rightarrow> string" where
  "build_arg buildArgs matched varName defaultValue =
     (case buildArgs varName of
        Some (Some buildArg) \<Rightarrow> buildArg
      | _ \<Rightarrow> (if defaultValue \<noteq> '''' then defaultValue else matched))"

function handleBuildArgs :: "string \<Rightarrow> string option smap \<Rightarrow> string" where
  "handleBuildArgs [] buildArgs = []"
| "handleBuildArgs (c # s) buildArgs =
     (case buildArgPattern (c # s) of
        None \<Rightarrow> c # handleBuildArgs s buildArgs
      | Some (varName, defaultValue, n) \<Rightarrow>
          build_arg buildArgs (take n (c # s)) varName defaultValue @ handleBuildArgs (drop n (c # s)) buildArgs)"
  by pat_completeness auto

lemma buildArgPattern_length:
  assumes "buildArgPattern s = Some (v, d, n)"
  shows "3 < n"
  using assms by (auto simp: buildArgPattern_def Let_def split: if_splits)

termination handleBuildArgs
  by (relation "measure (\<lambda>(s, m). length s)") (auto dest: buildArgPattern_length)


section \<open>The images\<close>

definition image_of_line :: "string option smap \<Rightarrow> string \<Rightarrow> string list" where
  "image_of_line buildArgs line0 =
     (let line = trim_space line0 in
      if \<not> has_prefix (to_upper line) ''FROM'' then []
      else case split_on (CHR '' '') (trim_space (trim_prefix line ''FROM'')) of
        [] \<Rightarrow> []
      | part # parts \<Rightarrow> [handleBuildArgs part buildArgs])"

definition ImagesFromReader :: "stream \<Rightarrow> string option smap \<Rightarrow> string list outcome" where
  "ImagesFromReader r buildArgs =
     (case scan_lines (fst r) of
        Err e \<Rightarrow> Err e
      | Panic p \<Rightarrow> Panic p
      | Ok lines \<Rightarrow> (case snd r of Some e \<Rightarrow> Err e | None \<Rightarrow> Ok (concat (map (image_of_line buildArgs) lines))))"

definition ImagesFromDockerfile :: "node \<Rightarrow> string \<Rightarrow> string option smap \<Rightarrow> string list outcome" where
  "ImagesFromDockerfile disk dockerfile buildArgs =
     (case node_at disk (path_of dockerfile) of
        Inl e \<Rightarrow> Err (os_error e)
      | Inr (FileN c) \<Rightarrow> ImagesFromReader (c, None) buildArgs
      | Inr (DirN es) \<Rightarrow> ImagesFromReader ('''', Some (os_error EISDIR)) buildArgs)"

text \<open>
  The archive is the entries that its headers announce and the error that the last header was read with,
  none at the end of the archive; \<open>seek\<close> is the error of the reader's \<open>Seek\<close>, if any.
\<close>

fun images_in_tar ::
    "(string \<times> int \<times> stream) list \<Rightarrow> err option \<Rightarrow> err option \<Rightarrow> string \<Rightarrow> string option smap \<Rightarrow> string list outcome" where
  "images_in_tar [] bad seek dockerfile buildArgs =
     (case bad of
        None \<Rightarrow> Err (Msg (''dockerfile '' @ show_q dockerfile @ '' not found in context archive''))
      | Some e \<Rightarrow> Err (wrapf ''reading tar archive'' e))"
| "images_in_tar ((name, mode, content) # es) bad seek dockerfile buildArgs =
     (if name \<noteq> dockerfile then images_in_tar es bad seek dockerfile buildArgs
      else then_wrap ''extract images from Dockerfile'' (ImagesFromReader content buildArgs) (\<lambda>images.
        case seek of Some e \<Rightarrow> Err (wrapf ''seek context archive to start'' e) | None \<Rightarrow> Ok images))"

definition ImagesFromTarReader ::
    "(string \<times> int \<times> stream) list \<times> err option \<Rightarrow> err option \<Rightarrow> string \<Rightarrow> string option smap \<Rightarrow> string list outcome" where
  "ImagesFromTarReader r seek dockerfile buildArgs = images_in_tar (fst r) (snd r) seek dockerfile buildArgs"


section \<open>The ignore file\<close>

text \<open>Whether \<open>.dockerignore\<close> exists, and its patterns; \<open>read_all\<close> is \<open>ignorefile.ReadAll\<close>.\<close>

definition ParseDockerIgnore ::
    "(stream \<Rightarrow> string list \<times> err option) \<Rightarrow> node \<Rightarrow> string \<Rightarrow> (bool \<times> string list) outcome" where
  "ParseDockerIgnore read_all disk targetDir =
     (let found = (\<lambda>r. case read_all r of
                          (excluded, None) \<Rightarrow> Ok (True, excluded)
                        | (excluded, Some e) \<Rightarrow> Err (wrapf ''read .dockerignore'' e)) in
      case node_at disk (path_of targetDir @ [''.dockerignore'']) of
        Inl ENOENT \<Rightarrow> Ok (False, [])
      | Inl e \<Rightarrow> Err (wrapf ''open .dockerignore'' (os_error e))
      | Inr (FileN c) \<Rightarrow> found (c, None)
      | Inr (DirN es) \<Rightarrow> found ('''', Some (os_error EISDIR)))"


section \<open>Build arguments: lemmas\<close>

text \<open>
  The reference: an image name is a sequence of literal pieces and of build arguments with or without a
  default.
\<close>

datatype piece = Lit string | Var string | VarOr string string

fun piece_text :: "piece \<Rightarrow> string" where
  "piece_text (Lit s) = s"
| "piece_text (Var v) = ''${'' @ v @ ''}''"
| "piece_text (VarOr v d) = ''${'' @ v @ '':-'' @ d @ ''}''"

fun piece_ok :: "piece \<Rightarrow> bool" where
  "piece_ok (Lit s) = (CHR ''$'' \<notin> set s)"
| "piece_ok (Var v) = (v \<noteq> '''' \<and> list_all name_char v)"
| "piece_ok (VarOr v d) = (v \<noteq> '''' \<and> list_all name_char v \<and> CHR ''}'' \<notin> set d)"

fun piece_value :: "string option smap \<Rightarrow> piece \<Rightarrow> string" where
  "piece_value m (Lit s) = s"
| "piece_value m (Var v) = (case m v of Some (Some a) \<Rightarrow> a | _ \<Rightarrow> ''${'' @ v @ ''}'')"
| "piece_value m (VarOr v d) =
     (case m v of Some (Some a) \<Rightarrow> a | _ \<Rightarrow> if d = '''' then ''${'' @ v @ '':-}'' else d)"

definition name_text :: "piece list \<Rightarrow> string" where
  "name_text ps = concat (map piece_text ps)"

definition name_value :: "string option smap \<Rightarrow> piece list \<Rightarrow> string" where
  "name_value m ps = concat (map (piece_value m) ps)"

lemma takeWhile_stop: "list_all P v \<Longrightarrow> \<not> P c \<Longrightarrow> takeWhile P (v @ c # t) = v"
  by (induction v) auto

lemma dropWhile_stop: "list_all P v \<Longrightarrow> \<not> P c \<Longrightarrow> dropWhile P (v @ c # t) = c # t"
  by (induction v) auto

lemma not_name_char [simp]: "\<not> name_char (CHR ''}'')" "\<not> name_char (CHR '':'')"
  by (simp_all add: name_char_def)

lemma buildArgPattern_literal: "c \<noteq> CHR ''$'' \<Longrightarrow> buildArgPattern (c # s) = None"
  by (simp add: buildArgPattern_def)

lemma buildArgPattern_Var:
  "v \<noteq> '''' \<Longrightarrow> list_all name_char v \<Longrightarrow> buildArgPattern (''${'' @ v @ ''}'' @ t) = Some (v, '''', length v + 3)"
  by (simp add: buildArgPattern_def takeWhile_stop dropWhile_stop)

lemma buildArgPattern_VarOr:
  assumes "v \<noteq> ''''" and "list_all name_char v" and "CHR ''}'' \<notin> set d"
  shows "buildArgPattern (''${'' @ v @ '':-'' @ d @ ''}'' @ t) = Some (v, d, length v + length d + 5)"
proof -
  from assms(3) have "takeWhile (\<lambda>c. c \<noteq> CHR ''}'') (d @ CHR ''}'' # t) = d"
    by (intro takeWhile_stop) (auto simp: list_all_iff)
  with assms(1,2) show ?thesis
    by (simp add: buildArgPattern_def takeWhile_stop dropWhile_stop)
qed

lemma handle_literal: "CHR ''$'' \<notin> set s \<Longrightarrow> handleBuildArgs (s @ t) m = s @ handleBuildArgs t m"
  by (induction s) (auto simp: buildArgPattern_literal)

lemma handle_matched:
  assumes "buildArgPattern (s @ t) = Some (v, d, n)" and "n = length s" and "s \<noteq> []"
  shows "handleBuildArgs (s @ t) m = build_arg m s v d @ handleBuildArgs t m"
proof -
  from assms(3) obtain c r where s: "s = c # r" by (cases s) auto
  with assms(1) have "buildArgPattern (c # (r @ t)) = Some (v, d, n)" by simp
  moreover have "take n (c # (r @ t)) = s" "drop n (c # (r @ t)) = t" using assms(2) s by simp_all
  ultimately have "handleBuildArgs (c # (r @ t)) m = build_arg m s v d @ handleBuildArgs t m"
    by (simp del: take_Suc_Cons drop_Suc_Cons)
  with s show ?thesis by simp
qed

lemma handle_piece:
  assumes "piece_ok p"
  shows "handleBuildArgs (piece_text p @ t) m = piece_value m p @ handleBuildArgs t m"
proof (cases p)
  case (Lit s)
  with assms show ?thesis by (simp add: handle_literal)
next
  case (Var v)
  with assms have "handleBuildArgs ((''${'' @ v @ ''}'') @ t) m = build_arg m (''${'' @ v @ ''}'') v '''' @ handleBuildArgs t m"
    using buildArgPattern_Var [of v t] by (intro handle_matched [where n = "length v + 3"]) auto
  with Var show ?thesis by (auto simp: build_arg_def split: option.split)
next
  case (VarOr v d)
  with assms have "handleBuildArgs ((''${'' @ v @ '':-'' @ d @ ''}'') @ t) m =
      build_arg m (''${'' @ v @ '':-'' @ d @ ''}'') v d @ handleBuildArgs t m"
    using buildArgPattern_VarOr [of v d t] by (intro handle_matched [where n = "length v + length d + 5"]) auto
  with VarOr show ?thesis by (auto simp: build_arg_def split: option.split)
qed

lemma handleBuildArgs_pieces:
  "list_all piece_ok ps \<Longrightarrow> handleBuildArgs (name_text ps) m = name_value m ps"
  by (induction ps) (simp_all add: name_text_def name_value_def handle_piece)


section \<open>Lines: lemmas\<close>

definition trim_right :: "string \<Rightarrow> string" where
  "trim_right s = rev (dropWhile is_space (rev s))"

lemma trim_right_append:
  "w \<noteq> [] \<Longrightarrow> \<not> is_space (last w) \<Longrightarrow> trim_right (w @ t) = w @ trim_right t"
  by (cases w rule: rev_cases) (auto simp: trim_right_def dropWhile_append)

lemma trim_space_append:
  "list_all is_space b \<Longrightarrow> w \<noteq> [] \<Longrightarrow> \<not> is_space (hd w) \<Longrightarrow> \<not> is_space (last w) \<Longrightarrow>
     trim_space (b @ w @ t) = w @ trim_right t"
  using trim_right_append [of w t]
  by (cases w) (auto simp: trim_space_def trim_right_def list_all_iff dropWhile_append)

lemma trim_right_space_first: "t = [] \<or> hd t = CHR '' '' \<Longrightarrow> trim_right t = [] \<or> hd (trim_right t) = CHR '' ''"
proof (induction t rule: rev_induct)
  case (snoc x xs)
  then show ?case by (cases xs) (auto simp: trim_right_def)
qed (simp add: trim_right_def)

lemma split_on_first: "c \<notin> set w \<Longrightarrow> t = [] \<or> hd t = c \<Longrightarrow> \<exists>ps. split_on c (w @ t) = w # ps"
  by (cases t) auto

lemma to_upper_FROM: "has_prefix (to_upper (''FROM'' @ t)) ''FROM''"
  by (simp add: to_upper_def upper_char_def Let_def)

lemma space_is_space [simp]: "is_space (CHR '' '')"
  by (simp add: is_space_def)

lemma image_of_FROM:
  assumes b: "list_all is_space b" and w: "w \<noteq> []" "\<not> is_space (hd w)" "\<not> is_space (last w)" "CHR '' '' \<notin> set w"
    and t: "t = [] \<or> hd t = CHR '' ''" and n: "0 < n"
  shows "image_of_line m (b @ ''FROM'' @ replicate n (CHR '' '') @ w @ t) = [handleBuildArgs w m]"
proof -
  have fm: "\<not> is_space (CHR ''F'')" "\<not> is_space (CHR ''M'')" by (simp_all add: is_space_def)
  have "trim_space (b @ ''FROM'' @ replicate n (CHR '' '') @ w @ t) = ''FROM'' @ trim_right (replicate n (CHR '' '') @ w @ t)"
    using b fm by (intro trim_space_append) auto
  moreover have "trim_right (replicate n (CHR '' '') @ w @ t) = replicate n (CHR '' '') @ w @ trim_right t"
    using trim_right_append [of "replicate n (CHR '' '') @ w" t] w by simp
  moreover have "trim_space (replicate n (CHR '' '') @ w @ trim_right t) = w @ trim_right (trim_right t)"
    using w by (intro trim_space_append) (auto simp: list_all_iff)
  moreover obtain ps where "split_on (CHR '' '') (w @ trim_right (trim_right t)) = w # ps"
    using split_on_first [OF w(4) trim_right_space_first [OF trim_right_space_first [OF t]]] by blast
  ultimately show ?thesis
    using to_upper_FROM [of "replicate n (CHR '' '') @ w @ trim_right t"]
      trim_prefix_append [of "''FROM''" "replicate n (CHR '' '') @ w @ trim_right t"]
    by (simp add: image_of_line_def del: trim_prefix_append append_Cons)
qed

lemma split_on_lines:
  "\<forall>l\<in>set ls. c \<notin> set l \<Longrightarrow> split_on c (concat (map (\<lambda>l. l @ [c]) ls)) = ls @ [[]]"
  by (induction ls) auto

lemma raw_lines_concat:
  "\<forall>l\<in>set ls. newline \<notin> set l \<Longrightarrow> raw_lines (concat (map (\<lambda>l. l @ [newline]) ls)) = ls"
  by (simp add: raw_lines_def split_on_lines)


section \<open>The images of a Dockerfile\<close>

text \<open>A Dockerfile of the reference: instructions that name an image, and other lines.\<close>

datatype instruction = From nat nat "piece list" string | Other string

fun instruction_text :: "instruction \<Rightarrow> string" where
  "instruction_text (From i n name rest) =
     replicate i (CHR '' '') @ ''FROM'' @ replicate n (CHR '' '') @ name_text name @ rest"
| "instruction_text (Other s) = s"

fun instruction_images :: "string option smap \<Rightarrow> instruction \<Rightarrow> string list" where
  "instruction_images m (From i n name rest) = [name_value m name]"
| "instruction_images m (Other s) = []"

definition line_ok :: "string \<Rightarrow> bool" where
  "line_ok l \<longleftrightarrow> newline \<notin> set l \<and> \<not> has_suffix l [CHR 0x0D] \<and> length l < MaxScanTokenSize"

fun instruction_ok :: "instruction \<Rightarrow> bool" where
  "instruction_ok (From i n name rest) \<longleftrightarrow>
     0 < n \<and> list_all piece_ok name \<and> name_text name \<noteq> '''' \<and> \<not> list_ex is_space (name_text name)
     \<and> (rest = '''' \<or> hd rest = CHR '' '') \<and> line_ok (instruction_text (From i n name rest))"
| "instruction_ok (Other s) \<longleftrightarrow> \<not> has_prefix (to_upper (trim_space s)) ''FROM'' \<and> line_ok s"

lemma image_of_instruction:
  assumes "instruction_ok i"
  shows "image_of_line m (instruction_text i) = instruction_images m i"
proof (cases i)
  case (From k n name rest)
  let ?w = "name_text name"
  from assms From have w: "?w \<noteq> []" and sp: "\<forall>c\<in>set ?w. \<not> is_space c"
    by (auto simp: list_ex_iff)
  then have "\<not> is_space (hd ?w)" "\<not> is_space (last ?w)" "CHR '' '' \<notin> set ?w" by auto
  with w assms From have "image_of_line m (replicate k (CHR '' '') @ ''FROM'' @ replicate n (CHR '' '') @ ?w @ rest)
      = [handleBuildArgs ?w m]"
    by (intro image_of_FROM) (auto simp: list_all_iff)
  with assms From handleBuildArgs_pieces [of name m] show ?thesis by simp
next
  case (Other s)
  with assms show ?thesis by (simp add: image_of_line_def Let_def)
qed

definition dockerfile_text :: "instruction list \<Rightarrow> string" where
  "dockerfile_text is = concat (map (\<lambda>l. l @ [newline]) (map instruction_text is))"

lemma instruction_line_ok: "instruction_ok i \<Longrightarrow> line_ok (instruction_text i)"
  by (cases i) auto

text \<open>
  C23: the images of a Dockerfile are found in their order: for every file of instructions that name an
  image after \<open>FROM\<close> (indented or not, with whatever follows the name) and of other lines,
  \<open>ImagesFromReader\<close> returns the names of the \<open>FROM\<close> lines, with every build argument replaced by its
  value where one is given, else by its default, and left as it stands when it has neither.
\<close>

theorem ImagesFromReader_images:
  assumes "list_all instruction_ok is"
  shows "ImagesFromReader (dockerfile_text is, None) buildArgs = Ok (concat (map (instruction_images buildArgs) is))"
proof -
  let ?ls = "map instruction_text is"
  from assms have ok: "\<forall>l\<in>set ?ls. line_ok l"
    by (auto simp: list_all_iff instruction_line_ok)
  then have raw: "raw_lines (dockerfile_text is) = ?ls"
    unfolding dockerfile_text_def by (intro raw_lines_concat) (auto simp: line_ok_def)
  from ok have "map dropCR ?ls = ?ls"
    by (intro map_idI) (auto simp: dropCR_def trim_suffix_def line_ok_def)
  moreover from ok have "\<not> list_ex (\<lambda>l. MaxScanTokenSize \<le> length l) ?ls"
    by (auto simp: list_ex_iff line_ok_def)
  ultimately have "scan_lines (dockerfile_text is) = Ok ?ls" by (simp add: scan_lines_def raw)
  moreover have "map (image_of_line buildArgs) ?ls = map (instruction_images buildArgs) is"
    using assms by (auto simp: list_all_iff image_of_instruction)
  ultimately show ?thesis
    by (simp only: ImagesFromReader_def fst_conv snd_conv outcome.case option.case)
qed

definition demo_dockerfile :: "instruction list" where
  "demo_dockerfile =
     [Other ''ARG V=1'', From 0 1 [Lit ''golang:'', VarOr ''V'' ''1.24''] '' AS b'', Other '''',
      From 2 1 [Lit ''alpine:'', Var ''A''] '''']"

theorem ImagesFromReader_images_witness:
  "ImagesFromReader (dockerfile_text demo_dockerfile, None) [''A'' \<mapsto> Some ''3''] = Ok [''golang:1.24'', ''alpine:3'']"
proof -
  have "\<not> has_prefix (to_upper (trim_space ''ARG V=1'')) ''FROM''" "\<not> has_prefix (to_upper (trim_space '''')) ''FROM''"
    "\<not> list_ex is_space ''golang:${V:-1.24}''" "\<not> list_ex is_space ''alpine:${A}''"
    "list_all name_char ''V''" "list_all name_char ''A''"
    by code_simp+
  then have "list_all instruction_ok demo_dockerfile"
    by (simp add: demo_dockerfile_def line_ok_def MaxScanTokenSize_def name_text_def newline_def has_suffix_def)
  from ImagesFromReader_images [OF this, of "[''A'' \<mapsto> Some ''3'']"] show ?thesis
    by (simp add: demo_dockerfile_def name_value_def)
qed

text \<open>
  What the code does not read as Docker does: a lower-case instruction yields its own keyword as the
  image, and a platform flag is taken for the image.
\<close>

lemma lowercase_from: "image_of_line m ''from alpine'' = [''from'']"
proof -
  have "trim_space (trim_prefix (trim_space ''from alpine'') ''FROM'') = ''from alpine''"
    "has_prefix (to_upper (trim_space ''from alpine'')) ''FROM''" by code_simp+
  then show ?thesis by (simp add: image_of_line_def Let_def buildArgPattern_def)
qed

lemma platform_flag: "image_of_line m ''FROM --platform=linux/amd64 alpine'' = [''--platform=linux/amd64'']"
proof -
  have "trim_space (trim_prefix (trim_space ''FROM --platform=linux/amd64 alpine'') ''FROM'') = ''--platform=linux/amd64 alpine''"
    "has_prefix (to_upper (trim_space ''FROM --platform=linux/amd64 alpine'')) ''FROM''" by code_simp+
  then show ?thesis by (simp add: image_of_line_def Let_def buildArgPattern_def)
qed

end
