(* ===== verification/Docker_Image.thy ===== *)
theory Docker_Image
  imports Image_Dockerfile Sdk_Client
begin

text \<open>
  Package \<open>image\<close>: pulling an image with the credentials of its registry (\<open>pull.go\<close>), building one from a
  context (\<open>build.go\<close>, \<open>build.log.go\<close>), removing and saving images, and the options of these calls. The
  packages behind it are parameters in \<open>image_env\<close>: the encoding of credentials, the display of progress
  messages, the parser of JSON messages, the archive of a build context, the retries of package backoff.
\<close>

named_theorems image_defs \<open>the operations of package image\<close>


section \<open>The client and its logger\<close>

datatype log_level = Debug | Info_level | Warn | Error_level

type_synonym 'w logger = "log_level \<Rightarrow> string \<Rightarrow> (string \<times> string) list \<Rightarrow> 'w clocked \<Rightarrow> 'w clocked"

text \<open>What the packages use of an \<open>SDKClient\<close>: the Moby client in it and its logger.\<close>

record 'w sdk =
  sk_engine :: "'w engine"
  sk_log :: "'w logger"

definition discard_logger :: "'w logger" where
  "discard_logger lv msg attrs s = s"

definition sdk_or_default :: "('o, 'w) sdk_env \<Rightarrow> gctx \<Rightarrow> 'w sdk option \<Rightarrow> ('w sdk, 'w) call" where
  "sdk_or_default env ctx cli s =
     (case cli of
        Some c \<Rightarrow> (Ok c, s)
      | None \<Rightarrow> st_do (default_engine env ctx s) (\<lambda>en s'. (Ok \<lparr>sk_engine = en, sk_log = discard_logger\<rparr>, s')))"

lemma sdk_or_default_Some [simp]: "sdk_or_default env ctx (Some c) s = (Ok c, s)"
  by (simp add: sdk_or_default_def)

text \<open>\<open>for _, opt := range opts { if err := opt(o); err != nil { return fmt.Errorf("what: %w", err) } }\<close>\<close>

fun apply_with :: "string \<Rightarrow> ('o \<Rightarrow> 'o outcome) list \<Rightarrow> 'o \<Rightarrow> 'o outcome" where
  "apply_with what [] c = Ok c"
| "apply_with what (opt # opts) c = then_wrap what (opt c) (apply_with what opts)"

lemma apply_with_append:
  "apply_with what (xs @ ys) c = then_do (apply_with what xs c) (apply_with what ys)"
proof (induction xs arbitrary: c)
  case (Cons x xs)
  then show ?case by (cases "x c") simp_all
qed simp

text \<open>The rest of a function after its options: an error or a panic of the options ends it.\<close>

definition after_options :: "'o outcome \<Rightarrow> 'w clocked \<Rightarrow> ('o \<Rightarrow> ('a, 'w) call) \<Rightarrow> 'a outcome \<times> 'w clocked" where
  "after_options r s k = st_do (r, s) k"

lemma after_options_simps [simp]:
  "after_options (Ok x) s k = k x s"
  "after_options (Err e) s k = (Err e, s)"
  "after_options (Panic p) s k = (Panic p, s)"
  by (simp_all add: after_options_def)

lemma after_options_Ok_iff [outcome_simps]:
  "after_options r s k = (Ok y, t) \<longleftrightarrow> (\<exists>x. r = Ok x \<and> k x s = (Ok y, t))"
  by (cases r) simp_all


section \<open>Retries\<close>

text \<open>
  An attempt of an operation that package backoff retries: success, an error marked by
  \<open>backoff.Permanent\<close>, or any other error.
\<close>

datatype 'a attempt = Success 'a | Temporary err | Permanent err | Crash string

type_synonym ('a, 'w) attempts = "'w clocked \<Rightarrow> 'a attempt \<times> 'w clocked"

text \<open>
  What package backoff documents of \<open>RetryNotify\<close> with the default exponential backoff and a context, in milliseconds:
  it gives up when the next wait would end more than 15 minutes after the start, and a wait is drawn at random between
  half of the initial interval and one and a half times the largest one. Time since the start is read off a monotonic clock.
\<close>

definition max_elapsed :: nat where
  "max_elapsed = 900000"

definition shortest_wait :: nat where
  "shortest_wait = 250"

definition longest_wait :: nat where
  "longest_wait = 90000"

text \<open>
  The operation is tried; a success or a permanent error is the result at once. After another error the result is the
  error of the context when that is done, now or during the wait; or this error when it is late; or the caller is
  notified, and the operation is tried again after the wait.
\<close>

inductive retried ::
    "nat \<Rightarrow> gctx \<Rightarrow> ('a, 'w) attempts \<Rightarrow> (err \<Rightarrow> 'w clocked \<Rightarrow> 'w clocked) \<Rightarrow> 'w clocked \<Rightarrow> 'a outcome \<Rightarrow> 'w clocked \<Rightarrow> bool"
  for start ctx try_once notify where
  success: "try_once s = (Success x, s') \<Longrightarrow> retried start ctx try_once notify s (Ok x) s'"
| permanent: "try_once s = (Permanent e, s') \<Longrightarrow> retried start ctx try_once notify s (Err e) s'"
| crash: "try_once s = (Crash p, s') \<Longrightarrow> retried start ctx try_once notify s (Panic p) s'"
| cancelled: "try_once s = (Temporary e, s') \<Longrightarrow> ctx_err ctx (fst s') = Some ce
    \<Longrightarrow> retried start ctx try_once notify s (Err ce) s'"
| late: "try_once s = (Temporary e, s') \<Longrightarrow> start + max_elapsed < max (fst s) (fst s') + longest_wait
    \<Longrightarrow> retried start ctx try_once notify s (Err e) s'"
| cancelled_waiting: "try_once s = (Temporary e, s') \<Longrightarrow> notify e s' = (t, w) \<Longrightarrow> max (fst s) t \<le> t' \<Longrightarrow> ctx_err ctx t' = Some ce
    \<Longrightarrow> retried start ctx try_once notify s (Err ce) (t', w)"
| again: "try_once s = (Temporary e, s') \<Longrightarrow> max (fst s) (fst s') \<le> start + max_elapsed \<Longrightarrow> notify e s' = (t, w)
    \<Longrightarrow> max (fst s) t + shortest_wait \<le> t' \<Longrightarrow> retried start ctx try_once notify (t', w) r s2
    \<Longrightarrow> retried start ctx try_once notify s r s2"

type_synonym ('a, 'w) retry =
  "gctx \<Rightarrow> ('a, 'w) attempts \<Rightarrow> (err \<Rightarrow> 'w clocked \<Rightarrow> 'w clocked) \<Rightarrow> ('a, 'w) call"

definition retries :: "('a, 'w) retry \<Rightarrow> bool" where
  "retries retry \<longleftrightarrow> (\<forall>ctx f notify s r s'. retry ctx f notify s = (r, s') \<longrightarrow> retried (fst s) ctx f notify s r s')"

text \<open>The worlds in which an attempt starts, and how the last of them decides.\<close>

inductive tried :: "('a, 'w) attempts \<Rightarrow> (err \<Rightarrow> 'w clocked \<Rightarrow> 'w clocked) \<Rightarrow> 'w clocked \<Rightarrow> 'w clocked \<Rightarrow> bool"
  for try_once notify s0 where
  tried_first: "tried try_once notify s0 s0"
| tried_again: "tried try_once notify s0 s \<Longrightarrow> try_once s = (Temporary e, s') \<Longrightarrow> notify e s' = (t, w)
    \<Longrightarrow> max (fst s) t + shortest_wait \<le> t' \<Longrightarrow> tried try_once notify s0 (t', w)"

definition decided :: "nat \<Rightarrow> gctx \<Rightarrow> ('a, 'w) attempts \<Rightarrow> 'w clocked \<Rightarrow> 'a outcome \<Rightarrow> 'w clocked \<Rightarrow> bool" where
  "decided start ctx try_once u r s' \<longleftrightarrow>
     (case try_once u of
        (Success x, u') \<Rightarrow> r = Ok x \<and> s' = u'
      | (Permanent e, u') \<Rightarrow> r = Err e \<and> s' = u'
      | (Crash p, u') \<Rightarrow> r = Panic p \<and> s' = u'
      | (Temporary e, u') \<Rightarrow>
          (\<exists>ce. r = Err ce \<and> ctx_err ctx (fst s') = Some ce)
          \<or> (r = Err e \<and> s' = u' \<and> start + max_elapsed < max (fst u) (fst u') + longest_wait))"

lemma retried_decided:
  "retried start ctx f notify s r s' \<Longrightarrow> tried f notify s0 s \<Longrightarrow> \<exists>u. tried f notify s0 u \<and> decided start ctx f u r s'"
proof (induction rule: retried.induct)
  case (again s e s' t w t' r s2)
  from again.IH tried_again [OF again.prems again.hyps(1,3,4)] show ?case by simp
qed (rule exI, rule conjI, assumption, simp add: decided_def)+

lemma retries_decided:
  assumes "retries retry" and "retry ctx f notify s = (r, s')"
  obtains u where "tried f notify s u" and "decided (fst s) ctx f u r s'"
  using assms retried_decided [OF _ tried_first, of "fst s" ctx f notify s r s'] unfolding retries_def by blast

lemma retries_Ok:
  "retries retry \<Longrightarrow> retry ctx f notify s = (Ok x, s') \<Longrightarrow> \<exists>s1. f s1 = (Success x, s')"
  by (erule retries_decided) (auto simp: decided_def split: prod.splits attempt.splits)

text \<open>One of the ways to retry that package backoff allows: every \<open>d\<close> milliseconds, at most \<open>n\<close> times.\<close>

fun retry_from :: "nat \<Rightarrow> nat \<Rightarrow> nat \<Rightarrow> ('a, 'w) retry" where
  "retry_from n d start ctx f notify s =
     (case f s of
        (Success x, s') \<Rightarrow> (Ok x, s')
      | (Permanent e, s') \<Rightarrow> (Err e, s')
      | (Crash p, s') \<Rightarrow> (Panic p, s')
      | (Temporary e, s') \<Rightarrow>
          (case ctx_err ctx (fst s') of
             Some ce \<Rightarrow> (Err ce, s')
           | None \<Rightarrow>
               (if start + max_elapsed < max (fst s) (fst s') + d then (Err e, s')
                else case n of
                  0 \<Rightarrow> (Err e, s')
                | Suc k \<Rightarrow>
                    (let (t, w) = notify e s' in
                     case select_after ctx d (max (fst s) t) of
                       (Some ce, t') \<Rightarrow> (Err ce, (t', w))
                     | (None, t') \<Rightarrow> retry_from k d start ctx f notify (t', w)))))"

declare retry_from.simps [simp del]

lemma retry_from_ends:
  "f s = (Success x, s') \<Longrightarrow> retry_from n d start ctx f notify s = (Ok x, s')"
  "f s = (Permanent e, s') \<Longrightarrow> retry_from n d start ctx f notify s = (Err e, s')"
  "f s = (Crash p, s') \<Longrightarrow> retry_from n d start ctx f notify s = (Panic p, s')"
  by (simp_all add: retry_from.simps [of n])

lemma retry_from_again:
  "f s = (Temporary e, s') \<Longrightarrow> ctx_err ctx (fst s') = None \<Longrightarrow> \<not> start + max_elapsed < max (fst s) (fst s') + d
     \<Longrightarrow> notify e s' = (t, w) \<Longrightarrow> select_after ctx d (max (fst s) t) = (None, t')
     \<Longrightarrow> retry_from (Suc k) d start ctx f notify s = retry_from k d start ctx f notify (t', w)"
  by (simp add: retry_from.simps [of "Suc k"])

definition retry_n :: "nat \<Rightarrow> nat \<Rightarrow> ('a, 'w) retry" where
  "retry_n n d ctx f notify s = retry_from n d (fst s) ctx f notify s"

text \<open>It has tries enough when these take the fifteen minutes.\<close>

lemma retry_from_retried:
  assumes "shortest_wait \<le> d" and "d \<le> longest_wait"
  shows "retry_from n d start ctx f notify s = (r, s') \<Longrightarrow> start + max_elapsed < fst s + n * d + longest_wait
     \<Longrightarrow> retried start ctx f notify s r s'"
proof (induction n arbitrary: s)
  case 0
  obtain a s1 where f: "f s = (a, s1)" by (cases "f s")
  show ?case
  proof (cases a)
    case (Temporary e)
    show ?thesis
    proof (cases "ctx_err ctx (fst s1)")
      case None
      with "0.prems"(1) f Temporary have "r = Err e" "s' = s1" by (simp_all add: retry_from.simps [of 0] split: if_splits)
      with 0 f Temporary show ?thesis by (auto intro: retried.late)
    next
      case (Some ce)
      with "0.prems"(1) f Temporary have "r = Err ce" "s' = s1" by (simp_all add: retry_from.simps [of 0])
      with f Temporary Some show ?thesis by (auto intro: retried.cancelled)
    qed
  qed (use "0.prems"(1) f in \<open>auto simp: retry_from_ends intro: retried.intros\<close>)
next
  case (Suc k)
  obtain a s1 where f: "f s = (a, s1)" by (cases "f s")
  show ?case
  proof (cases a)
    case (Temporary e)
    note f = f [unfolded Temporary]
    obtain t w where n: "notify e s1 = (t, w)" by (cases "notify e s1")
    obtain ce t' where sel: "select_after ctx d (max (fst s) t) = (ce, t')" by (cases "select_after ctx d (max (fst s) t)")
    show ?thesis
    proof (cases "ctx_err ctx (fst s1)")
      case None
      show ?thesis
      proof (cases "start + max_elapsed < max (fst s) (fst s1) + d")
        case True
        with Suc.prems f None have "r = Err e" "s' = s1" by (simp_all add: retry_from.simps [of "Suc k"])
        with retried.late [of f s e s1 start ctx notify] f True assms(2) show ?thesis by simp
      next
        case False
        then have early: "max (fst s) (fst s1) \<le> start + max_elapsed" by linarith
        show ?thesis
        proof (cases ce)
          case (Some c)
          with False Suc.prems f None n sel have "r = Err c" "s' = (t', w)" by (simp_all add: retry_from.simps [of "Suc k"])
          with retried.cancelled_waiting [of f s e s1 notify t w t' ctx c, OF f n] select_after_Some [of ctx d "max (fst s) t" c t'] sel Some show ?thesis by simp
        next
          case None': None
          with select_after_None sel have t': "t' = max (fst s) t + d" by blast
          from None' False Suc.prems f None n sel have "retry_from k d start ctx f notify (t', w) = (r, s')"
            by (simp add: retry_from.simps [of "Suc k"])
          from Suc.IH [OF this] Suc.prems(2) t' have "retried start ctx f notify (t', w) r s'" by simp
          from retried.again [of f s e s1 start notify t w t', OF f early n _ this] t' assms(1) show ?thesis by simp
        qed
      qed
    next
      case (Some c)
      with Suc.prems f have "r = Err c" "s' = s1" by (simp_all add: retry_from.simps [of "Suc k"])
      with retried.cancelled [of f s e s1 ctx c, OF f] Some show ?thesis by simp
    qed
  qed (use Suc.prems f in \<open>auto simp: retry_from_ends intro: retried.intros\<close>)
qed

lemma retries_retry_n: "shortest_wait \<le> d \<Longrightarrow> d \<le> longest_wait \<Longrightarrow> max_elapsed < n * d + longest_wait \<Longrightarrow> retries (retry_n n d)"
  by (auto simp: retries_def retry_n_def intro: retry_from_retried)

text \<open>The one of the witnesses: every 90 seconds.\<close>

definition patient :: "('a, 'w) retry" where
  "patient = retry_n 10 90000"

lemma retries_patient: "retries patient"
  unfolding patient_def by (rule retries_retry_n) (simp_all add: shortest_wait_def longest_wait_def max_elapsed_def)


section \<open>The environment\<close>

record json_message =
  jm_Error :: "string option"
  jm_Stream :: string
  jm_Status :: string
  jm_ID :: string
  jm_Progress :: string

type_synonym 'w writer = "string \<Rightarrow> (unit, 'w) call"

record ('o, 'w) image_env =
  ie_sdk :: "('o, 'w) sdk_env"
  ie_encode :: "auth_config \<Rightarrow> string outcome"
  ie_display :: "'w writer \<Rightarrow> stream \<Rightarrow> (unit, 'w) call"
  ie_stdout :: "'w writer"
  ie_unmarshal :: "string \<Rightarrow> json_message option"
  ie_range :: "auth_config smap \<Rightarrow> string list"
  ie_retry :: "(stream, 'w) retry"
  ie_abs :: "string \<Rightarrow> string outcome"
  ie_ignore :: "stream \<Rightarrow> string list \<times> err option"
  ie_tar :: "string \<Rightarrow> string list \<Rightarrow> string list \<Rightarrow> string outcome"
  ie_close :: "string \<Rightarrow> 'w clocked \<Rightarrow> 'w clocked"

definition image_version :: string where
  "image_version = ''0.1.0-alpha015''"

definition image_moduleLabel :: string where
  "image_moduleLabel = LabelBase @ ''.image''"


section \<open>Pulling\<close>

type_synonym 'w pull_handler = "stream \<Rightarrow> (unit, 'w) call"
type_synonym 'w credentials_fn = "string \<Rightarrow> (string \<times> string, 'w) call"

record 'w pull_options =
  pu_client :: "'w sdk option"
  pu_options :: image_pull
  pu_handler :: "'w pull_handler"
  pu_credentials :: "'w credentials_fn option"

type_synonym 'w pull_option = "'w pull_options \<Rightarrow> 'w pull_options outcome"

definition DisplayProgress :: "('o, 'w) image_env \<Rightarrow> 'w writer \<Rightarrow> 'w pull_handler" where
  "DisplayProgress env out r s = ie_display env out r s"

definition WithCredentialsFn :: "'w credentials_fn option \<Rightarrow> 'w pull_option" where
  "WithCredentialsFn f opts = Ok (opts\<lparr>pu_credentials := f\<rparr>)"

definition WithPullClient :: "'w sdk option \<Rightarrow> 'w pull_option" where
  "WithPullClient c opts = Ok (opts\<lparr>pu_client := c\<rparr>)"

definition WithPullOptions :: "image_pull \<Rightarrow> 'w pull_option" where
  "WithPullOptions o' opts = Ok (opts\<lparr>pu_options := o'\<rparr>)"

definition WithPullHandler :: "'w pull_handler option \<Rightarrow> 'w pull_option" where
  "WithPullHandler h opts =
     (case h of None \<Rightarrow> Err (Msg ''pull handler is nil'') | Some f \<Rightarrow> Ok (opts\<lparr>pu_handler := f\<rparr>))"

text \<open>
  The credentials of the configuration. \<open>ie_range\<close> is the order in which Go walks a map, and its length
  the number of entries.
\<close>

definition credentials_from_config :: "('o, 'w) image_env \<Rightarrow> 'w credentials_fn" where
  "credentials_from_config env imageName s =
     (case fst (AuthConfigs (se_platform (ie_sdk env)) (se_disk (ie_sdk env)) [imageName] ()) of
        Err e \<Rightarrow> (Err e, s)
      | Panic p \<Rightarrow> (Panic p, s)
      | Ok authConfigs \<Rightarrow>
          (let keys = ie_range env authConfigs in
           if length keys > 1 then
             (Err (Msg (''multiple auth configs found for image '' @ imageName @ '', expected only one'')), s)
           else case keys of
             [] \<Rightarrow> (Ok ('''', ''''), s)
           | k # ks \<Rightarrow>
               (case authConfigs k of
                  Some ac \<Rightarrow> (Ok (ac_Username ac, ac_Password ac), s)
                | None \<Rightarrow> (Ok ('''', ''''), s))))"

definition WithCredentialsFromConfig :: "('o, 'w) image_env \<Rightarrow> 'w pull_option" where
  "WithCredentialsFromConfig env opts = Ok (opts\<lparr>pu_credentials := Some (credentials_from_config env)\<rparr>)"

definition pull_auth_config :: "string \<Rightarrow> string \<Rightarrow> image_reference \<Rightarrow> auth_config" where
  "pull_auth_config username password imgRef =
     (if username = ''<token>''
      then empty_auth\<lparr>ac_IdentityToken := password, ac_ServerAddress := ir_Registry imgRef\<rparr>
      else empty_auth\<lparr>ac_Username := username, ac_Password := password, ac_ServerAddress := ir_Registry imgRef\<rparr>)"

text \<open>One call of \<open>ImagePull\<close>, as the retry package sees it.\<close>

definition pull_once :: "gctx \<Rightarrow> 'w sdk \<Rightarrow> string \<Rightarrow> image_pull \<Rightarrow> (stream, 'w) attempts" where
  "pull_once ctx cli imageName po s =
     (case en_ImagePull (sk_engine cli) ctx imageName po s of
        (Ok r, s') \<Rightarrow> (Success r, s')
      | (Err e, s') \<Rightarrow> (if IsPermanentClientError e then Permanent e else Temporary e, s')
      | (Panic p, s') \<Rightarrow> (Crash p, s'))"

text \<open>
  The parsed image reference and the encoded credentials; a failure of either is logged, and the empty
  value is used.
\<close>

definition or_warn :: "'w sdk \<Rightarrow> string \<Rightarrow> string \<Rightarrow> 'a \<Rightarrow> 'a outcome \<Rightarrow> ('a, 'w) call" where
  "or_warn cli what img zero r s =
     (case r of
        Err e \<Rightarrow> (Ok zero, sk_log cli Warn what [(''image'', img), (''error'', err_text e)] s)
      | _ \<Rightarrow> (r, s))"

definition Pull :: "('o, 'w) image_env \<Rightarrow> gctx \<Rightarrow> string \<Rightarrow> 'w pull_option list \<Rightarrow> (unit, 'w) call" where
  "Pull env ctx imageName opts s =
     after_options (apply_with ''apply pull option'' opts
         \<lparr>pu_client = None, pu_options = \<lparr>ip_RegistryAuth = '''', ip_Platforms = []\<rparr>,
          pu_handler = DisplayProgress env (ie_stdout env), pu_credentials = None\<rparr>) s (\<lambda>o1 s.
     st_do (sdk_or_default (ie_sdk env) ctx (pu_client o1) s) (\<lambda>cli s.
     let credentials = (case pu_credentials o1 of Some f \<Rightarrow> f | None \<Rightarrow> credentials_from_config env) in
     if imageName = '''' then (Err (Msg ''image name is not set''), s)
     else
     st_wrap (''failed to retrieve registry credentials for '' @ imageName) (credentials imageName s)
       (\<lambda>(username, password) s.
     st_do (or_warn cli ''failed to parse image reference, ServerAddress will be empty'' imageName empty_ref
              (ParseImageRef (pf_parse_ref (se_platform (ie_sdk env))) imageName) s) (\<lambda>imgRef s.
     st_do (or_warn cli ''failed to encode image auth, setting empty credentials for the image'' imageName ''''
              (ie_encode env (pull_auth_config username password imgRef)) s) (\<lambda>registryAuth s.
     st_do (ie_retry env ctx (pull_once ctx cli imageName ((pu_options o1)\<lparr>ip_RegistryAuth := registryAuth\<rparr>))
              (\<lambda>e. sk_log cli Warn ''failed to pull image, will retry'' [(''error'', err_text e)]) s) (\<lambda>pull s.
     st_wrap ''pull handler'' (pu_handler o1 pull s) (\<lambda>_ s. (Ok (), s))))))))"


section \<open>Building\<close>

text \<open>
  A reader that the caller passes is named by a string: what it holds is in the outside world, where the
  daemon reads it. \<open>ie_close\<close> closes it, if it can be closed.
\<close>

record 'w build_options =
  bd_client :: "'w sdk option"
  bd_opts :: image_build

type_synonym 'w build_option = "'w build_options \<Rightarrow> 'w build_options outcome"

definition WithBuildClient :: "'w sdk option \<Rightarrow> 'w build_option" where
  "WithBuildClient c opts = Ok (opts\<lparr>bd_client := c\<rparr>)"

definition WithBuildOptions :: "image_build \<Rightarrow> 'w build_option" where
  "WithBuildOptions o' opts = Ok (opts\<lparr>bd_opts := o'\<rparr>)"

definition ArchiveBuildContext :: "('o, 'w) image_env \<Rightarrow> string \<Rightarrow> string \<Rightarrow> string outcome" where
  "ArchiveBuildContext env dir dockerfile =
     then_wrap ''absolute path'' (ie_abs env dir) (\<lambda>abs.
     then_wrap ''parse docker ignore'' (ParseDockerIgnore (ie_ignore env) (se_disk (ie_sdk env)) abs)
       (\<lambda>(dockerIgnoreExists, excluded).
     let includes = [''.'', dockerfile] @ (if dockerIgnoreExists then [''.dockerignore''] else []) in
     then_wrap ''tar with options'' (ie_tar env abs excluded includes) Ok))"

definition loggerWriter_Write :: "('o, 'w) image_env \<Rightarrow> 'w logger \<Rightarrow> 'w writer" where
  "loggerWriter_Write env lw p s =
     (Ok (),
      case ie_unmarshal env p of
        Some msg \<Rightarrow>
          (case jm_Error msg of
             Some e \<Rightarrow> lw Error_level ''Build error'' [(''error'', e)] s
           | None \<Rightarrow>
               (if jm_Stream msg \<noteq> '''' then lw Info_level (trim_suffix (jm_Stream msg) [newline]) [] s
                else if jm_Status msg \<noteq> '''' then
                  lw Info_level (jm_Status msg) [(''id'', jm_ID msg), (''progress'', jm_Progress msg)] s
                else s))
      | None \<Rightarrow>
          (let text = trim_suffix p [newline] in if text \<noteq> '''' then lw Info_level text [] s else s))"

definition build_once :: "string \<Rightarrow> gctx \<Rightarrow> 'w sdk \<Rightarrow> string \<Rightarrow> image_build \<Rightarrow> (stream, 'w) attempts" where
  "build_once version ctx cli contextReader bo s =
     (case ImageBuild version (sk_engine cli) ctx contextReader bo s of
        (Ok r, s') \<Rightarrow> (Success r, s')
      | (Err e, s') \<Rightarrow> (if IsPermanentClientError e then Permanent (wrapf ''build image'' e) else Temporary e, s')
      | (Panic p, s') \<Rightarrow> (Crash p, s'))"

definition build_labels :: "string smap option \<Rightarrow> string smap" where
  "build_labels labels = (nilmap_read labels)(image_moduleLabel \<mapsto> image_version)"

text \<open>The build options with the passed tag in front and the label of the module.\<close>

definition build_tags :: "image_build \<Rightarrow> string list" where
  "build_tags bo = (if ib_Tags bo = [] then [''''] else ib_Tags bo)"

definition build_request :: "string \<Rightarrow> image_build \<Rightarrow> image_build" where
  "build_request tag bo =
     bo\<lparr>ib_Tags := tag # tl (build_tags bo), ib_Labels := Some (build_labels (ib_Labels bo))\<rparr>"

text \<open>\<open>defer tryClose(contextReader)\<close>\<close>

definition closing :: "('o, 'w) image_env \<Rightarrow> string \<Rightarrow> 'a outcome \<times> 'w clocked \<Rightarrow> 'a outcome \<times> 'w clocked" where
  "closing env rd c = (fst c, ie_close env rd (snd c))"

definition Build ::
    "('o, 'w) image_env \<Rightarrow> gctx \<Rightarrow> string option \<Rightarrow> string \<Rightarrow> 'w build_option list \<Rightarrow> (string, 'w) call" where
  "Build env ctx contextReader tag opts s =
     (case contextReader of
        None \<Rightarrow> (Err (Msg ''context reader is required''), s)
      | Some rd \<Rightarrow>
          after_options (apply_with ''apply build option'' opts
              \<lparr>bd_client = None, bd_opts = \<lparr>ib_Dockerfile = ''Dockerfile'', ib_Tags = [], ib_Labels = None,
                                          ib_BuildArgs = Map.empty\<rparr>\<rparr>) s (\<lambda>o1 s.
          if tag = '''' \<and> hd (build_tags (bd_opts o1)) = '''' then (Err (Msg ''tag cannot be empty''), s)
          else
          let bo = build_request tag (bd_opts o1) in
          st_do (sdk_or_default (ie_sdk env) ctx (bd_client o1) s) (\<lambda>cli s.
          closing env rd (
            st_do (ie_retry env ctx (build_once (se_version (ie_sdk env)) ctx cli rd bo)
                     (\<lambda>e. sk_log cli Warn ''Failed to build image, will retry'' [(''error'', err_text e)]) s) (\<lambda>resp s.
            st_wrap ''build image'' (ie_display env (loggerWriter_Write env (sk_log cli)) resp s)
              (\<lambda>_ s. (Ok (hd (ib_Tags bo)), s)))))))"

definition BuildFromDir ::
    "('o, 'w) image_env \<Rightarrow> gctx \<Rightarrow> string \<Rightarrow> string \<Rightarrow> string \<Rightarrow> 'w build_option list \<Rightarrow> (string, 'w) call" where
  "BuildFromDir env ctx dir dockerfile tag opts s =
     st_wrap ''archive build context'' (ArchiveBuildContext env dir dockerfile, s) (\<lambda>contextArchive s.
       Build env ctx (Some contextArchive) tag
         (opts @ [WithBuildOptions \<lparr>ib_Dockerfile = dockerfile, ib_Tags = [], ib_Labels = None,
                                   ib_BuildArgs = Map.empty\<rparr>]) s)"


section \<open>Removing and saving\<close>

record 'w remove_options =
  rv_client :: "'w sdk option"
  rv_options :: image_remove

type_synonym 'w remove_option = "'w remove_options \<Rightarrow> 'w remove_options outcome"

definition WithRemoveClient :: "'w sdk option \<Rightarrow> 'w remove_option" where
  "WithRemoveClient c opts = Ok (opts\<lparr>rv_client := c\<rparr>)"

definition WithRemoveOptions :: "image_remove \<Rightarrow> 'w remove_option" where
  "WithRemoveOptions o' opts = Ok (opts\<lparr>rv_options := o'\<rparr>)"

definition Remove ::
    "('o, 'w) image_env \<Rightarrow> gctx \<Rightarrow> string \<Rightarrow> 'w remove_option list \<Rightarrow> (string list, 'w) call" where
  "Remove env ctx img opts s =
     after_options (apply_with ''apply remove option'' opts
         \<lparr>rv_client = None, rv_options = \<lparr>ir_Force = False, ir_PruneChildren = False\<rparr>\<rparr>) s (\<lambda>o1 s.
     if img = '''' then (Err (Msg ''image is required''), s)
     else
     st_do (sdk_or_default (ie_sdk env) ctx (rv_client o1) s) (\<lambda>cli s.
     st_wrap ''remove image'' (en_ImageRemove (sk_engine cli) ctx img (rv_options o1) s) (\<lambda>r s. (Ok r, s))))"

record 'w save_options =
  so_client :: "'w sdk option"
  so_platforms :: "image_platform list"

type_synonym 'w save_option = "'w save_options \<Rightarrow> 'w save_options outcome"

definition WithSaveClient :: "'w sdk option \<Rightarrow> 'w save_option" where
  "WithSaveClient c opts = Ok (opts\<lparr>so_client := c\<rparr>)"

definition WithPlatforms :: "image_platform list \<Rightarrow> 'w save_option" where
  "WithPlatforms ps opts = Ok (opts\<lparr>so_platforms := ps\<rparr>)"

text \<open>
  The file is written on the disk that is part of the state. It is created, and emptied, before the
  daemon is asked, and keeps what was read when reading fails.
\<close>

definition Save ::
    "('o, 'w) image_env \<Rightarrow> gctx \<Rightarrow> string \<Rightarrow> string \<Rightarrow> 'w save_option list
       \<Rightarrow> 'w clocked \<times> node \<Rightarrow> unit outcome \<times> 'w clocked \<times> node" where
  "Save env ctx output img opts sd =
     (case sd of (s0, disk) \<Rightarrow>
      case after_options (apply_with ''apply save option'' opts \<lparr>so_client = None, so_platforms = []\<rparr>) s0 (\<lambda>o1 s.
             if output = '''' then (Err (Msg ''output is not set''), s)
             else if img = '''' then (Err (Msg ''image cannot be empty''), s)
             else st_do (sdk_or_default (ie_sdk env) ctx (so_client o1) s) (\<lambda>cli s. (Ok (o1, cli), s))) of
        (Err e, s) \<Rightarrow> (Err e, s, disk)
      | (Panic p, s) \<Rightarrow> (Panic p, s, disk)
      | (Ok (o1, cli), s) \<Rightarrow>
          (case write_file disk (path_of output) '''' of
             Inl e \<Rightarrow> (Err (Wrap ''open output file '' (os_error e) ''''), s, disk)
           | Inr disk1 \<Rightarrow>
               (case en_ImageSave (sk_engine cli) ctx img (so_platforms o1) s of
                  (Err e, s) \<Rightarrow> (Err (Wrap ''save images '' e ''''), s, disk1)
                | (Panic p, s) \<Rightarrow> (Panic p, s, disk1)
                | (Ok (content, bad), s) \<Rightarrow>
                    (case write_file disk1 (path_of output) content of
                       Inl e \<Rightarrow> (Err (Wrap ''write images to output '' (os_error e) ''''), s, disk1)
                     | Inr disk2 \<Rightarrow>
                         (case bad of
                            Some e \<Rightarrow> (Err (Wrap ''write images to output '' e ''''), s, disk2)
                          | None \<Rightarrow> (Ok (), s, disk2))))))"



section \<open>What the daemon is asked\<close>

lemma or_warn_Ok [simp]: "or_warn cli what img zero (Ok x) s = (Ok x, s)"
  by (simp add: or_warn_def)

lemma pull_once_Success [simp]:
  "pull_once ctx cli img po s = (Success x, s') \<longleftrightarrow> en_ImagePull (sk_engine cli) ctx img po s = (Ok x, s')"
  by (auto simp: pull_once_def split: prod.split outcome.split)

lemma build_once_Success [simp]:
  "build_once v ctx cli rd bo s = (Success x, s') \<longleftrightarrow> ImageBuild v (sk_engine cli) ctx rd bo s = (Ok x, s')"
  by (auto simp: build_once_def split: prod.split outcome.split)

definition initial_pull_options :: "('o, 'w) image_env \<Rightarrow> 'w pull_options" where
  "initial_pull_options env =
     \<lparr>pu_client = None, pu_options = \<lparr>ip_RegistryAuth = '''', ip_Platforms = []\<rparr>,
      pu_handler = DisplayProgress env (ie_stdout env), pu_credentials = None\<rparr>"

definition initial_build_options :: "'w build_options" where
  "initial_build_options =
     \<lparr>bd_client = None, bd_opts = \<lparr>ib_Dockerfile = ''Dockerfile'', ib_Tags = [], ib_Labels = None, ib_BuildArgs = Map.empty\<rparr>\<rparr>"

text \<open>
  The worlds in which a pull asks the daemon: the first, and after every answer with an error that is not permanent,
  once that was logged and a wait is over, the next one.
\<close>

inductive asked_again ::
    "('a, 'w) call \<Rightarrow> (err \<Rightarrow> 'w clocked \<Rightarrow> 'w clocked) \<Rightarrow> 'w clocked \<Rightarrow> 'w clocked \<Rightarrow> bool" for ask warn s0 where
  asked_first: "asked_again ask warn s0 s0"
| asked_next: "asked_again ask warn s0 s \<Longrightarrow> ask s = (Err e, s') \<Longrightarrow> \<not> IsPermanentClientError e
    \<Longrightarrow> warn e s' = (t, w) \<Longrightarrow> max (fst s) t + shortest_wait \<le> t' \<Longrightarrow> asked_again ask warn s0 (t', w)"

lemma tried_asked:
  "tried (pull_once ctx cli imageName po) warn s0 s \<Longrightarrow> asked_again (en_ImagePull (sk_engine cli) ctx imageName po) warn s0 s"
proof (induction rule: tried.induct)
  case (tried_again s e s' t w t')
  from tried_again.hyps(2) have "en_ImagePull (sk_engine cli) ctx imageName po s = (Err e, s')" "\<not> IsPermanentClientError e"
    by (auto simp: pull_once_def split: prod.splits outcome.splits if_splits)
  with tried_again show ?case by (blast intro: asked_next)
qed (rule asked_first)

text \<open>
  C24: how an image is pulled, given a client and credentials and a retry package that keeps its documentation: the
  daemon is asked with the encoded credentials for exactly this image, and again after every error that is not
  permanent, once the error was logged and a wait is over. The last answer decides: when it is an image, the handler
  gets it, whose error is the error of \<open>Pull\<close>; when it is a permanent error, \<open>Pull\<close> returns it as it is; and after
  any other error \<open>Pull\<close> only gives up with the error of the context, when that is done, or with this last error, and
  then no less than 15 minutes without the longest wait (of 90 seconds) after the start.
\<close>

theorem Pull_outcome:
  assumes opts: "apply_with ''apply pull option'' opts (initial_pull_options env) = Ok o1"
    and cli: "pu_client o1 = Some cli" and cred: "pu_credentials o1 = Some f"
    and f: "f imageName s = (Ok (user, pw), s1)" and name: "imageName \<noteq> ''''"
    and ref: "ParseImageRef (pf_parse_ref (se_platform (ie_sdk env))) imageName = Ok ref"
    and auth: "ie_encode env (pull_auth_config user pw ref) = Ok a"
    and law: "retries (ie_retry env)"
    and ask: "ask = en_ImagePull (sk_engine cli) ctx imageName ((pu_options o1)\<lparr>ip_RegistryAuth := a\<rparr>)"
  shows "\<exists>u. asked_again ask (\<lambda>e. sk_log cli Warn ''failed to pull image, will retry'' [(''error'', err_text e)]) s1 u
     \<and> (case ask u of
          (Ok r, u') \<Rightarrow> Pull env ctx imageName opts s = st_wrap ''pull handler'' (pu_handler o1 r u') (\<lambda>_ s. (Ok (), s))
        | (Panic p, u') \<Rightarrow> Pull env ctx imageName opts s = (Panic p, u')
        | (Err e, u') \<Rightarrow>
            if IsPermanentClientError e then Pull env ctx imageName opts s = (Err e, u')
            else (\<exists>ce s'. Pull env ctx imageName opts s = (Err ce, s') \<and> ctx_err ctx (fst s') = Some ce)
               \<or> (Pull env ctx imageName opts s = (Err e, u')
                  \<and> fst s1 + max_elapsed < max (fst u) (fst u') + longest_wait))"
proof -
  let ?once = "pull_once ctx cli imageName ((pu_options o1)\<lparr>ip_RegistryAuth := a\<rparr>)"
  let ?notify = "\<lambda>e. sk_log cli Warn ''failed to pull image, will retry'' [(''error'', err_text e)]"
  have pull: "Pull env ctx imageName opts s =
      st_do (ie_retry env ctx ?once ?notify s1)
        (\<lambda>pull s. st_wrap ''pull handler'' (pu_handler o1 pull s) (\<lambda>_ s. (Ok (), s)))"
    using opts cli cred f name ref auth by (simp add: Pull_def initial_pull_options_def Let_def)
  obtain r s2 where r: "ie_retry env ctx ?once ?notify s1 = (r, s2)" by (cases "ie_retry env ctx ?once ?notify s1")
  with law obtain u where u: "tried ?once ?notify s1 u" "decided (fst s1) ctx ?once u r s2" by (rule retries_decided)
  obtain q u' where q: "ask u = (q, u')" by (cases "ask u")
  have ended: "Pull env ctx imageName opts s = (r', s2)" if "r = Err e \<and> r' = Err e \<or> r = Panic p \<and> r' = Panic p" for e p r'
    using that by (auto simp: pull r)
  show ?thesis
  proof (intro exI [of _ u] conjI)
    show "asked_again ask ?notify s1 u" using tried_asked [OF u(1)] by (simp add: ask)
    show "case ask u of
          (Ok r, u') \<Rightarrow> Pull env ctx imageName opts s = st_wrap ''pull handler'' (pu_handler o1 r u') (\<lambda>_ s. (Ok (), s))
        | (Panic p, u') \<Rightarrow> Pull env ctx imageName opts s = (Panic p, u')
        | (Err e, u') \<Rightarrow>
            if IsPermanentClientError e then Pull env ctx imageName opts s = (Err e, u')
            else (\<exists>ce s'. Pull env ctx imageName opts s = (Err ce, s') \<and> ctx_err ctx (fst s') = Some ce)
               \<or> (Pull env ctx imageName opts s = (Err e, u')
                  \<and> fst s1 + max_elapsed < max (fst u) (fst u') + longest_wait)"
    proof (cases q)
      case (Ok x)
      with u(2) q have "r = Ok x" "s2 = u'" by (simp_all add: decided_def pull_once_def ask)
      with q Ok r show ?thesis by (simp add: pull)
    next
      case (Panic p)
      with u(2) q have "r = Panic p" "s2 = u'" by (simp_all add: decided_def pull_once_def ask)
      with q Panic ended show ?thesis by simp
    next
      case (Err e)
      show ?thesis
      proof (cases "IsPermanentClientError e")
        case True
        with u(2) q Err have "r = Err e" "s2 = u'" by (simp_all add: decided_def pull_once_def ask)
        with q Err True ended show ?thesis by simp
      next
        case False
        with u(2) q Err have "(\<exists>ce. r = Err ce \<and> ctx_err ctx (fst s2) = Some ce)
            \<or> (r = Err e \<and> s2 = u' \<and> fst s1 + max_elapsed < max (fst u) (fst u') + longest_wait)"
          by (simp add: decided_def pull_once_def ask)
        with ended have "(\<exists>ce s'. Pull env ctx imageName opts s = (Err ce, s') \<and> ctx_err ctx (fst s') = Some ce)
               \<or> (Pull env ctx imageName opts s = (Err e, u') \<and> fst s1 + max_elapsed < max (fst u) (fst u') + longest_wait)"
          by blast
        with q Err False show ?thesis by (simp del: split_paired_Ex)
      qed
    qed
  qed
qed

definition demo_sdk :: "unit sdk" where
  "demo_sdk = \<lparr>sk_engine = demo_engine, sk_log = discard_logger\<rparr>"

definition demo_image_env :: "(nat, unit) image_env" where
  "demo_image_env = \<lparr>ie_sdk = demo_sdk_env, ie_encode = (\<lambda>a. Ok (ac_Username a @ '':'' @ ac_Password a)),
     ie_display = (\<lambda>_ _ s. (Ok (), s)), ie_stdout = (\<lambda>_ s. (Ok (), s)), ie_unmarshal = (\<lambda>_. None),
     ie_range = (\<lambda>_. []), ie_retry = patient, ie_abs = Ok, ie_ignore = (\<lambda>_. ([], None)),
     ie_tar = (\<lambda>_ _ _. Ok ''tar''), ie_close = (\<lambda>_ s. s)\<rparr>"

definition demo_build :: image_build where
  "demo_build = \<lparr>ib_Dockerfile = ''Dockerfile'', ib_Tags = [''a'', ''b''], ib_Labels = None, ib_BuildArgs = Map.empty\<rparr>"

definition refused :: err where
  "refused = Class ErrUnauthorized ''unauthorized''"

text \<open>A registry that is not there in the first second.\<close>

definition busy_sdk :: "unit sdk" where
  "busy_sdk = demo_sdk\<lparr>sk_engine := demo_engine\<lparr>en_ImagePull := (\<lambda>_ _ _ s.
     (if fst s < 1000 then Err (Msg ''registry timeout'') else Ok ('''', None), s))\<rparr>\<rparr>"

theorem Pull_outcome_witness:
  "\<exists>u. asked_again (en_ImagePull (sk_engine busy_sdk) Background ''alpine'' \<lparr>ip_RegistryAuth = ''u:p'', ip_Platforms = []\<rparr>)
        (\<lambda>e. sk_log busy_sdk Warn ''failed to pull image, will retry'' [(''error'', err_text e)]) (0, ()) u
     \<and> 1000 \<le> fst u
     \<and> Pull demo_image_env Background ''alpine''
         [WithPullClient (Some busy_sdk), WithCredentialsFn (Some (\<lambda>_ s. (Ok (''u'', ''p''), s)))] (0, ()) = (Ok (), (90000, ()))"
proof -
  let ?f = "\<lambda>_ s :: unit clocked. (Ok (''u'', ''p''), s)"
  let ?o1 = "(initial_pull_options demo_image_env)\<lparr>pu_client := Some busy_sdk, pu_credentials := Some ?f\<rparr>"
  let ?ref = "\<lparr>ir_Registry = ''docker.io'', ir_Repository = ''alpine'', ir_Tag = '''', ir_Digest = ''''\<rparr>"
  let ?opts = "[WithPullClient (Some busy_sdk), WithCredentialsFn (Some ?f)]"
  let ?ask = "en_ImagePull (sk_engine busy_sdk) Background ''alpine'' ((pu_options ?o1)\<lparr>ip_RegistryAuth := ''u:p''\<rparr>)"
  have opts: "apply_with ''apply pull option'' ?opts (initial_pull_options demo_image_env) = Ok ?o1"
    by (simp add: WithPullClient_def WithCredentialsFn_def)
  have law: "retries (ie_retry demo_image_env)" by (simp add: demo_image_env_def retries_patient)
  have ref: "ParseImageRef (pf_parse_ref (se_platform (ie_sdk demo_image_env))) ''alpine'' = Ok ?ref"
    by (simp add: ParseImageRef_def demo_image_env_def demo_sdk_env_def demo_platform_def empty_ref_def)
  have enc: "ie_encode demo_image_env (pull_auth_config ''u'' ''p'' ?ref) = Ok ''u:p''"
    by (simp add: demo_image_env_def pull_auth_config_def tokenUsername_def empty_auth_def)
  let ?once = "pull_once Background busy_sdk ''alpine'' \<lparr>ip_RegistryAuth = ''u:p'', ip_Platforms = []\<rparr>"
  have first: "retry_from (Suc 9) 90000 0 Background ?once (\<lambda>e. sk_log busy_sdk Warn what (attrs e)) (0, ())
      = retry_from 9 90000 0 Background ?once (\<lambda>e. sk_log busy_sdk Warn what (attrs e)) (90000, ())" for what attrs
    by (rule retry_from_again [where e = "Msg ''registry timeout''" and s' = "(0, ())" and t = 0])
      (simp_all add: pull_once_def busy_sdk_def demo_sdk_def IsPermanentClientError_def permanentClientErrors_def
        discard_logger_def select_after_def Background_def ctx_err_def max_elapsed_def)
  have "?once (90000, ()) = (Success ('''', None), (90000, ()))" by (simp add: busy_sdk_def)
  from retry_from_ends(1) [of ?once, OF this]
  have once_more: "patient Background ?once (\<lambda>e. sk_log busy_sdk Warn what (attrs e)) (0, ()) = (Ok ('''', None), (90000, ()))" for what attrs
    using first [of what attrs] by (simp add: patient_def retry_n_def del: pull_once_Success)
  have retry: "ie_retry demo_image_env = patient" and shown: "DisplayProgress demo_image_env out r t = (Ok (), t)" for out r t
    by (simp_all add: demo_image_env_def DisplayProgress_def)
  have pull: "Pull demo_image_env Background ''alpine'' ?opts (0, ()) = (Ok (), (90000, ()))"
    by (simp add: Pull_def WithPullClient_def WithCredentialsFn_def ref enc retry shown once_more)
  have ask: "?ask u = (if fst u < 1000 then Err (Msg ''registry timeout'') else Ok ('''', None), u)" for u
    by (simp add: busy_sdk_def)
  have "\<not> IsPermanentClientError (Msg ''registry timeout'')"
    by (simp add: IsPermanentClientError_def permanentClientErrors_def)
  note transient = this
  have cli: "pu_client ?o1 = Some busy_sdk" "pu_credentials ?o1 = Some ?f" by simp_all
  have "''alpine'' \<noteq> ''''" by simp
  from Pull_outcome [where ctx = Background and s = "(0, ())", OF opts cli refl this ref enc law refl, unfolded pull]
  obtain u where u: "asked_again ?ask (\<lambda>e. sk_log busy_sdk Warn ''failed to pull image, will retry'' [(''error'', err_text e)]) (0, ()) u"
    and last: "case ?ask u of (Err e, u') \<Rightarrow> IsPermanentClientError e | _ \<Rightarrow> True"
    by (elim exE conjE) (rule that, assumption, auto split: prod.splits outcome.splits if_splits)
  from last transient have "1000 \<le> fst u" unfolding ask by (cases "fst u < 1000") simp_all
  with u pull show ?thesis by (intro exI [of _ u]) (simp add: initial_pull_options_def)
qed

text \<open>
  C40: what a successful \<open>Build\<close> did: it returns the tag that was passed, also when that is empty and the
  options name another; the daemon accepted a build from the passed context with that tag first and
  the other tags and settings of the options, labelled by the module and the SDK on top of the caller's
  labels; its output was displayed without an error; and the context was closed at the end.
\<close>

theorem Build_request:
  assumes build: "Build env ctx (Some rd) tag opts s = (Ok t, s')"
    and opts: "apply_with ''apply build option'' opts initial_build_options = Ok o1" and cli: "bd_client o1 = Some cli"
    and law: "retries (ie_retry env)"
  shows "t = tag \<and> (\<exists>req l s1 resp s2 s3. en_ImageBuild (sk_engine cli) ctx rd req s1 = (Ok resp, s2)
     \<and> ie_display env (loggerWriter_Write env (sk_log cli)) resp s2 = (Ok (), s3) \<and> s' = ie_close env rd s3
     \<and> ib_Tags req = tag # tl (ib_Tags (bd_opts o1)) \<and> ib_Dockerfile req = ib_Dockerfile (bd_opts o1)
     \<and> ib_BuildArgs req = ib_BuildArgs (bd_opts o1) \<and> ib_Labels req = Some l
     \<and> l LabelBase = Some ''true'' \<and> l LabelLang = Some ''go'' \<and> l LabelVersion = Some (se_version (ie_sdk env))
     \<and> l image_moduleLabel = Some image_version
     \<and> (\<forall>k. k \<notin> {image_moduleLabel, LabelBase, LabelLang, LabelVersion} \<longrightarrow> l k = nilmap_read (ib_Labels (bd_opts o1)) k))"
proof -
  let ?v = "se_version (ie_sdk env)"
  let ?bo = "build_request tag (bd_opts o1)"
  let ?notify = "\<lambda>e. sk_log cli Warn ''Failed to build image, will retry'' [(''error'', err_text e)]"
  let ?run = "st_do (ie_retry env ctx (build_once ?v ctx cli rd ?bo) ?notify s)
          (\<lambda>resp s. st_wrap ''build image'' (ie_display env (loggerWriter_Write env (sk_log cli)) resp s)
            (\<lambda>_ s. (Ok (hd (ib_Tags ?bo)), s)))"
  have "Build env ctx (Some rd) tag opts s =
      (if tag = '''' \<and> hd (build_tags (bd_opts o1)) = '''' then (Err (Msg ''tag cannot be empty''), s)
       else closing env rd ?run)"
    using opts cli by (simp only: Build_def initial_build_options_def Let_def option.case after_options_simps
        sdk_or_default_Some st_do_simps)
  with build have c: "closing env rd ?run = (Ok t, s')" by (simp split: if_splits)
  obtain q s3 where q: "?run = (q, s3)" by (cases ?run)
  with c have "?run = (Ok t, s3)" and close: "s' = ie_close env rd s3"
    by (simp_all only: closing_def fst_conv snd_conv prod.inject)
  then obtain resp s2 where r: "ie_retry env ctx (build_once ?v ctx cli rd ?bo) ?notify s = (Ok resp, s2)"
    and d: "ie_display env (loggerWriter_Write env (sk_log cli)) resp s2 = (Ok (), s3)" and "t = hd (ib_Tags ?bo)"
    by (auto simp: st_do_Ok_iff st_wrap_Ok_iff)
  then have t: "t = tag" by (simp add: build_request_def)
  note retries_Ok [OF law, OF r]
  then obtain s1 where s1: "build_once ?v ctx cli rd ?bo s1 = (Success resp, s2)" ..
  then have "ImageBuild ?v (sk_engine cli) ctx rd ?bo s1 = (Ok resp, s2)"
    by (rule build_once_Success [THEN iffD1])
  moreover have "ib_Labels ?bo = Some (build_labels (ib_Labels (bd_opts o1)))" by (simp add: build_request_def)
  ultimately have ask: "en_ImageBuild (sk_engine cli) ctx rd
      (?bo\<lparr>ib_Labels := AddSDKLabels ?v (Some (build_labels (ib_Labels (bd_opts o1))))\<rparr>) s1 = (Ok resp, s2)"
    by (simp add: ImageBuild_def)
  obtain l where l: "AddSDKLabels ?v (Some (build_labels (ib_Labels (bd_opts o1)))) = Some l"
    by (simp add: AddSDKLabels_def)
  have "image_moduleLabel \<noteq> LabelBase" "image_moduleLabel \<noteq> LabelLang" "image_moduleLabel \<noteq> LabelVersion"
    "LabelBase \<noteq> LabelLang" "LabelBase \<noteq> LabelVersion" "LabelLang \<noteq> LabelVersion"
    by (simp_all add: image_moduleLabel_def LabelBase_def LabelLang_def LabelVersion_def)
  then have "l LabelBase = Some ''true''" "l LabelLang = Some ''go''" "l LabelVersion = Some ?v"
    "l image_moduleLabel = Some image_version"
    "\<forall>k. k \<notin> {image_moduleLabel, LabelBase, LabelLang, LabelVersion} \<longrightarrow> l k = nilmap_read (ib_Labels (bd_opts o1)) k"
    using AddSDKLabels_Some [OF l] by (simp_all add: build_labels_def)
  moreover have "tl (build_tags (bd_opts o1)) = tl (ib_Tags (bd_opts o1))" by (simp add: build_tags_def)
  ultimately show ?thesis
    using d t close ask l
    by (intro conjI t exI [of _ "?bo\<lparr>ib_Labels := Some l\<rparr>"] exI [of _ l] exI [of _ s1] exI [of _ resp]
        exI [of _ s2] exI [of _ s3]) (simp_all add: build_request_def)
qed

theorem Build_request_witness:
  "\<exists>req s1. Build demo_image_env Background (Some ''ctx'') '''' [WithBuildClient (Some demo_sdk), WithBuildOptions demo_build] (0, ())
       = (Ok '''', (0, ()))
     \<and> en_ImageBuild demo_engine Background ''ctx'' req s1 = (Ok ('''', None), (0, ())) \<and> ib_Tags req = ['''', ''b'']"
proof -
  have run: "Build demo_image_env Background (Some ''ctx'') '''' [WithBuildClient (Some demo_sdk), WithBuildOptions demo_build] (0, ())
      = (Ok '''', (0, ()))"
    by (simp add: Build_def WithBuildClient_def WithBuildOptions_def demo_build_def build_tags_def build_request_def
        demo_image_env_def demo_sdk_def demo_sdk_env_def patient_def retry_n_def retry_from.simps [of 10] build_once_def ImageBuild_def closing_def)
      (simp add: demo_engine_def)
  have opts: "apply_with ''apply build option'' [WithBuildClient (Some demo_sdk), WithBuildOptions demo_build] initial_build_options
      = Ok \<lparr>bd_client = Some demo_sdk, bd_opts = demo_build\<rparr>"
    by (simp add: initial_build_options_def WithBuildClient_def WithBuildOptions_def)
  have law: "retries (ie_retry demo_image_env)" by (simp add: demo_image_env_def retries_patient)
  from Build_request [OF run opts _ law] obtain req s1 resp s2 where
    "en_ImageBuild (sk_engine demo_sdk) Background ''ctx'' req s1 = (Ok resp, s2)" "ib_Tags req = '''' # tl (ib_Tags demo_build)"
    by auto
  with run show ?thesis by (auto simp: demo_sdk_def demo_engine_def demo_build_def)
qed

text \<open>\<open>BuildFromDir\<close> replaces the build options that the caller passes.\<close>

lemma BuildFromDir_options:
  "apply_with what (opts @ [WithBuildOptions b]) c = Ok o1 \<Longrightarrow> bd_opts o1 = b"
  by (auto simp: apply_with_append WithBuildOptions_def outcome_simps)

text \<open>An image that cannot be saved leaves an empty file.\<close>

lemma Save_leaves_empty_file:
  assumes "output \<noteq> ''''" and "img \<noteq> ''''" and "write_file disk (path_of output) '''' = Inr disk1"
    and "en_ImageSave (sk_engine cli) ctx img [] s = (Err e, s1)"
  shows "Save env ctx output img [WithSaveClient (Some cli)] (s, disk) = (Err (Wrap ''save images '' e ''''), s1, disk1)"
  using assms by (simp add: Save_def WithSaveClient_def)

end
