(* ===== verification/Container_Definition.thy ===== *)
theory Container_Definition
  imports Docker_Image Docker_Network Wait_All Durable_Startup
begin

text \<open>
  Package \<open>container\<close>, before anything runs: the definition of a container (\<open>definition.go\<close>), its lifecycle
  hooks and how the default ones are combined with those of the user (\<open>lifecycle.go\<close>), the options that
  change a definition (\<open>options.go\<close>), its validation and the image substitutors.

  Hooks are functions that receive the definition or the container that holds them. Here a hook is a
  value: one of the hooks of the package, or a hook of the user of type \<open>'h\<close>, which Container_Lifecycle
  gives its meaning. The modifiers and validators of the user are functions of what they are given.
\<close>

named_theorems container_defs \<open>the operations of package container\<close>


section \<open>Lifecycle hooks\<close>

text \<open>The hooks before creation: logging, the configuration of the container, the pull of the image.\<close>

datatype 'h definition_hook = LogCreating | PreCreate | PullHook | UserDefinitionHook 'h

text \<open>
  The hooks on a container: logging, copying the files, waiting until it is ready, running a command.
\<close>

datatype 'h container_hook =
    LogHook string
  | CopyFiles "sdk_file list"
  | AwaitReady
  | RunExecutable executable
  | UserHook 'h

record 'h lifecycle_hooks =
  PreCreates :: "'h definition_hook list"
  PostCreates :: "'h container_hook list"
  PreStarts :: "'h container_hook list"
  PostStarts :: "'h container_hook list"
  PostReadies :: "'h container_hook list"
  PreStops :: "'h container_hook list"
  PostStops :: "'h container_hook list"
  PreTerminates :: "'h container_hook list"
  PostTerminates :: "'h container_hook list"

definition no_hooks :: "'h lifecycle_hooks" where
  "no_hooks = \<lparr>PreCreates = [], PostCreates = [], PreStarts = [], PostStarts = [], PostReadies = [],
     PreStops = [], PostStops = [], PreTerminates = [], PostTerminates = []\<rparr>"

definition DefaultLoggingHook :: "'h lifecycle_hooks" where
  "DefaultLoggingHook =
     \<lparr>PreCreates = [LogCreating],
      PostCreates = [LogHook ''Container created''],
      PreStarts = [LogHook ''Starting container''],
      PostStarts = [LogHook ''Container started''],
      PostReadies = [LogHook ''Container is ready''],
      PreStops = [LogHook ''Stopping container''],
      PostStops = [LogHook ''Container stopped''],
      PreTerminates = [LogHook ''Terminating container''],
      PostTerminates = [LogHook ''Container terminated'']\<rparr>"

definition defaultPreCreateHook :: "'h lifecycle_hooks" where
  "defaultPreCreateHook = no_hooks\<lparr>PreCreates := [PreCreate]\<rparr>"

definition defaultCopyFileToContainerHook :: "sdk_file list \<Rightarrow> 'h lifecycle_hooks" where
  "defaultCopyFileToContainerHook files = no_hooks\<lparr>PostCreates := [CopyFiles files]\<rparr>"

definition defaultReadinessHook :: "'h lifecycle_hooks" where
  "defaultReadinessHook = no_hooks\<lparr>PostStarts := [AwaitReady]\<rparr>"

definition defaultPullHook :: "'h definition_hook list" where
  "defaultPullHook = [PullHook]"

text \<open>
  The three loops of \<open>combineContainerHooks\<close>: the fields whose name starts with Pre, all of them, those
  that start with Post.
\<close>

definition append_pre :: "'h lifecycle_hooks \<Rightarrow> 'h lifecycle_hooks \<Rightarrow> 'h lifecycle_hooks" where
  "append_pre defaultHook hooks = hooks\<lparr>
     PreCreates := PreCreates hooks @ PreCreates defaultHook,
     PreStarts := PreStarts hooks @ PreStarts defaultHook,
     PreStops := PreStops hooks @ PreStops defaultHook,
     PreTerminates := PreTerminates hooks @ PreTerminates defaultHook\<rparr>"

definition append_post :: "'h lifecycle_hooks \<Rightarrow> 'h lifecycle_hooks \<Rightarrow> 'h lifecycle_hooks" where
  "append_post defaultHook hooks = hooks\<lparr>
     PostCreates := PostCreates hooks @ PostCreates defaultHook,
     PostStarts := PostStarts hooks @ PostStarts defaultHook,
     PostReadies := PostReadies hooks @ PostReadies defaultHook,
     PostStops := PostStops hooks @ PostStops defaultHook,
     PostTerminates := PostTerminates hooks @ PostTerminates defaultHook\<rparr>"

definition append_all :: "'h lifecycle_hooks \<Rightarrow> 'h lifecycle_hooks \<Rightarrow> 'h lifecycle_hooks" where
  "append_all userDefinedHook hooks = hooks\<lparr>
     PreCreates := PreCreates hooks @ PreCreates userDefinedHook,
     PostCreates := PostCreates hooks @ PostCreates userDefinedHook,
     PreStarts := PreStarts hooks @ PreStarts userDefinedHook,
     PostStarts := PostStarts hooks @ PostStarts userDefinedHook,
     PostReadies := PostReadies hooks @ PostReadies userDefinedHook,
     PreStops := PreStops hooks @ PreStops userDefinedHook,
     PostStops := PostStops hooks @ PostStops userDefinedHook,
     PreTerminates := PreTerminates hooks @ PreTerminates userDefinedHook,
     PostTerminates := PostTerminates hooks @ PostTerminates userDefinedHook\<rparr>"

definition combineContainerHooks ::
    "'h lifecycle_hooks list \<Rightarrow> 'h lifecycle_hooks list \<Rightarrow> 'h lifecycle_hooks" where
  "combineContainerHooks defaultHooks userDefinedHooks =
     (let h1 = fold append_pre defaultHooks no_hooks;
          h2 = fold append_all userDefinedHooks h1;
          h3 = fold append_post defaultHooks h2
      in h3\<lparr>PreCreates := PreCreates h3 @ defaultPullHook\<rparr>)"


section \<open>The definition\<close>

type_synonym endpoint_map = "endpoint_settings option smap"

datatype validator = ImageRequired | ValidateMounts | UserCheck "err option"

text \<open>What the substitutors of the package prepend to an image of Docker Hub, or a substitutor of the user.\<close>

datatype image_substitutor =
    CustomHubSubstitutor string
  | PrependHubRegistry string
  | UserSubstitutor string "string \<Rightarrow> string outcome"

text \<open>The environment is a map, whose entries are listed in the order in which \<open>Run\<close> walks them.\<close>

record ('w, 'h) container_definition =
  df_dockerClient :: "'w sdk option"
  df_configModifier :: "(container_config \<Rightarrow> container_config) option"
  df_cmd :: "string list"
  df_endpointSettingsModifier :: "(endpoint_map \<Rightarrow> endpoint_map) option"
  df_entrypoint :: "string list"
  df_env :: "(string \<times> string) list"
  df_files :: "sdk_file list"
  df_hostConfigModifier :: "(host_config \<Rightarrow> host_config) option"
  df_validateFuncs :: "validator list"
  df_imageSubstitutors :: "image_substitutor list"
  df_labels :: "string smap option"
  df_lifecycleHooks :: "'h lifecycle_hooks list"
  df_networkAliases :: "string list smap option"
  df_networks :: "string list"
  df_waitingFor :: "'w strategy option"
  df_exposedPorts :: "string list"
  df_image :: string
  df_imagePlatform :: string
  df_platform :: "image_platform option"
  df_name :: string
  df_alwaysPullImage :: bool
  df_pullOptions :: "'w pull_option list"
  df_started :: bool

text \<open>The definition that \<open>Run\<close> starts from.\<close>

definition initial_definition :: "('w, 'h) container_definition" where
  "initial_definition =
     \<lparr>df_dockerClient = None, df_configModifier = None, df_cmd = [], df_endpointSettingsModifier = None,
      df_entrypoint = [], df_env = [], df_files = [], df_hostConfigModifier = None,
      df_validateFuncs = [ImageRequired, ValidateMounts], df_imageSubstitutors = [], df_labels = None,
      df_lifecycleHooks = [], df_networkAliases = None, df_networks = [], df_waitingFor = None,
      df_exposedPorts = [], df_image = '''', df_imagePlatform = '''', df_platform = None, df_name = '''',
      df_alwaysPullImage = False, df_pullOptions = [], df_started = True\<rparr>"


section \<open>Validation\<close>

definition ErrDuplicateMountTarget :: string where
  "ErrDuplicateMountTarget = ''duplicate mount target detected''"

definition ErrInvalidBindMount :: string where
  "ErrInvalidBindMount = ''invalid bind mount''"

definition zero_host_config :: host_config where
  "zero_host_config = \<lparr>hc_NetworkMode = '''', hc_PublishAllPorts = False, hc_PortBindings = None, hc_Binds = []\<rparr>"

fun validate_binds :: "string list \<Rightarrow> string list \<Rightarrow> err option" where
  "validate_binds targets [] = None"
| "validate_binds targets (bind # binds) =
     (let parts = split_on (CHR '':'') bind in
      if length parts \<noteq> 2 \<and> length parts \<noteq> 3 then Some (Wrap '''' (Sentinel ErrInvalidBindMount) ('': '' @ bind))
      else let targetPath = parts ! 1 in
           if targetPath \<in> set targets then Some (Wrap '''' (Sentinel ErrDuplicateMountTarget) ('': '' @ targetPath))
           else validate_binds (targetPath # targets) binds)"

definition validateMounts :: "('w, 'h) container_definition \<Rightarrow> err option" where
  "validateMounts d =
     (case df_hostConfigModifier d of
        None \<Rightarrow> None
      | Some hostConfigModifier \<Rightarrow> validate_binds [] (hc_Binds (hostConfigModifier zero_host_config)))"

fun run_validator :: "('w, 'h) container_definition \<Rightarrow> validator \<Rightarrow> err option" where
  "run_validator d ImageRequired = (if df_image d = '''' then Some (Msg ''image is required'') else None)"
| "run_validator d ValidateMounts = validateMounts d"
| "run_validator d (UserCheck e) = e"

definition validate_definition :: "('w, 'h) container_definition \<Rightarrow> err option" where
  "validate_definition d = errors_join (map (run_validator d) (df_validateFuncs d))"


section \<open>Image substitutors\<close>

fun Description :: "image_substitutor \<Rightarrow> string" where
  "Description (CustomHubSubstitutor hub) = ''CustomHubSubstitutor (replaces hub with '' @ hub @ '')''"
| "Description (PrependHubRegistry prefix) = ''HubImageSubstitutor (prepends '' @ prefix @ '')''"
| "Description (UserSubstitutor what f) = what"

definition NewCustomHubSubstitutor :: "string \<Rightarrow> image_substitutor" where
  "NewCustomHubSubstitutor hub = CustomHubSubstitutor hub"

definition newPrependHubRegistry :: "string \<Rightarrow> image_substitutor" where
  "newPrependHubRegistry hubPrefix = PrependHubRegistry hubPrefix"

text \<open>\<open>join_path\<close> is \<open>url.JoinPath\<close>; the reference parser is that of package config.\<close>

definition substitute_hub ::
    "(string \<Rightarrow> any_reference outcome) \<Rightarrow> (string \<Rightarrow> string \<Rightarrow> string outcome) \<Rightarrow> string \<Rightarrow> string \<Rightarrow> string outcome" where
  "substitute_hub parse_any join_path hub img =
     then_do (ParseImageRef parse_any img) (\<lambda>ref.
       if hub = '''' \<or> ir_Registry ref \<noteq> DockerRegistry then Ok img
       else then_do (join_path hub img) Ok)"

fun Substitute ::
    "(string \<Rightarrow> any_reference outcome) \<Rightarrow> (string \<Rightarrow> string \<Rightarrow> string outcome) \<Rightarrow> image_substitutor \<Rightarrow> string \<Rightarrow> string outcome" where
  "Substitute parse_any join_path (CustomHubSubstitutor hub) img = substitute_hub parse_any join_path hub img"
| "Substitute parse_any join_path (PrependHubRegistry prefix) img = substitute_hub parse_any join_path prefix img"
| "Substitute parse_any join_path (UserSubstitutor what f) img = f img"



section \<open>Options\<close>

text \<open>
  A customizer changes the definition, calls the daemon (\<open>WithNewNetwork\<close>) or a variable of the caller
  (\<open>WithDefinition\<close>), or fails.
\<close>

type_synonym ('w, 'h) customizer =
  "('w, 'h) container_definition \<Rightarrow> (('w, 'h) container_definition, 'w) call"

definition WithClient :: "'w sdk option \<Rightarrow> ('w, 'h) customizer" where
  "WithClient cli d s = (Ok (d\<lparr>df_dockerClient := cli\<rparr>), s)"

definition WithConfigModifier :: "(container_config \<Rightarrow> container_config) option \<Rightarrow> ('w, 'h) customizer" where
  "WithConfigModifier modifier d s = (Ok (d\<lparr>df_configModifier := modifier\<rparr>), s)"

text \<open>\<open>originalModifier(x); modifier(x)\<close>, or the new modifier alone when there was none.\<close>

definition then_modify :: "('a \<Rightarrow> 'a) option \<Rightarrow> ('a \<Rightarrow> 'a) \<Rightarrow> 'a \<Rightarrow> 'a" where
  "then_modify originalModifier modifier x =
     (case originalModifier of None \<Rightarrow> modifier x | Some f \<Rightarrow> modifier (f x))"

definition WithAdditionalConfigModifier :: "(container_config \<Rightarrow> container_config) \<Rightarrow> ('w, 'h) customizer" where
  "WithAdditionalConfigModifier modifier d s =
     (Ok (d\<lparr>df_configModifier := Some (then_modify (df_configModifier d) modifier)\<rparr>), s)"

definition WithEndpointSettingsModifier :: "(endpoint_map \<Rightarrow> endpoint_map) option \<Rightarrow> ('w, 'h) customizer" where
  "WithEndpointSettingsModifier modifier d s = (Ok (d\<lparr>df_endpointSettingsModifier := modifier\<rparr>), s)"

text \<open>
  What the additional modifier leaves of a network: its settings with those from before it merged over
  them, or the settings from before where it deleted the network or set it to nil, or where the merge
  failed. \<open>merge current original\<close> is \<open>mergo.Merge\<close> with override. A network that only the additional
  modifier added is kept.
\<close>

type_synonym merge = "endpoint_settings \<Rightarrow> endpoint_settings option \<Rightarrow> endpoint_settings outcome"

definition merged_network ::
    "merge \<Rightarrow> endpoint_map \<Rightarrow> endpoint_map \<Rightarrow> string \<Rightarrow> endpoint_settings option option" where
  "merged_network merge original settings networkName =
     (case original networkName of
        None \<Rightarrow> settings networkName
      | Some originalES \<Rightarrow>
          (case settings networkName of
             None \<Rightarrow> Some originalES
           | Some None \<Rightarrow> Some originalES
           | Some (Some currentES) \<Rightarrow>
               (case merge currentES originalES of
                  Ok es \<Rightarrow> Some (Some es)
                | _ \<Rightarrow> Some originalES)))"

definition merging_modifier :: "merge \<Rightarrow> (endpoint_map \<Rightarrow> endpoint_map) option \<Rightarrow> (endpoint_map \<Rightarrow> endpoint_map) \<Rightarrow> endpoint_map \<Rightarrow> endpoint_map" where
  "merging_modifier merge originalModifier modifier settings =
     (case originalModifier of
        None \<Rightarrow> modifier settings
      | Some f \<Rightarrow> merged_network merge (f settings) (modifier (f settings)))"

definition WithAdditionalEndpointSettingsModifier :: "merge \<Rightarrow> (endpoint_map \<Rightarrow> endpoint_map) \<Rightarrow> ('w, 'h) customizer" where
  "WithAdditionalEndpointSettingsModifier merge modifier d s =
     (Ok (d\<lparr>df_endpointSettingsModifier := Some (merging_modifier merge (df_endpointSettingsModifier d) modifier)\<rparr>), s)"

definition WithEnv :: "(string \<times> string) list \<Rightarrow> ('w, 'h) customizer" where
  "WithEnv envs d s = (Ok (d\<lparr>df_env := fold (\<lambda>(k, v). put_entry k v) envs (df_env d)\<rparr>), s)"

definition WithHostConfigModifier :: "(host_config \<Rightarrow> host_config) option \<Rightarrow> ('w, 'h) customizer" where
  "WithHostConfigModifier modifier d s = (Ok (d\<lparr>df_hostConfigModifier := modifier\<rparr>), s)"

definition WithAdditionalHostConfigModifier :: "(host_config \<Rightarrow> host_config) \<Rightarrow> ('w, 'h) customizer" where
  "WithAdditionalHostConfigModifier modifier d s =
     (Ok (d\<lparr>df_hostConfigModifier := Some (then_modify (df_hostConfigModifier d) modifier)\<rparr>), s)"

definition ErrContainerNameEmpty :: err where
  "ErrContainerNameEmpty = Sentinel (''container name mustn'' @ [squote] @ ''t be empty'')"

definition WithName :: "string \<Rightarrow> ('w, 'h) customizer" where
  "WithName containerName d s =
     (if containerName = '''' then (Err ErrContainerNameEmpty, s) else (Ok (d\<lparr>df_name := containerName\<rparr>), s))"

definition WithNoStart :: "('w, 'h) customizer" where
  "WithNoStart d s = (Ok (d\<lparr>df_started := False\<rparr>), s)"

definition WithImage :: "string \<Rightarrow> ('w, 'h) customizer" where
  "WithImage img d s = (Ok (d\<lparr>df_image := img\<rparr>), s)"

definition WithImageSubstitutors :: "image_substitutor list \<Rightarrow> ('w, 'h) customizer" where
  "WithImageSubstitutors fn d s = (Ok (d\<lparr>df_imageSubstitutors := fn\<rparr>), s)"

text \<open>Attaching to a network, with the aliases of the container on it.\<close>

definition attach :: "string list \<Rightarrow> string \<Rightarrow> ('w, 'h) container_definition \<Rightarrow> ('w, 'h) container_definition" where
  "attach aliases networkName d =
     d\<lparr>df_networks := df_networks d @ [networkName],
       df_networkAliases := Some ((nilmap_read (df_networkAliases d))(networkName \<mapsto> aliases))\<rparr>"

definition WithNetworkName :: "string list \<Rightarrow> string \<Rightarrow> ('w, 'h) customizer" where
  "WithNetworkName aliases networkName d s =
     (if networkName = ''bridge''
      then (Err (Msg ''network-scoped aliases are supported only for containers in user defined networks''), s)
      else (Ok (attach aliases networkName d), s))"

definition WithNetwork :: "string list \<Rightarrow> 'w network \<Rightarrow> ('w, 'h) customizer" where
  "WithNetwork aliases nw = WithNetworkName aliases (nw_name nw)"

definition WithBridgeNetwork :: "('w, 'h) customizer" where
  "WithBridgeNetwork d s = (Ok (d\<lparr>df_networks := df_networks d @ [''bridge'']\<rparr>), s)"

definition WithNewNetwork ::
    "('o, 'w) sdk_env \<Rightarrow> string \<Rightarrow> gctx \<Rightarrow> string list \<Rightarrow> 'w network_option list \<Rightarrow> ('w, 'h) customizer" where
  "WithNewNetwork env uuid ctx aliases opts d s =
     st_wrap ''new network'' (New_network env uuid ctx opts s) (\<lambda>newNetwork s.
       (Ok (attach aliases (nw_name newNetwork) d), s))"

text \<open>The hooks that run the commands; \<open>where\<close> puts them in their place.\<close>

definition createExecutableHooks ::
    "executable list \<Rightarrow> ('h container_hook list \<Rightarrow> 'h lifecycle_hooks) \<Rightarrow> 'h lifecycle_hooks" where
  "createExecutableHooks execs hookCreator = hookCreator (map RunExecutable execs)"

definition WithStartupCommand :: "executable list \<Rightarrow> ('w, 'h) customizer" where
  "WithStartupCommand execs d s =
     (Ok (d\<lparr>df_lifecycleHooks := df_lifecycleHooks d
              @ [createExecutableHooks execs (\<lambda>hooks. no_hooks\<lparr>PostStarts := hooks\<rparr>)]\<rparr>), s)"

definition WithAfterReadyCommand :: "executable list \<Rightarrow> ('w, 'h) customizer" where
  "WithAfterReadyCommand execs d s =
     (Ok (d\<lparr>df_lifecycleHooks := df_lifecycleHooks d
              @ [createExecutableHooks execs (\<lambda>hooks. no_hooks\<lparr>PostReadies := hooks\<rparr>)]\<rparr>), s)"

definition WithWaitStrategyAndDeadline :: "nat \<Rightarrow> 'w strategy option list \<Rightarrow> ('w, 'h) customizer" where
  "WithWaitStrategyAndDeadline deadline strategies d s =
     (Ok (d\<lparr>df_waitingFor := Some (WithDeadline deadline (ForAll strategies))\<rparr>), s)"

definition WithWaitStrategy :: "'w strategy option list \<Rightarrow> ('w, 'h) customizer" where
  "WithWaitStrategy strategies = WithWaitStrategyAndDeadline (60 * 1000) strategies"

definition WithAdditionalWaitStrategyAndDeadline :: "nat \<Rightarrow> 'w strategy option list \<Rightarrow> ('w, 'h) customizer" where
  "WithAdditionalWaitStrategyAndDeadline deadline strategies d s =
     (case df_waitingFor d of
        None \<Rightarrow> (Ok (d\<lparr>df_waitingFor := Some (WithDeadline deadline (ForAll strategies))\<rparr>), s)
      | Some w \<Rightarrow> (Ok (d\<lparr>df_waitingFor := Some (WithDeadline deadline (ForAll (Some w # strategies)))\<rparr>), s))"

definition WithAdditionalWaitStrategy :: "'w strategy option list \<Rightarrow> ('w, 'h) customizer" where
  "WithAdditionalWaitStrategy strategies = WithAdditionalWaitStrategyAndDeadline (60 * 1000) strategies"

definition WithAlwaysPull :: "('w, 'h) customizer" where
  "WithAlwaysPull d s = (Ok (d\<lparr>df_alwaysPullImage := True\<rparr>), s)"

definition WithImagePlatform :: "string \<Rightarrow> ('w, 'h) customizer" where
  "WithImagePlatform platform d s = (Ok (d\<lparr>df_imagePlatform := platform\<rparr>), s)"

definition WithEntrypoint :: "string list \<Rightarrow> ('w, 'h) customizer" where
  "WithEntrypoint entrypoint d s = (Ok (d\<lparr>df_entrypoint := entrypoint\<rparr>), s)"

definition WithEntrypointArgs :: "string list \<Rightarrow> ('w, 'h) customizer" where
  "WithEntrypointArgs entrypointArgs d s = (Ok (d\<lparr>df_entrypoint := df_entrypoint d @ entrypointArgs\<rparr>), s)"

definition WithExposedPorts :: "string list \<Rightarrow> ('w, 'h) customizer" where
  "WithExposedPorts ports d s = (Ok (d\<lparr>df_exposedPorts := df_exposedPorts d @ ports\<rparr>), s)"

definition WithCmd :: "string list \<Rightarrow> ('w, 'h) customizer" where
  "WithCmd cmd d s = (Ok (d\<lparr>df_cmd := cmd\<rparr>), s)"

definition WithCmdArgs :: "string list \<Rightarrow> ('w, 'h) customizer" where
  "WithCmdArgs cmdArgs d s = (Ok (d\<lparr>df_cmd := df_cmd d @ cmdArgs\<rparr>), s)"

definition WithLabels :: "string smap \<Rightarrow> ('w, 'h) customizer" where
  "WithLabels labels d s = (Ok (d\<lparr>df_labels := Some (nilmap_read (df_labels d) ++ labels)\<rparr>), s)"

definition WithLifecycleHooks :: "'h lifecycle_hooks list \<Rightarrow> ('w, 'h) customizer" where
  "WithLifecycleHooks hooks d s = (Ok (d\<lparr>df_lifecycleHooks := hooks\<rparr>), s)"

definition WithAdditionalLifecycleHooks :: "'h lifecycle_hooks list \<Rightarrow> ('w, 'h) customizer" where
  "WithAdditionalLifecycleHooks hooks d s = (Ok (d\<lparr>df_lifecycleHooks := df_lifecycleHooks d @ hooks\<rparr>), s)"

definition WithFiles :: "sdk_file list \<Rightarrow> ('w, 'h) customizer" where
  "WithFiles files d s = (Ok (d\<lparr>df_files := df_files d @ files\<rparr>), s)"

text \<open>No functions at all are the nil slice \<open>None\<close>; a nil function is \<open>None\<close> in the list.\<close>

definition WithValidateFuncs :: "validator option list option \<Rightarrow> ('w, 'h) customizer" where
  "WithValidateFuncs fn d s =
     (case fn of
        None \<Rightarrow> (Err (Msg ''validate function is nil''), s)
      | Some fs \<Rightarrow>
          (if None \<in> set fs then (Err (Msg ''validate function is nil''), s)
           else (Ok (d\<lparr>df_validateFuncs := somes fs\<rparr>), s)))"

text \<open>\<open>*def = *d\<close>: the variable of the caller is part of the outside world, where \<open>store\<close> assigns it.\<close>

definition WithDefinition ::
    "(('w, 'h) container_definition \<Rightarrow> 'w clocked \<Rightarrow> 'w clocked) option \<Rightarrow> ('w, 'h) customizer" where
  "WithDefinition store d s =
     (case store of
        None \<Rightarrow> (Err (Msg ''client definition is nil''), s)
      | Some assign \<Rightarrow> (Ok d, assign d s))"

definition Ctr_WithPullHandler :: "'w pull_handler option \<Rightarrow> ('w, 'h) customizer" where
  "Ctr_WithPullHandler handler d s = (Ok (d\<lparr>df_pullOptions := df_pullOptions d @ [WithPullHandler handler]\<rparr>), s)"

definition Ctr_WithCredentialsFn :: "'w credentials_fn option \<Rightarrow> ('w, 'h) customizer" where
  "Ctr_WithCredentialsFn credentialsFn d s =
     (Ok (d\<lparr>df_pullOptions := df_pullOptions d @ [WithCredentialsFn credentialsFn]\<rparr>), s)"

text \<open>The startup scripts of Durable_Startup are options on the files of the definition.\<close>

definition files_option :: "(sdk_file list \<Rightarrow> sdk_file list outcome) \<Rightarrow> ('w, 'h) customizer" where
  "files_option f d s = (then_do (f (df_files d)) (\<lambda>files. Ok (d\<lparr>df_files := files\<rparr>)), s)"

text \<open>\<open>for _, opt := range opts { if err := opt.Customize(&def); err != nil { ... } }\<close>\<close>

fun customize :: "('w, 'h) customizer list \<Rightarrow> ('w, 'h) customizer" where
  "customize [] d s = (Ok d, s)"
| "customize (opt # opts) d s = st_wrap ''customize'' (opt d s) (\<lambda>d s. customize opts d s)"


section \<open>Lemmas\<close>

lemma fold_append_pre:
  "fold append_pre ds h = h\<lparr>
     PreCreates := PreCreates h @ concat (map PreCreates ds),
     PreStarts := PreStarts h @ concat (map PreStarts ds),
     PreStops := PreStops h @ concat (map PreStops ds),
     PreTerminates := PreTerminates h @ concat (map PreTerminates ds)\<rparr>"
  by (induction ds arbitrary: h) (simp_all add: append_pre_def)

lemma fold_append_post:
  "fold append_post ds h = h\<lparr>
     PostCreates := PostCreates h @ concat (map PostCreates ds),
     PostStarts := PostStarts h @ concat (map PostStarts ds),
     PostReadies := PostReadies h @ concat (map PostReadies ds),
     PostStops := PostStops h @ concat (map PostStops ds),
     PostTerminates := PostTerminates h @ concat (map PostTerminates ds)\<rparr>"
  by (induction ds arbitrary: h) (simp_all add: append_post_def)

lemma fold_append_all:
  "fold append_all us h = fold append_pre us (fold append_post us h)"
  unfolding fold_append_pre fold_append_post
  by (induction us arbitrary: h) (simp_all add: append_all_def)

lemma combine_fields [simp]:
  "PreCreates (combineContainerHooks ds us) = concat (map PreCreates ds) @ concat (map PreCreates us) @ [PullHook]"
  "PostCreates (combineContainerHooks ds us) = concat (map PostCreates us) @ concat (map PostCreates ds)"
  "PreStarts (combineContainerHooks ds us) = concat (map PreStarts ds) @ concat (map PreStarts us)"
  "PostStarts (combineContainerHooks ds us) = concat (map PostStarts us) @ concat (map PostStarts ds)"
  "PostReadies (combineContainerHooks ds us) = concat (map PostReadies us) @ concat (map PostReadies ds)"
  "PreStops (combineContainerHooks ds us) = concat (map PreStops ds) @ concat (map PreStops us)"
  "PostStops (combineContainerHooks ds us) = concat (map PostStops us) @ concat (map PostStops ds)"
  "PreTerminates (combineContainerHooks ds us) = concat (map PreTerminates ds) @ concat (map PreTerminates us)"
  "PostTerminates (combineContainerHooks ds us) = concat (map PostTerminates us) @ concat (map PostTerminates ds)"
  by (simp_all add: combineContainerHooks_def Let_def fold_append_all fold_append_pre fold_append_post
      no_hooks_def defaultPullHook_def)

text \<open>
  C20: the order in which lifecycle hooks run. Before every step the default hooks come first and the
  hooks of the user after them, each in the order given; after every step the hooks of the user come
  first and the default hooks last; and the pull of the image is the last hook of all before creation,
  so that a hook of the user may still choose the image.
\<close>

theorem combineContainerHooks_order:
  "combineContainerHooks ds us =
     \<lparr>PreCreates = concat (map PreCreates ds) @ concat (map PreCreates us) @ [PullHook],
      PostCreates = concat (map PostCreates us) @ concat (map PostCreates ds),
      PreStarts = concat (map PreStarts ds) @ concat (map PreStarts us),
      PostStarts = concat (map PostStarts us) @ concat (map PostStarts ds),
      PostReadies = concat (map PostReadies us) @ concat (map PostReadies ds),
      PreStops = concat (map PreStops ds) @ concat (map PreStops us),
      PostStops = concat (map PostStops us) @ concat (map PostStops ds),
      PreTerminates = concat (map PreTerminates ds) @ concat (map PreTerminates us),
      PostTerminates = concat (map PostTerminates us) @ concat (map PostTerminates ds)\<rparr>"
  by (rule lifecycle_hooks.equality) simp_all

text \<open>The target of a bind mount, for a bind of two or three parts.\<close>

definition mount_target :: "string \<Rightarrow> string option" where
  "mount_target bind =
     (let parts = split_on (CHR '':'') bind in
      if length parts = 2 \<or> length parts = 3 then Some (parts ! 1) else None)"

lemma validate_binds_None:
  "validate_binds targets binds = None \<longleftrightarrow>
     (\<exists>ts. map mount_target binds = map Some ts \<and> distinct ts \<and> set ts \<inter> set targets = {})"
proof (induction binds arbitrary: targets)
  case (Cons b bs)
  show ?case
  proof (cases "mount_target b")
    case None
    then show ?thesis by (auto simp: mount_target_def Let_def split: if_splits)
  next
    case (Some t)
    then have step: "validate_binds targets (b # bs) =
        (if t \<in> set targets then Some (Wrap '''' (Sentinel ErrDuplicateMountTarget) ('': '' @ t))
         else validate_binds (t # targets) bs)"
      by (auto simp: mount_target_def Let_def split: if_splits)
    have split: "(\<exists>ts. map mount_target (b # bs) = map Some ts \<and> distinct ts \<and> set ts \<inter> set targets = {}) \<longleftrightarrow>
        t \<notin> set targets \<and> (\<exists>ts. map mount_target bs = map Some ts \<and> distinct ts \<and> set ts \<inter> set (t # targets) = {})"
      (is "?l \<longleftrightarrow> ?r")
    proof
      assume ?l
      then obtain ts where ts: "map mount_target (b # bs) = map Some ts" "distinct ts" "set ts \<inter> set targets = {}" by blast
      with Some obtain us where "ts = t # us" by (cases ts) auto
      with ts show ?r by auto
    next
      assume ?r
      then obtain ts where "t \<notin> set targets" "map mount_target bs = map Some ts" "distinct ts" "set ts \<inter> set (t # targets) = {}"
        by blast
      with Some show ?l by (intro exI [of _ "t # ts"]) auto
    qed
    show ?thesis unfolding step split using Cons.IH [of "t # targets"] by simp
  qed
qed simp

text \<open>
  C39: which definitions \<open>Run\<close> accepts without validators of the user: exactly those with an image whose bind
  mounts, as the host configuration's modifier leaves them, all have two or three parts and different
  targets.
\<close>

theorem default_validation:
  assumes "df_validateFuncs d = [ImageRequired, ValidateMounts]"
  shows "validate_definition d = None \<longleftrightarrow>
     df_image d \<noteq> '''' \<and>
     (\<forall>f. df_hostConfigModifier d = Some f \<longrightarrow>
        (\<exists>targets. map mount_target (hc_Binds (f zero_host_config)) = map Some targets \<and> distinct targets))"
  using assms
  by (auto simp: validate_definition_def validateMounts_def validate_binds_None split: option.splits)

definition binds :: "string list \<Rightarrow> host_config \<Rightarrow> host_config" where
  "binds bs h = h\<lparr>hc_Binds := bs\<rparr>"

theorem default_validation_witness:
  "validate_definition (initial_definition\<lparr>df_image := ''alpine'', df_hostConfigModifier := Some (binds [''/a:/x'', ''/b:/y:ro''])\<rparr>) = None
   \<and> validate_definition (initial_definition\<lparr>df_image := ''alpine'', df_hostConfigModifier := Some (binds [''/a:/x'', ''/b:/x:ro''])\<rparr>) \<noteq> None"
proof -
  have t: "map mount_target [''/a:/x'', ''/b:/y:ro''] = map Some [''/x'', ''/y'']"
    "map mount_target [''/a:/x'', ''/b:/x:ro''] = map Some [''/x'', ''/x'']"
    by (simp_all add: mount_target_def)
  have dup: "\<not> (\<exists>ts. map Some [''/x'', ''/x''] = map Some ts \<and> distinct ts)"
    by (auto simp del: list.map)
  show ?thesis
    using default_validation [of "initial_definition\<lparr>df_image := ''alpine'', df_hostConfigModifier := Some (binds [''/a:/x'', ''/b:/y:ro''])\<rparr>"]
      default_validation [of "initial_definition\<lparr>df_image := ''alpine'', df_hostConfigModifier := Some (binds [''/a:/x'', ''/b:/x:ro''])\<rparr>"]
      t dup
    by (auto simp: initial_definition_def binds_def simp del: list.map)
qed

text \<open>
  An additional endpoint modifier cannot take a network away: every network that the modifiers before
  it configured is still configured after it, not nil when it was not nil, and with the earlier settings
  where the later modifier removed it, set it to nil or left something that does not merge; a network it
  adds stays as it made it.
\<close>

theorem additional_endpoint_modifier_keeps:
  assumes "df_endpointSettingsModifier d = Some f"
  shows "\<exists>g. fst (WithAdditionalEndpointSettingsModifier merge modifier d s) = Ok (d\<lparr>df_endpointSettingsModifier := Some g\<rparr>)
     \<and> (\<forall>m. dom (g m) = dom (f m) \<union> dom (modifier (f m))
        \<and> (\<forall>n es. f m n = Some (Some es) \<longrightarrow> (\<exists>es'. g m n = Some (Some es')))
        \<and> (\<forall>n. f m n \<noteq> None \<longrightarrow> modifier (f m) n \<in> {None, Some None} \<longrightarrow> g m n = f m n)
        \<and> (\<forall>n. f m n = None \<longrightarrow> g m n = modifier (f m) n))"
proof -
  let ?g = "merging_modifier merge (df_endpointSettingsModifier d) modifier"
  have g: "?g m = merged_network merge (f m) (modifier (f m))" for m
    by (simp add: merging_modifier_def assms)
  have "dom (?g m) = dom (f m) \<union> dom (modifier (f m))" for m
    unfolding g by (auto simp: merged_network_def dom_def split: option.splits outcome.splits)
  moreover have "\<exists>es'. ?g m n = Some (Some es')" if "f m n = Some (Some es)" for m n es
    unfolding g using that by (auto simp: merged_network_def split: option.splits outcome.splits)
  moreover have "?g m n = f m n" if "f m n \<noteq> None" "modifier (f m) n \<in> {None, Some None}" for m n
    unfolding g using that by (auto simp: merged_network_def split: option.splits)
  moreover have "?g m n = modifier (f m) n" if "f m n = None" for m n
    unfolding g using that by (simp add: merged_network_def)
  ultimately show ?thesis
    by (intro exI [of _ ?g]) (simp add: WithAdditionalEndpointSettingsModifier_def)
qed

theorem additional_endpoint_modifier_keeps_witness:
  "\<exists>g. fst (WithAdditionalEndpointSettingsModifier (\<lambda>a b. Ok a) (\<lambda>m. Map.empty)
        (initial_definition\<lparr>df_endpointSettingsModifier := Some id\<rparr>) (0, ())) =
      Ok (initial_definition\<lparr>df_endpointSettingsModifier := Some g\<rparr> :: (unit, unit) container_definition)
     \<and> g [''n'' \<mapsto> None] ''n'' = Some None"
proof -
  have "df_endpointSettingsModifier (initial_definition\<lparr>df_endpointSettingsModifier := Some id\<rparr> :: (unit, unit) container_definition) = Some id"
    by simp
  from additional_endpoint_modifier_keeps [OF this, of "\<lambda>a b. Ok a" "\<lambda>m. Map.empty" "(0, ())"]
  show ?thesis by (elim exE conjE) (rule exI, rule conjI, simp, simp)
qed

end
