(* ===== verification/Container_Core.thy ===== *)
theory Container_Core
  imports Container_Definition "HOL-Library.Word"
begin

unbundle bit_operations_syntax

text \<open>
  A container object and the operations that only read it and talk to the daemon: \<open>container.go\<close>,
  \<open>inspect.go\<close>, \<open>ports.go\<close>, \<open>container.network.go\<close>, \<open>container.logs.go\<close>, \<open>container.exec.go\<close> and
  \<open>files.go\<close>. With them a container is a target of the wait strategies (\<open>target_of\<close>). The record
  \<open>container_env\<close> holds what is outside the package, and the meaning of the hooks of the user: one on the
  definition may change it, one on the container may set whether it is running.
\<close>


section \<open>The container\<close>

record ('w, 'h) container =
  ct_dockerClient :: "'w sdk"
  ct_containerID :: string
  ct_shortID :: string
  ct_waitingFor :: "'w strategy option"
  ct_image :: string
  ct_exposedPorts :: "string list"
  ct_logger :: "'w logger"
  ct_lifecycleHooks :: "'h lifecycle_hooks list"
  ct_isRunning :: bool

record port_specs =
  ps_ports :: "string list"
  ps_bindings :: "(string \<times> (string \<times> string) list) list"

record ('o, 'w, 'h) container_env =
  ce_image :: "('o, 'w) image_env"
  ce_wait :: "'w wait_lib"
  ce_StdCopy :: std_copy
  ce_platforms_Parse :: "string \<Rightarrow> image_platform outcome"
  ce_IsContainer :: "string \<Rightarrow> bool"
  ce_ParsePortSpecs :: "string list \<Rightarrow> port_specs outcome"
  ce_ParseAddr :: "string \<Rightarrow> string outcome"
  ce_JoinPath :: "string \<Rightarrow> string \<Rightarrow> string outcome"
  ce_tar_header :: "string \<Rightarrow> int \<Rightarrow> err option"
  ce_definition_hook ::
    "'h \<Rightarrow> gctx \<Rightarrow> ('w, 'h) container_definition \<Rightarrow> 'w clocked \<Rightarrow> unit outcome \<times> ('w, 'h) container_definition \<times> 'w clocked"
  ce_container_hook ::
    "'h \<Rightarrow> gctx \<Rightarrow> ('w, 'h) container \<Rightarrow> 'w clocked \<Rightarrow> unit outcome \<times> bool \<times> 'w clocked"

definition ce_sdk :: "('o, 'w, 'h) container_env \<Rightarrow> ('o, 'w) sdk_env" where
  "ce_sdk env = ie_sdk (ce_image env)"

definition ce_ParsePort :: "('o, 'w, 'h) container_env \<Rightarrow> string \<Rightarrow> port outcome" where
  "ce_ParsePort env = he_ParsePort (wl_host (ce_wait env))"

definition ctr_engine :: "('w, 'h) container \<Rightarrow> 'w engine" where
  "ctr_engine c = sk_engine (ct_dockerClient c)"

definition container_ID :: "('w, 'h) container \<Rightarrow> string" where
  "container_ID c = ct_containerID c"

definition Running :: "bool \<Rightarrow> ('w, 'h) container \<Rightarrow> ('w, 'h) container" where
  "Running b c = c\<lparr>ct_isRunning := b\<rparr>"

definition Ctr_Host :: "('o, 'w, 'h) container_env \<Rightarrow> ('w, 'h) container \<Rightarrow> gctx \<Rightarrow> (string, 'w) call" where
  "Ctr_Host env c ctx s = DaemonHost (se_inAContainer (ce_sdk env)) (ctr_engine c) ctx s"

text \<open>Building a container from what the daemon lists.\<close>

definition FromResponse ::
    "('o, 'w, 'h) container_env \<Rightarrow> gctx \<Rightarrow> 'w sdk option \<Rightarrow> container_summary \<Rightarrow> (('w, 'h) container, 'w) call" where
  "FromResponse env ctx dockerClient response s =
     st_wrap ''new docker client'' (sdk_or_default (ce_sdk env) ctx dockerClient s) (\<lambda>cli s.
       (Ok \<lparr>ct_dockerClient = cli, ct_containerID = cs_ID response,
            ct_shortID = (if 12 \<le> length (cs_ID response) then take 12 (cs_ID response) else cs_ID response),
            ct_waitingFor = None, ct_image = cs_Image response,
            ct_exposedPorts = map (\<lambda>(public, private, typ). show_nat public @ ''/'' @ typ)
                                (filter (\<lambda>(public, private, typ). public \<noteq> 0) (cs_Ports response)),
            ct_logger = sk_log cli, ct_lifecycleHooks = [DefaultLoggingHook],
            ct_isRunning = (cs_State response = ''running'')\<rparr>, s))"

definition FromID ::
    "('o, 'w, 'h) container_env \<Rightarrow> gctx \<Rightarrow> 'w sdk option \<Rightarrow> string \<Rightarrow> (('w, 'h) container, 'w) call" where
  "FromID env ctx dockerClient containerID s =
     st_wrap ''new docker client'' (sdk_or_default (ce_sdk env) ctx dockerClient s) (\<lambda>cli s.
     st_wrap ''find container by ID'' (FindContainerByID (sk_engine cli) ctx containerID s) (\<lambda>summary s.
       FromResponse env ctx (Some cli) summary s))"


section \<open>Inspection, networks and ports\<close>

definition Ctr_Inspect :: "('w, 'h) container \<Rightarrow> gctx \<Rightarrow> (container_inspected, 'w) call" where
  "Ctr_Inspect c ctx s = en_ContainerInspect (ctr_engine c) ctx (container_ID c) s"

definition Ctr_State :: "('w, 'h) container \<Rightarrow> gctx \<Rightarrow> (container_state, 'w) call" where
  "Ctr_State c ctx s = st_do (Ctr_Inspect c ctx s) (\<lambda>i s. (Ok (in_State i), s))"

definition ContainerIP :: "('w, 'h) container \<Rightarrow> gctx \<Rightarrow> (string, 'w) call" where
  "ContainerIP c ctx s =
     st_do (Ctr_Inspect c ctx s) (\<lambda>i s.
       (Ok (case in_Networks i of [(n, v)] \<Rightarrow> es_IPAddress v | _ \<Rightarrow> ''''), s))"

definition ContainerIPs :: "('w, 'h) container \<Rightarrow> gctx \<Rightarrow> (string list, 'w) call" where
  "ContainerIPs c ctx s =
     st_do (Ctr_Inspect c ctx s) (\<lambda>i s. (Ok (map (\<lambda>(n, v). es_IPAddress v) (in_Networks i)), s))"

definition Ctr_NetworkAliases :: "('w, 'h) container \<Rightarrow> gctx \<Rightarrow> (string list smap, 'w) call" where
  "Ctr_NetworkAliases c ctx s =
     st_do (Ctr_Inspect c ctx s) (\<lambda>i s. (Ok (map_of (map (\<lambda>(n, v). (n, es_Aliases v)) (in_Networks i))), s))"

definition Ctr_Networks :: "('w, 'h) container \<Rightarrow> gctx \<Rightarrow> (string list, 'w) call" where
  "Ctr_Networks c ctx s = st_do (Ctr_Inspect c ctx s) (\<lambda>i s. (Ok (map fst (in_Networks i)), s))"

text \<open>The loop of \<open>MappedPort\<close> over the ports; the keys of a map are different.\<close>

fun find_binding :: "port \<Rightarrow> (port \<times> port_binding list) list \<Rightarrow> port_binding option" where
  "find_binding p [] = None"
| "find_binding p ((k, bs) # ps) =
     (if k \<noteq> p \<or> bs = [] then find_binding p ps else Some (hd bs))"

definition MappedPort :: "('o, 'w, 'h) container_env \<Rightarrow> ('w, 'h) container \<Rightarrow> gctx \<Rightarrow> port \<Rightarrow> (port, 'w) call" where
  "MappedPort env c ctx p s =
     st_wrap ''inspect'' (Ctr_Inspect c ctx s) (\<lambda>i s.
       if in_NetworkMode i = ''host'' then (Ok p, s)
       else case find_binding p (in_Ports i) of
         Some b \<Rightarrow> (ce_ParsePort env (pb_HostPort b @ ''/'' @ po_proto p), s)
       | None \<Rightarrow> (Err (Class ErrNotFound (''port '' @ show_q (show_port p) @ '' not found'')), s))"

definition PortEndpoint ::
    "('o, 'w, 'h) container_env \<Rightarrow> ('w, 'h) container \<Rightarrow> gctx \<Rightarrow> port \<Rightarrow> string \<Rightarrow> (string, 'w) call" where
  "PortEndpoint env c ctx p proto s =
     st_do (Ctr_Host env c ctx s) (\<lambda>host s.
     st_do (MappedPort env c ctx p s) (\<lambda>outerPort s.
       let hostPort = JoinHostPort host (po_num outerPort) in
       (Ok (if proto = '''' then hostPort else proto @ ''://'' @ hostPort), s)))"

definition Endpoint :: "('o, 'w, 'h) container_env \<Rightarrow> ('w, 'h) container \<Rightarrow> gctx \<Rightarrow> string \<Rightarrow> (string, 'w) call" where
  "Endpoint env c ctx proto s =
     st_do (Ctr_Inspect c ctx s) (\<lambda>i s.
       if in_Ports i = [] then (Err (Class ErrNotFound ''no ports exposed''), s)
       else PortEndpoint env c ctx (lowest_port zero_port (map fst (in_Ports i))) proto s)"


section \<open>Logs\<close>

text \<open>
  The daemon sends the two outputs of a container without a terminal in frames: a byte for the output,
  three reserved bytes, the size of the payload as a big-endian 32-bit integer, and the payload.
\<close>

definition be32 :: "string \<Rightarrow> 32 word" where
  "be32 bs = foldl (\<lambda>w b. push_bit 8 w OR word_of_nat (of_char b)) 0 bs"

definition io_EOF :: string where
  "io_EOF = ''EOF''"

definition ErrUnexpectedEOF :: err where
  "ErrUnexpectedEOF = Sentinel ''unexpected EOF''"

text \<open>How the pipe is closed: without an error at the end of the input.\<close>

definition pipe_error :: "err option \<Rightarrow> err option" where
  "pipe_error closeErr =
     (case closeErr of Some e \<Rightarrow> (if errors_is e io_EOF then None else Some e) | None \<Rightarrow> None)"

text \<open>
  What the reader of the pipe gets, for the bytes that the log stream still has and the error it ends with
  (\<open>None\<close> for its end). \<open>io.ReadFull\<close> tells an end within the header from one before it, \<open>io.CopyN\<close> reports
  an end within the payload as a plain end of file.
\<close>

function parseMultiplexedLogs :: "string \<Rightarrow> err option \<Rightarrow> stream" where
  "parseMultiplexedLogs bs e =
     (if length bs < 8 then
        ('''', pipe_error (case e of Some x \<Rightarrow> Some x
                         | None \<Rightarrow> Some (if bs = [] then Sentinel io_EOF else ErrUnexpectedEOF)))
      else
        let frameSize = unat (be32 (take 4 (drop 4 bs))); rest = drop 8 bs in
        if length rest < frameSize then
          (rest, pipe_error (case e of Some x \<Rightarrow> Some x | None \<Rightarrow> Some (Sentinel io_EOF)))
        else case parseMultiplexedLogs (drop frameSize rest) e of
          (out, closeErr) \<Rightarrow> (take frameSize rest @ out, closeErr))"
  by pat_completeness auto

termination by (relation "measure (\<lambda>(bs, e). length bs)") auto

declare parseMultiplexedLogs.simps [simp del]

definition Logs :: "('w, 'h) container \<Rightarrow> gctx \<Rightarrow> (stream, 'w) call" where
  "Logs c ctx s =
     st_do (en_ContainerLogs (ctr_engine c) ctx (container_ID c) s) (\<lambda>(rc :: stream) s.
     st_wrap ''inspect container'' (Ctr_Inspect c ctx s) (\<lambda>inspect s.
       (Ok (if in_Tty inspect then rc else parseMultiplexedLogs (fst rc) (snd rc)), s)))"

definition printLogs :: "('w, 'h) container \<Rightarrow> gctx \<Rightarrow> err \<Rightarrow> (unit, 'w) call" where
  "printLogs c ctx cause s =
     (case Logs c ctx s of
        (Panic p, s) \<Rightarrow> (Panic p, s)
      | (Err e, s) \<Rightarrow> (Ok (), ct_logger c Error_level ''failed accessing container logs'' [(''error'', err_text e)] s)
      | (Ok (b, Some e), s) \<Rightarrow>
          (Ok (), ct_logger c Error_level ''failed reading container logs''
             ([(''error'', err_text e), (''cause'', err_text cause)] @ (if b \<noteq> '''' then [(''logs'', b)] else [])) s)
      | (Ok (b, None), s) \<Rightarrow>
          (Ok (), ct_logger c Info_level ''container logs'' [(''cause'', err_text cause), (''logs'', b)] s))"


section \<open>Running a command\<close>

definition exec_poll_round :: "'w engine \<Rightarrow> gctx \<Rightarrow> string \<Rightarrow> (unit, int, 'w) rounds" where
  "exec_poll_round en ctx execID u s =
     (case en_ExecInspect en ctx execID s of
        (Err e, s) \<Rightarrow> (Stop (Err (wrapf ''container exec inspect'' e)), s)
      | (Panic p, s) \<Rightarrow> (Stop (Panic p), s)
      | (Ok (running, exitCode), s) \<Rightarrow> (if \<not> running then (Stop (Ok exitCode), s) else (Again (), sleep 100 s)))"

definition Exec ::
    "('w, 'h) container \<Rightarrow> gctx \<Rightarrow> string list \<Rightarrow> process_option option list \<Rightarrow> (int \<times> stream option, 'w) call" where
  "Exec c ctx cmd options s =
     after_options (Apply_all options (NewProcessOptions cmd)) s (\<lambda>po s.
     st_wrap ''container exec create'' (en_ExecCreate (ctr_engine c) ctx (container_ID c) (pr_ExecConfig po) s)
       (\<lambda>execID s.
     st_wrap ''container exec attach'' (en_ExecAttach (ctr_engine c) ctx execID s) (\<lambda>reader s.
     after_options (Apply_all options (po\<lparr>pr_Reader := Some reader\<rparr>)) s (\<lambda>po s.
     st_do (poll (exec_poll_round (ctr_engine c) ctx execID) () s) (\<lambda>exitCode s.
       (Ok (exitCode, pr_Reader po), s))))))"


section \<open>Files\<close>

definition validate_file :: "sdk_file \<Rightarrow> err option" where
  "validate_file f =
     (if fi_Reader f = None \<and> fi_HostPath f = '''' then Some (Msg ''reader or host path must be specified'')
      else if fi_ContainerPath f = '''' then Some (Msg ''container path must be specified'')
      else None)"

text \<open>What a reader of the file gets.\<close>

definition Ctr_CopyFromContainer :: "('w, 'h) container \<Rightarrow> gctx \<Rightarrow> string \<Rightarrow> (stream, 'w) call" where
  "Ctr_CopyFromContainer c ctx containerFilePath s =
     st_do (en_CopyFromContainer (ctr_engine c) ctx (container_ID c) containerFilePath s) (\<lambda>(entries, bad) s.
       case entries of
         (name, mode, content) # es \<Rightarrow> (Ok content, s)
       | [] \<Rightarrow> (Err (case bad of Some e \<Rightarrow> e | None \<Rightarrow> Sentinel io_EOF), s))"

definition isDir :: "node \<Rightarrow> string \<Rightarrow> bool outcome" where
  "isDir disk p =
     (case node_at disk (path_of p) of
        Inl e \<Rightarrow> Err (os_error e)
      | Inr (DirN es) \<Rightarrow> Ok True
      | Inr (FileN c) \<Rightarrow> Ok False)"

text \<open>
  \<open>filepath.Walk\<close> from \<open>file\<close> on, with the entry it writes for each file or directory; the entries of a
  directory are listed in the lexical order in which it is walked.
\<close>

definition child_path :: "string \<Rightarrow> string \<Rightarrow> string" where
  "child_path file x = (if file = ''/'' then ''/'' @ x else file @ ''/'' @ x)"

fun tar_walk :: "nat \<Rightarrow> int \<Rightarrow> string \<Rightarrow> node \<Rightarrow> archive" where
  "tar_walk index fileMode file (FileN c) = [(drop index file, fileMode, Some c)]"
| "tar_walk index fileMode file (DirN es) =
     (drop index file, fileMode, None)
       # concat (map (\<lambda>(x, n). tar_walk index fileMode (child_path file x) n) es)"

text \<open>The last component of a path, and where it starts.\<close>

definition base_index :: "string \<Rightarrow> nat" where
  "base_index src = length src - length (takeWhile (\<lambda>c. c \<noteq> CHR ''/'') (rev src))"

fun first_header_error :: "(string \<Rightarrow> int \<Rightarrow> err option) \<Rightarrow> archive \<Rightarrow> err option" where
  "first_header_error check [] = None"
| "first_header_error check ((name, mode, content) # es) =
     (case check name mode of Some e \<Rightarrow> Some e | None \<Rightarrow> first_header_error check es)"

definition tarDir :: "('o, 'w, 'h) container_env \<Rightarrow> 'w logger \<Rightarrow> string \<Rightarrow> int \<Rightarrow> (archive, 'w) call" where
  "tarDir env logger src fileMode s =
     st_wrap ''error getting absolute path'' (ie_abs (ce_image env) src, s) (\<lambda>src s.
       (case node_at (se_disk (ce_sdk env)) (path_of src) of
          Inl e \<Rightarrow> Err (wrapf ''walk the file system'' (os_error e))
        | Inr n \<Rightarrow>
            (let entries = tar_walk (base_index src) fileMode src n in
             case first_header_error (ce_tar_header env) entries of
               Some e \<Rightarrow> Err (wrapf ''write header'' e)
             | None \<Rightarrow> Ok entries),
        logger Info_level ''creating TAR file'' [(''src'', src)] s))"

definition tarFile :: "('o, 'w, 'h) container_env \<Rightarrow> string \<Rightarrow> string \<Rightarrow> int \<Rightarrow> archive outcome" where
  "tarFile env basePath fileContent fileMode =
     (case ce_tar_header env basePath fileMode of
        Some e \<Rightarrow> Err (wrapf ''write header'' e)
      | None \<Rightarrow> Ok [(basePath, fileMode, Some fileContent)])"

definition CopyDirToContainer ::
    "('o, 'w, 'h) container_env \<Rightarrow> ('w, 'h) container \<Rightarrow> gctx \<Rightarrow> string \<Rightarrow> string \<Rightarrow> int \<Rightarrow> (unit, 'w) call" where
  "CopyDirToContainer env c ctx hostDirPath containerFilePath fileMode s =
     st_wrap ''is dir'' (isDir (se_disk (ce_sdk env)) hostDirPath, s) (\<lambda>dir s.
       if \<not> dir then (Err (Msg (''path '' @ hostDirPath @ '' is not a directory'')), s)
       else st_wrap ''tar dir'' (tarDir env (ct_logger c) hostDirPath fileMode s) (\<lambda>buffer s.
           st_wrap ''copy to container''
             (en_CopyToContainer (ctr_engine c) ctx (container_ID c) (path_Dir containerFilePath) buffer s)
             (\<lambda>_ s. (Ok (), s))))"

definition CopyToContainer ::
    "('o, 'w, 'h) container_env \<Rightarrow> ('w, 'h) container \<Rightarrow> gctx \<Rightarrow> string \<Rightarrow> string \<Rightarrow> int \<Rightarrow> (unit, 'w) call" where
  "CopyToContainer env c ctx fileContent containerFilePath fileMode s =
     st_wrap ''tar file'' (tarFile env containerFilePath fileContent fileMode, s) (\<lambda>buffer s.
       st_wrap ''copy to container'' (en_CopyToContainer (ctr_engine c) ctx (container_ID c) ''/'' buffer s)
         (\<lambda>_ s. (Ok (), s)))"


section \<open>A container as a target of the wait strategies\<close>

definition target_of :: "('o, 'w, 'h) container_env \<Rightarrow> ('w, 'h) container \<Rightarrow> 'w target" where
  "target_of env c =
     \<lparr>tg_Host = Ctr_Host env c, tg_Inspect = Ctr_Inspect c, tg_MappedPort = MappedPort env c, tg_Logs = Logs c,
      tg_Exec = (\<lambda>ctx cmd multiplexed s.
        st_do (Exec c ctx cmd (if multiplexed then [Some (Multiplexed (ce_StdCopy env))] else []) s)
          (\<lambda>(exitCode, reader) s. (Ok (exitCode, case reader of Some (b, e) \<Rightarrow> b | None \<Rightarrow> ''''), s))),
      tg_State = Ctr_State c, tg_CopyFromContainer = Ctr_CopyFromContainer c\<rparr>"


section \<open>Multiplexed logs\<close>

text \<open>A frame: the output it belongs to and its payload.\<close>

definition size_bytes :: "nat \<Rightarrow> string" where
  "size_bytes n = map char_of [n div 2 ^ 24, n div 2 ^ 16, n div 2 ^ 8, n]"

definition frame :: "nat \<times> string \<Rightarrow> string" where
  "frame f = [char_of (fst f), CHR 0x00, CHR 0x00, CHR 0x00] @ size_bytes (length (snd f)) @ snd f"

lemma length_size_bytes [simp]: "length (size_bytes n) = 4"
  by (simp add: size_bytes_def)

lemma push_or_byte:
  assumes "unat w < 2 ^ 24" and "b < 256"
  shows "unat (push_bit 8 w OR word_of_nat b :: 32 word) = 256 * unat w + b"
proof -
  have b: "take_bit 8 b = b" using assms(2) by (simp add: take_bit_eq_mod)
  have "unat (w * 256) = unat w * 256" using unat_mult_lem [of w 256] assms(1) by simp
  then have "unat (push_bit 8 w) = push_bit 8 (unat w)" by (simp add: push_bit_eq_mult)
  moreover have "unat (word_of_nat b :: 32 word) = b"
    using assms(2) by (simp add: unat_of_nat)
  ultimately have "unat (push_bit 8 w OR word_of_nat b) = push_bit 8 (unat w) OR b"
    by (simp add: unsigned_or_eq)
  also have "\<dots> = push_bit 8 (unat w) + b"
  proof (rule disjunctive_add [symmetric])
    fix n
    have "bit b n \<Longrightarrow> n < 8" using bit_take_bit_iff [of 8 b n] b by simp
    then show "\<not> bit (push_bit 8 (unat w)) n \<or> \<not> bit b n" by (auto simp: bit_push_bit_iff)
  qed
  finally show ?thesis by (simp add: push_bit_eq_mult)
qed

lemma size_bytes_sum:
  fixes n :: nat
  shows "256 * (256 * (256 * (n div 2 ^ 24 mod 256) + n div 2 ^ 16 mod 256) + n div 2 ^ 8 mod 256) + n mod 256 = n mod 2 ^ 32"
proof -
  have 1: "n mod 2 ^ 32 = 256 * (n div 2 ^ 8 mod 2 ^ 24) + n mod 256"
    using mod_mult2_eq [of n 256 "2 ^ 24"] by simp
  have 2: "n div 2 ^ 8 mod 2 ^ 24 = 256 * (n div 2 ^ 16 mod 2 ^ 16) + n div 2 ^ 8 mod 256"
    using mod_mult2_eq [of "n div 2 ^ 8" 256 "2 ^ 16"] by (simp add: div_mult2_eq [symmetric])
  have 3: "n div 2 ^ 16 mod 2 ^ 16 = 256 * (n div 2 ^ 24 mod 256) + n div 2 ^ 16 mod 256"
    using mod_mult2_eq [of "n div 2 ^ 16" 256 256] by (simp add: div_mult2_eq [symmetric])
  show ?thesis unfolding 1 2 3 ..
qed

lemma two_bytes: "a < 256 \<Longrightarrow> b < 256 \<Longrightarrow> 256 * a + b < (2 ^ 16 :: nat)"
  by simp

lemma three_bytes: "a < 2 ^ 16 \<Longrightarrow> b < 256 \<Longrightarrow> 256 * a + b < (2 ^ 24 :: nat)"
  by simp

lemma unat_be32:
  assumes "b1 < 256" "b2 < 256" "b3 < 256" "b4 < (256 :: nat)"
  shows "unat (be32 [char_of b1, char_of b2, char_of b3, char_of b4]) = 256 * (256 * (256 * b1 + b2) + b3) + b4"
proof -
  let ?w1 = "word_of_nat b1 :: 32 word"
  let ?w2 = "push_bit 8 ?w1 OR word_of_nat b2 :: 32 word"
  let ?w3 = "push_bit 8 ?w2 OR word_of_nat b3 :: 32 word"
  have eq: "be32 [char_of b1, char_of b2, char_of b3, char_of b4] = push_bit 8 ?w3 OR word_of_nat b4"
    using assms by (simp add: be32_def)
  have u1: "unat ?w1 = b1" using assms by (simp add: unat_of_nat)
  from u1 assms have u2: "unat ?w2 = 256 * b1 + b2" by (subst push_or_byte) simp_all
  from u2 assms two_bytes [of b1 b2] have u3: "unat ?w3 = 256 * (256 * b1 + b2) + b3"
    by (subst push_or_byte) simp_all
  from three_bytes [OF two_bytes [OF assms(1,2)] assms(3)] have "unat ?w3 < 2 ^ 24" unfolding u3 .
  from push_or_byte [OF this assms(4)] show ?thesis unfolding eq u3 .
qed

lemma unat_be32_size [simp]:
  assumes "n < 2 ^ 32"
  shows "unat (be32 (size_bytes n)) = n"
proof -
  have c: "char_of m = (char_of (m mod 256) :: char)" for m :: nat by simp
  have "size_bytes n = [char_of (n div 2 ^ 24 mod 256), char_of (n div 2 ^ 16 mod 256), char_of (n div 2 ^ 8 mod 256), char_of (n mod 256)]"
    unfolding size_bytes_def list.map c [symmetric] ..
  note bytes = this
  have b: "k mod 256 < 256" for k :: nat by simp
  have "unat (be32 (size_bytes n)) =
      256 * (256 * (256 * (n div 2 ^ 24 mod 256) + n div 2 ^ 16 mod 256) + n div 2 ^ 8 mod 256) + n mod 256"
    unfolding bytes by (rule unat_be32 [OF b b b b])
  then show ?thesis unfolding size_bytes_sum using assms by (simp only: mod_less)
qed

lemma parse_frame:
  assumes "length (snd f) < 2 ^ 32"
  shows "parseMultiplexedLogs (frame f @ bs) e =
     (case parseMultiplexedLogs bs e of (out, closeErr) \<Rightarrow> (snd f @ out, closeErr))"
proof -
  have "take 4 (drop 4 (frame f @ bs)) = size_bytes (length (snd f))" "drop 8 (frame f @ bs) = snd f @ bs"
    "8 \<le> length (frame f @ bs)"
    by (simp_all add: frame_def)
  with assms show ?thesis by (subst parseMultiplexedLogs.simps) (simp add: Let_def)
qed

lemma parse_frames:
  assumes "\<forall>f\<in>set fs. length (snd f) < 2 ^ 32"
  shows "parseMultiplexedLogs (concat (map frame fs) @ bs) e =
     (case parseMultiplexedLogs bs e of (out, closeErr) \<Rightarrow> (concat (map snd fs) @ out, closeErr))"
  using assms
proof (induction fs)
  case (Cons f fs)
  then show ?case using parse_frame [of f "concat (map frame fs) @ bs" e] by (simp split: prod.splits)
qed (simp split: prod.split)

lemma parse_cut_header:
  "0 < length bs \<Longrightarrow> length bs < 8 \<Longrightarrow> parseMultiplexedLogs bs None = ('''', Some ErrUnexpectedEOF)"
  by (subst parseMultiplexedLogs.simps) (auto simp: pipe_error_def ErrUnexpectedEOF_def io_EOF_def)

lemma parse_cut_payload:
  assumes "length (snd f) < 2 ^ 32" and "m < length (snd f)"
  shows "parseMultiplexedLogs (take (8 + m) (frame f)) None = (take m (snd f), None)"
proof -
  let ?h = "[char_of (fst f), CHR 0x00, CHR 0x00, CHR 0x00] @ size_bytes (length (snd f))"
  have h: "length ?h = 8" by simp
  have "take (length ?h + m) (?h @ snd f) = ?h @ take m (snd f)" by (simp only: take_append take_all_iff) simp
  then have "take (8 + m) (frame f) = [char_of (fst f), CHR 0x00, CHR 0x00, CHR 0x00] @ size_bytes (length (snd f)) @ take m (snd f)"
    unfolding h frame_def by (simp only: append_assoc)
  then have "take 4 (drop 4 (take (8 + m) (frame f))) = size_bytes (length (snd f))"
    "drop 8 (take (8 + m) (frame f)) = take m (snd f)" "(length (take (8 + m) (frame f)) < 8) = False"
    by simp_all
  moreover have "(length (take m (snd f)) < length (snd f)) = True" using assms(2) by simp
  ultimately show ?thesis
    by (subst parseMultiplexedLogs.simps)
      (simp only: Let_def if_False if_True unat_be32_size [OF assms(1)], simp add: pipe_error_def)
qed

lemma parse_empty [simp]: "parseMultiplexedLogs [] None = ('''', None)"
  by (subst parseMultiplexedLogs.simps) (simp add: pipe_error_def)

text \<open>
  C15: the logs of a container without a terminal, read to their end, are the payloads of the frames that
  the daemon sent, of both outputs and in their order. When the stream ends early, what was complete is
  still read: an end within a header is an unexpected end of file, but an end within a payload is taken
  for the end of the logs.
\<close>

theorem Logs_demultiplexed:
  assumes logs: "en_ContainerLogs (ctr_engine c) ctx (container_ID c) s = (Ok (concat (map frame fs) @ left, None), s1)"
    and tty: "Ctr_Inspect c ctx s1 = (Ok i, s2)" "\<not> in_Tty i"
    and small: "\<forall>f\<in>set fs. length (snd f) < 2 ^ 32" "length (snd g) < 2 ^ 32"
    and early: "left = take m (frame g)" "m < length (frame g)"
  shows "Logs c ctx s =
     (Ok (concat (map snd fs) @ take (m - 8) (snd g), if 0 < m \<and> m < 8 then Some ErrUnexpectedEOF else None), s2)"
proof -
  have len: "length (frame g) = 8 + length (snd g)" by (simp add: frame_def)
  have "parseMultiplexedLogs left None = (take (m - 8) (snd g), if 0 < m \<and> m < 8 then Some ErrUnexpectedEOF else None)"
  proof (cases "m < 8")
    case True
    with early len show ?thesis by (cases "m = 0") (simp_all add: parse_cut_header)
  next
    case False
    with early len small(2) parse_cut_payload [of g "m - 8"] show ?thesis by simp
  qed
  then have "parseMultiplexedLogs (concat (map frame fs) @ left) None =
      (concat (map snd fs) @ take (m - 8) (snd g), if 0 < m \<and> m < 8 then Some ErrUnexpectedEOF else None)"
    using parse_frames [OF small(1), of left None] by (simp only: prod.case)
  with logs tty show ?thesis by (simp add: Logs_def)
qed

definition demo_inspected :: container_inspected where
  "demo_inspected = \<lparr>in_NetworkMode = ''bridge'', in_Ports = [], in_Networks = [], in_Tty = False,
     in_State = \<lparr>st_Status = ''running'', st_Running = True, st_ExitCode = 0, st_OOMKilled = False, st_Health = None\<rparr>\<rparr>"

definition demo_container :: "'w engine \<Rightarrow> ('w, 'h) container" where
  "demo_container en =
     \<lparr>ct_dockerClient = \<lparr>sk_engine = en, sk_log = discard_logger\<rparr>, ct_containerID = ''0123456789abcdef'',
      ct_shortID = ''0123456789ab'', ct_waitingFor = None, ct_image = ''alpine'', ct_exposedPorts = [],
      ct_logger = discard_logger, ct_lifecycleHooks = [], ct_isRunning = False\<rparr>"

theorem Logs_demultiplexed_witness:
  "Logs (demo_container (demo_engine\<lparr>en_ContainerInspect := (\<lambda>_ _ s. (Ok demo_inspected, s)),
           en_ContainerLogs := (\<lambda>_ _ s. (Ok (frame (1, ''out'') @ frame (2, ''err'') @ take 10 (frame (1, ''lost'')), None), s))\<rparr>))
      Background (0, ()) = (Ok (''outerrlo'', None), (0, ()))"
proof -
  let ?c = "demo_container (demo_engine\<lparr>en_ContainerInspect := (\<lambda>_ _ s. (Ok demo_inspected, s)),
           en_ContainerLogs := (\<lambda>_ _ s. (Ok (frame (1, ''out'') @ frame (2, ''err'') @ take 10 (frame (1, ''lost'')), None), s))\<rparr>)"
  have "en_ContainerLogs (ctr_engine ?c) Background (container_ID ?c) (0, ()) =
      (Ok (concat (map frame [(1, ''out''), (2, ''err'')]) @ take 10 (frame (1, ''lost'')), None), (0, ()))"
    "Ctr_Inspect ?c Background (0, ()) = (Ok demo_inspected, (0, ()))" "\<not> in_Tty demo_inspected"
    by (simp_all add: demo_container_def ctr_engine_def Ctr_Inspect_def demo_inspected_def)
  from Logs_demultiplexed [OF this, of "(1, ''lost'')" 10] show ?thesis by (simp add: frame_def)
qed

end
