(* ===== verification/Container_Lifecycle.thy ===== *)
theory Container_Lifecycle
  imports Container_Core
begin

text \<open>
  The life of a container: running the hooks (\<open>lifecycle.go\<close> and its files for create, start, stop and
  terminate), creating and starting one (\<open>container.run.go\<close>, \<open>container.start.go\<close>), stopping it
  (\<open>container.stop.go\<close>) and removing it with its volumes (\<open>container.terminate.go\<close>). The state is the
  container, or before it exists the definition and the request that the hooks fill in, next to the
  clocked world.
\<close>


section \<open>Running hooks\<close>

text \<open>
  \<open>for ... { if err := ...; err != nil { errs = append(errs, err) } }; return errors.Join(errs...)\<close>: every
  item is run, whatever the ones before it returned.
\<close>

fun run_all :: "('x \<Rightarrow> 's \<Rightarrow> unit outcome \<times> 's) \<Rightarrow> 'x list \<Rightarrow> err list \<Rightarrow> 's \<Rightarrow> unit outcome \<times> 's" where
  "run_all f [] errs s = ((if errs = [] then Ok () else Err (Join errs)), s)"
| "run_all f (x # xs) errs s =
     (case f x s of
        (Ok _, s') \<Rightarrow> run_all f xs errs s'
      | (Err e, s') \<Rightarrow> run_all f xs (errs @ [e]) s'
      | (Panic p, s') \<Rightarrow> (Panic p, s'))"

type_synonym ('a, 'w, 'h) on_container =
  "('w, 'h) container \<times> 'w clocked \<Rightarrow> 'a outcome \<times> ('w, 'h) container \<times> 'w clocked"

text \<open>A call that leaves the container as it is.\<close>

definition reading :: "(('w, 'h) container \<Rightarrow> ('a, 'w) call) \<Rightarrow> ('a, 'w, 'h) on_container" where
  "reading f cs = (case cs of (c, s) \<Rightarrow> case f c s of (r, s') \<Rightarrow> (r, c, s'))"

definition running :: "bool \<Rightarrow> ('w, 'h) container \<times> 'w clocked \<Rightarrow> ('w, 'h) container \<times> 'w clocked" where
  "running b cs = (case cs of (c, s) \<Rightarrow> (Running b c, s))"

text \<open>The content of a file to copy, or \<open>None\<close> for a directory of the host.\<close>

definition file_content :: "('o, 'w, 'h) container_env \<Rightarrow> sdk_file \<Rightarrow> string option outcome" where
  "file_content env f =
     (case fi_Reader f of
        Some bs \<Rightarrow> Ok (Some bs)
      | None \<Rightarrow>
          then_do (isDir (se_disk (ce_sdk env)) (fi_HostPath f)) (\<lambda>dir.
            if dir then Ok None
            else case read_file (se_disk (ce_sdk env)) (path_of (fi_HostPath f)) of
              Inl e \<Rightarrow> Err (wrapf ''read file'' (os_error e))
            | Inr bs \<Rightarrow> Ok (Some bs)))"

fun copy_files ::
    "('o, 'w, 'h) container_env \<Rightarrow> ('w, 'h) container \<Rightarrow> gctx \<Rightarrow> sdk_file list \<Rightarrow> (unit, 'w) call" where
  "copy_files env c ctx [] s = (Ok (), s)"
| "copy_files env c ctx (f # fs) s =
     (case validate_file f of
        Some e \<Rightarrow> (Err (wrapf ''invalid file'' e), s)
      | None \<Rightarrow>
          st_do (file_content env f, s) (\<lambda>content s.
            case content of
              None \<Rightarrow>
                st_wrap ''copy dir to container''
                  (CopyDirToContainer env c ctx (fi_HostPath f) (fi_ContainerPath f) (fi_Mode f) s)
                  (\<lambda>_ s. copy_files env c ctx fs s)
            | Some bs \<Rightarrow>
                st_wrap (''copy to container at '' @ fi_ContainerPath f)
                  (CopyToContainer env c ctx bs (fi_ContainerPath f) (fi_Mode f) s)
                  (\<lambda>_ s. copy_files env c ctx fs s)))"

text \<open>\<open>strategyDesc\<close>: a strategy of the user may have no \<open>String\<close>.\<close>

definition strategy_desc :: "'w strategy \<Rightarrow> string outcome" where
  "strategy_desc strategy =
     (case strategy of
        SCustom c \<Rightarrow> Ok (case cu_String c of Some desc \<Rightarrow> desc | None \<Rightarrow> ''unknown strategy'')
      | _ \<Rightarrow> String_of strategy)"

definition await_ready :: "('o, 'w, 'h) container_env \<Rightarrow> gctx \<Rightarrow> (unit, 'w, 'h) on_container" where
  "await_ready env ctx cs =
     (case cs of (c, s) \<Rightarrow>
        case ct_waitingFor c of
          None \<Rightarrow> (Ok (), running True cs)
        | Some strategy \<Rightarrow>
            (case strategy_desc strategy of
               Panic p \<Rightarrow> (Panic p, cs)
             | Err e \<Rightarrow> (Err e, cs)
             | Ok strategyDesc \<Rightarrow>
                 (let s = ct_logger c Info_level ''Waiting for container to be ready''
                            [(''containerID'', ct_shortID c), (''image'', ct_image c), (''strategy'', strategyDesc)] s in
                  st_wrap ''wait until ready''
                    (reading (\<lambda>c. WaitUntilReady (ce_wait env) strategy ctx (target_of env c)) (c, s))
                    (\<lambda>_ cs. (Ok (), running True cs)))))"

fun run_hook :: "('o, 'w, 'h) container_env \<Rightarrow> gctx \<Rightarrow> 'h container_hook \<Rightarrow> (unit, 'w, 'h) on_container" where
  "run_hook env ctx (LogHook msg) (c, s) = (Ok (), c, ct_logger c Info_level msg [(''containerID'', ct_shortID c)] s)"
| "run_hook env ctx (CopyFiles files) cs = reading (\<lambda>c. copy_files env c ctx files) cs"
| "run_hook env ctx AwaitReady cs = await_ready env ctx cs"
| "run_hook env ctx (RunExecutable x) cs =
     st_do (reading (\<lambda>c. Exec c ctx (AsCommand x) (Options x)) cs) (\<lambda>_ cs. (Ok (), cs))"
| "run_hook env ctx (UserHook h) (c, s) =
     (case ce_container_hook env h ctx c s of (r, b, s') \<Rightarrow> (r, Running b c, s'))"

definition applyContainerHooks ::
    "('o, 'w, 'h) container_env \<Rightarrow> gctx \<Rightarrow> 'h container_hook list \<Rightarrow> (unit, 'w, 'h) on_container" where
  "applyContainerHooks env ctx hooks cs = run_all (run_hook env ctx) hooks [] cs"

text \<open>The hooks of every set; when one failed and \<open>logError\<close>, the logs are printed, in a new context when the given one is done.\<close>

definition applyLifecycleHooks ::
    "('o, 'w, 'h) container_env \<Rightarrow> gctx \<Rightarrow> bool \<Rightarrow> ('h lifecycle_hooks \<Rightarrow> 'h container_hook list) \<Rightarrow> (unit, 'w, 'h) on_container" where
  "applyLifecycleHooks env ctx logError sel cs =
     (case run_all (\<lambda>h. applyContainerHooks env ctx (sel h)) (ct_lifecycleHooks (fst cs)) [] cs of
        (Err e, cs) \<Rightarrow>
          (if logError then
             (let now = fst (snd cs);
                  logCtx = (if ctx_err ctx now \<noteq> None then WithTimeout Background now 5000 else ctx) in
              st_do (reading (\<lambda>c. printLogs c logCtx e) cs) (\<lambda>_ cs. (Err e, cs)))
           else (Err e, cs))
      | r \<Rightarrow> r)"

definition createdHook :: "('o, 'w, 'h) container_env \<Rightarrow> gctx \<Rightarrow> (unit, 'w, 'h) on_container" where
  "createdHook env ctx = applyLifecycleHooks env ctx False PostCreates"

definition startingHook :: "('o, 'w, 'h) container_env \<Rightarrow> gctx \<Rightarrow> (unit, 'w, 'h) on_container" where
  "startingHook env ctx = applyLifecycleHooks env ctx True PreStarts"

definition startedHook :: "('o, 'w, 'h) container_env \<Rightarrow> gctx \<Rightarrow> (unit, 'w, 'h) on_container" where
  "startedHook env ctx = applyLifecycleHooks env ctx True PostStarts"

definition readiedHook :: "('o, 'w, 'h) container_env \<Rightarrow> gctx \<Rightarrow> (unit, 'w, 'h) on_container" where
  "readiedHook env ctx = applyLifecycleHooks env ctx True PostReadies"

definition stoppingHook :: "('o, 'w, 'h) container_env \<Rightarrow> gctx \<Rightarrow> (unit, 'w, 'h) on_container" where
  "stoppingHook env ctx = applyLifecycleHooks env ctx False PreStops"

definition stoppedHook :: "('o, 'w, 'h) container_env \<Rightarrow> gctx \<Rightarrow> (unit, 'w, 'h) on_container" where
  "stoppedHook env ctx = applyLifecycleHooks env ctx False PostStops"

definition terminatingHook :: "('o, 'w, 'h) container_env \<Rightarrow> gctx \<Rightarrow> (unit, 'w, 'h) on_container" where
  "terminatingHook env ctx = applyLifecycleHooks env ctx False PreTerminates"

definition terminatedHook :: "('o, 'w, 'h) container_env \<Rightarrow> gctx \<Rightarrow> (unit, 'w, 'h) on_container" where
  "terminatedHook env ctx = applyLifecycleHooks env ctx False PostTerminates"


section \<open>Starting and stopping\<close>

text \<open>\<open>defer c.dockerClient.Close()\<close>: its error is dropped.\<close>

definition closing_client ::
    "'a outcome \<times> ('w, 'h) container \<times> 'w clocked \<Rightarrow> 'a outcome \<times> ('w, 'h) container \<times> 'w clocked" where
  "closing_client r = (case r of (x, c, s) \<Rightarrow> (x, c, snd (en_Close (ctr_engine c) s)))"

definition Start :: "('o, 'w, 'h) container_env \<Rightarrow> gctx \<Rightarrow> (unit, 'w, 'h) on_container" where
  "Start env ctx cs =
     st_wrap ''starting hook'' (startingHook env ctx cs) (\<lambda>_ cs.
     st_wrap ''container start'' (reading (\<lambda>c. en_ContainerStart (ctr_engine c) ctx (container_ID c)) cs) (\<lambda>_ cs.
     closing_client (
       st_wrap ''started hook'' (startedHook env ctx cs) (\<lambda>_ cs.
       st_wrap ''readied hook'' (readiedHook env ctx (running True cs)) (\<lambda>_ cs. (Ok (), cs))))))"

text \<open>A timeout is in nanoseconds; \<open>int(d.Seconds())\<close> cuts the fraction off.\<close>

record stop_options =
  sp_ctx :: gctx
  sp_stopTimeout :: int

type_synonym stop_option = "stop_options \<Rightarrow> stop_options"

definition StopTimeout :: "int \<Rightarrow> stop_option" where
  "StopTimeout timeout c = c\<lparr>sp_stopTimeout := timeout\<rparr>"

definition NewStopOptions :: "gctx \<Rightarrow> stop_option list \<Rightarrow> stop_options" where
  "NewStopOptions ctx opts = fold (\<lambda>opt o'. opt o') opts \<lparr>sp_ctx = ctx, sp_stopTimeout = 10 * 10 ^ 9\<rparr>"

definition whole_seconds :: "int \<Rightarrow> int" where
  "whole_seconds d = (if d < 0 then - (- d div 10 ^ 9) else d div 10 ^ 9)"

definition Stop_container :: "('o, 'w, 'h) container_env \<Rightarrow> gctx \<Rightarrow> stop_option list \<Rightarrow> (unit, 'w, 'h) on_container" where
  "Stop_container env ctx0 opts cs =
     (let stopOptions = NewStopOptions ctx0 opts; ctx = sp_ctx stopOptions in
      st_wrap ''stopping hook'' (stoppingHook env ctx cs) (\<lambda>_ cs.
      st_wrap ''container stop''
        (reading (\<lambda>c. en_ContainerStop (ctr_engine c) ctx (container_ID c) (whole_seconds (sp_stopTimeout stopOptions))) cs)
        (\<lambda>_ cs.
      st_wrap ''stopped hook'' (stoppedHook env ctx (running False cs)) (\<lambda>_ cs. (Ok (), cs)))))"


section \<open>Terminating\<close>

record terminate_options =
  tm_StopOptions :: stop_options
  tm_volumes :: "string list"

type_synonym terminate_option = "terminate_options \<Rightarrow> terminate_options"

definition TerminateTimeout :: "int \<Rightarrow> terminate_option" where
  "TerminateTimeout timeout c = c\<lparr>tm_StopOptions := (tm_StopOptions c)\<lparr>sp_stopTimeout := timeout\<rparr>\<rparr>"

definition RemoveVolumes :: "string list \<Rightarrow> terminate_option" where
  "RemoveVolumes volumes c = c\<lparr>tm_volumes := volumes\<rparr>"

definition NewTerminateOptions :: "gctx \<Rightarrow> terminate_option list \<Rightarrow> terminate_options" where
  "NewTerminateOptions ctx opts =
     fold (\<lambda>opt o'. opt o') opts \<lparr>tm_StopOptions = NewStopOptions ctx [], tm_volumes = []\<rparr>"

text \<open>Every volume is tried; \<open>%q\<close> of the name is kept with the error.\<close>

definition remove_volume :: "'w engine \<Rightarrow> gctx \<Rightarrow> string \<Rightarrow> (unit, 'w) call" where
  "remove_volume en ctx volume s =
     st_wrap (''volume remove '' @ show_q volume) (en_VolumeRemove en ctx volume True s) (\<lambda>_ s. (Ok (), s))"

definition Cleanup_volumes :: "terminate_options \<Rightarrow> 'w engine \<Rightarrow> (unit, 'w) call" where
  "Cleanup_volumes opts en s = run_all (remove_volume en (sp_ctx (tm_StopOptions opts))) (tm_volumes opts) [] s"

text \<open>A call whose error is kept for later.\<close>

definition keep_err :: "'a outcome \<times> 's \<Rightarrow> (err option \<Rightarrow> 's \<Rightarrow> 'b outcome \<times> 's) \<Rightarrow> 'b outcome \<times> 's" where
  "keep_err c k = (case c of (Ok x, s) \<Rightarrow> k None s | (Err e, s) \<Rightarrow> k (Some e) s | (Panic p, s) \<Rightarrow> (Panic p, s))"

definition of_err :: "err option \<Rightarrow> unit outcome" where
  "of_err e = (case e of None \<Rightarrow> Ok () | Some x \<Rightarrow> Err x)"

definition isCleanupSafe_container :: "err option \<Rightarrow> bool" where
  "isCleanupSafe_container = isCleanupSafe ''container''"

definition Terminate :: "('o, 'w, 'h) container_env \<Rightarrow> gctx \<Rightarrow> terminate_option list \<Rightarrow> (unit, 'w, 'h) on_container" where
  "Terminate env ctx0 opts cs =
     (let options = NewTerminateOptions ctx0 opts in
      keep_err (Stop_container env (sp_ctx (tm_StopOptions options))
                  [StopTimeout (sp_stopTimeout (tm_StopOptions options))] cs) (\<lambda>err cs.
      if \<not> isCleanupSafe_container err then (of_err (map_option (wrapf ''stop'') err), cs)
      else
      keep_err (terminatingHook env ctx0 cs) (\<lambda>err1 cs.
      keep_err (reading (\<lambda>c. en_ContainerRemove (ctr_engine c) ctx0 (container_ID c) by_force) cs) (\<lambda>err2 cs.
      keep_err (terminatedHook env ctx0 cs) (\<lambda>err3 cs.
      keep_err (reading (\<lambda>c. Cleanup_volumes options (ctr_engine c)) (running False cs)) (\<lambda>err4 cs.
        (of_err (errors_join [err1, err2, err3, err4]), cs)))))))"

text \<open>The function \<open>Terminate\<close> of the package, which does nothing for a nil container.\<close>

definition Terminate_safely ::
    "('o, 'w, 'h) container_env \<Rightarrow> terminate_option list
       \<Rightarrow> ('w, 'h) container option \<times> 'w clocked \<Rightarrow> unit outcome \<times> ('w, 'h) container option \<times> 'w clocked" where
  "Terminate_safely env options os =
     (case os of
        (None, s) \<Rightarrow> (Ok (), None, s)
      | (Some c, s) \<Rightarrow>
          (case Terminate env Background options (c, s) of
             (Err e, c', s') \<Rightarrow>
               (if isCleanupSafe_container (Some e) then Ok () else Err (wrapf ''terminate'' e), Some c', s')
           | (r, c', s') \<Rightarrow> (r, Some c', s')))"



section \<open>What all hooks keep\<close>

text \<open>
  The contract of a loop that runs everything: what every step keeps, the loop keeps; and when it
  succeeds, every step succeeded, each from the state that the one before it left.
\<close>

fun in_turn :: "('x \<Rightarrow> 's \<Rightarrow> unit outcome \<times> 's) \<Rightarrow> 'x list \<Rightarrow> 's \<Rightarrow> 's \<Rightarrow> bool" where
  "in_turn f [] s t = (t = s)"
| "in_turn f (x # xs) s t = (\<exists>s1. f x s = (Ok (), s1) \<and> in_turn f xs s1 t)"

lemma in_turn_append: "in_turn f (xs @ ys) s t \<longleftrightarrow> (\<exists>u. in_turn f xs s u \<and> in_turn f ys u t)"
  by (induction xs arbitrary: s) auto

locale collecting =
  fixes step :: "'x \<Rightarrow> 's \<Rightarrow> unit outcome \<times> 's" and keep :: "'s \<Rightarrow> 's \<Rightarrow> bool"
  assumes keep_refl: "keep s s"
    and keep_trans: "keep s t \<Longrightarrow> keep t u \<Longrightarrow> keep s u"
    and step_keeps: "step x s = (r, t) \<Longrightarrow> keep s t"
begin

lemma run_all_keeps: "run_all step xs errs s = (r, t) \<Longrightarrow> keep s t"
proof (induction xs arbitrary: errs s)
  case Nil
  then show ?case using keep_refl by simp
next
  case (Cons x xs)
  obtain q u where q: "step x s = (q, u)" by (cases "step x s")
  show ?case
  proof (cases q)
    case (Panic p)
    with q Cons.prems step_keeps [OF q] show ?thesis by simp
  qed (use q Cons.prems in \<open>auto intro: keep_trans [OF step_keeps [OF q]] Cons.IH\<close>)
qed

lemma in_turn_keeps: "in_turn step xs s t \<Longrightarrow> keep s t"
  by (induction xs arbitrary: s) (auto intro: keep_refl keep_trans step_keeps)

end

lemma run_all_errs: "run_all f xs errs s = (Ok u, t) \<Longrightarrow> errs = []"
proof (induction xs arbitrary: errs s)
  case (Cons x xs)
  obtain q s1 where q: "f x s = (q, s1)" by (cases "f x s")
  with Cons show ?case by (cases q) auto
qed (simp split: if_splits)

lemma run_all_Ok: "run_all f xs [] s = (Ok u, t) \<longleftrightarrow> in_turn f xs s t"
proof (induction xs arbitrary: s)
  case (Cons x xs)
  obtain q s1 where q: "f x s = (q, s1)" by (cases "f x s")
  show ?case
  proof (cases q)
    case (Err e)
    with q show ?thesis using run_all_errs [of f xs "[e]" s1 u t] by auto
  qed (use q Cons.IH in auto)
qed auto

text \<open>What a hook may change of a container: whether it is running.\<close>

definition only_running :: "('w, 'h) container \<times> 'w clocked \<Rightarrow> ('w, 'h) container \<times> 'w clocked \<Rightarrow> bool" where
  "only_running cs ds \<longleftrightarrow> (\<exists>b. fst ds = Running b (fst cs))"

named_theorems keeps \<open>operations that keep the container but for whether it is running\<close>

lemma only_running_same: "fst ds = fst cs \<Longrightarrow> only_running cs ds"
  unfolding only_running_def by (intro exI [of _ "ct_isRunning (fst cs)"]) (simp add: Running_def)

lemma only_running_refl [keeps]: "only_running cs cs"
  by (simp add: only_running_same)

lemma only_running_trans: "only_running a b \<Longrightarrow> only_running b c \<Longrightarrow> only_running a c"
  by (auto simp: only_running_def Running_def)

lemma only_running_running [keeps]: "only_running cs (running b cs)"
  by (cases cs) (auto simp: only_running_def running_def)

lemma reading_fst [simp]: "fst (snd (reading f cs)) = fst cs"
  by (simp add: reading_def split: prod.splits)

lemma reading_keeps [keeps]: "only_running cs (snd (reading f cs))"
  by (rule only_running_same) simp

lemma st_wrap_keeps [keeps]:
  assumes "only_running cs (snd m)" and "\<And>x bs. only_running bs (snd (k x bs))"
  shows "only_running cs (snd (st_wrap what m k))"
proof -
  obtain q bs where m: "m = (q, bs)" by (cases m)
  with assms(1) show ?thesis
    using only_running_trans [OF _ assms(2), of cs bs] by (cases q) simp_all
qed

lemma st_do_keeps [keeps]:
  assumes "only_running cs (snd m)" and "\<And>x bs. only_running bs (snd (k x bs))"
  shows "only_running cs (snd (st_do m k))"
proof -
  obtain q bs where m: "m = (q, bs)" by (cases m)
  with assms(1) show ?thesis
    using only_running_trans [OF _ assms(2), of cs bs] by (cases q) simp_all
qed

lemma keep_err_keeps [keeps]:
  assumes "only_running cs (snd m)" and "\<And>e bs. only_running bs (snd (k e bs))"
  shows "only_running cs (snd (keep_err m k))"
proof -
  obtain q bs where m: "m = (q, bs)" by (cases m)
  with assms(1) show ?thesis
    using only_running_trans [OF _ assms(2), of cs bs] by (cases q) (simp_all add: keep_err_def)
qed

lemma if_keeps [keeps]: "only_running cs (snd m) \<Longrightarrow> only_running cs (snd n) \<Longrightarrow> only_running cs (snd (if b then m else n))"
  by simp

lemma after_running: "(\<And>bs. only_running bs (snd (f bs))) \<Longrightarrow> only_running cs (snd (f (running b cs)))"
  using only_running_running only_running_trans by blast

lemma closing_client_keeps [keeps]: "only_running cs (snd m) \<Longrightarrow> only_running cs (snd (closing_client m))"
  by (cases m) (simp add: closing_client_def only_running_def)

lemma return_keeps [keeps]: "only_running cs ds \<Longrightarrow> only_running cs (snd (r, ds))"
  by simp

lemma await_ready_keeps [keeps]: "only_running cs (snd (await_ready env ctx cs))"
proof -
  obtain c s where Pair: "cs = (c, s)" using prod.exhaust by blast
  have log: "only_running (c, t) ds \<Longrightarrow> only_running (c, s) ds" for t ds
    by (simp add: only_running_def)
  show ?thesis
    unfolding await_ready_def Pair
    by (auto simp: Let_def split: option.split outcome.split intro!: keeps intro: log)
qed

lemma run_hook_keeps [keeps]: "only_running cs (snd (run_hook env ctx h cs))"
proof (cases h)
  case (UserHook u)
  then show ?thesis by (cases cs) (auto simp: only_running_def split: prod.split)
next
  case (LogHook m)
  then show ?thesis by (cases cs) (simp add: only_running_same)
qed (cases cs, simp, intro keeps)+

interpretation container_hooks: collecting "run_hook env ctx" only_running for env ctx
proof unfold_locales
  show "only_running s t" if "run_hook env ctx x s = (r, t)" for x s r t
    using run_hook_keeps [of s env ctx x] that by simp
qed (auto intro: only_running_trans only_running_refl)

interpretation hook_sets: collecting "\<lambda>h. applyContainerHooks env ctx (sel h)" only_running for env ctx sel
proof unfold_locales
  show "only_running s t" if "applyContainerHooks env ctx (sel x) s = (r, t)" for x s r t
    using that container_hooks.run_all_keeps unfolding applyContainerHooks_def by blast
qed (auto intro: only_running_trans only_running_refl)

lemma applyLifecycleHooks_keeps [keeps]: "only_running cs (snd (applyLifecycleHooks env ctx logError sel cs))"
proof -
  obtain q bs where q: "run_all (\<lambda>h. applyContainerHooks env ctx (sel h)) (ct_lifecycleHooks (fst cs)) [] cs = (q, bs)"
    by (cases "run_all (\<lambda>h. applyContainerHooks env ctx (sel h)) (ct_lifecycleHooks (fst cs)) [] cs")
  note kept = hook_sets.run_all_keeps [OF q]
  show ?thesis
  proof (cases q)
    case (Err e)
    show ?thesis
      unfolding applyLifecycleHooks_def q Err Let_def prod.case outcome.case
      by (rule only_running_trans [OF kept]) (intro keeps)
  qed (use q kept in \<open>simp_all add: applyLifecycleHooks_def\<close>)
qed

lemmas hook_defs = createdHook_def startingHook_def startedHook_def readiedHook_def stoppingHook_def
  stoppedHook_def terminatingHook_def terminatedHook_def

lemma Start_keeps [keeps]: "only_running cs (snd (Start env ctx cs))"
  unfolding Start_def hook_defs by (intro keeps after_running)

lemma Stop_keeps [keeps]: "only_running cs (snd (Stop_container env ctx opts cs))"
  unfolding Stop_container_def hook_defs Let_def by (intro keeps after_running)

lemma Terminate_keeps [keeps]: "only_running cs (snd (Terminate env ctx opts cs))"
  unfolding Terminate_def hook_defs Let_def by (intro keeps after_running)



section \<open>What the operations guarantee\<close>

datatype lifecycle_operation =
    DoStart gctx
  | DoStop gctx "stop_option list"
  | DoTerminate gctx "terminate_option list"

fun perform :: "('o, 'w, 'h) container_env \<Rightarrow> lifecycle_operation \<Rightarrow> (unit, 'w, 'h) on_container" where
  "perform env (DoStart ctx) = Start env ctx"
| "perform env (DoStop ctx opts) = Stop_container env ctx opts"
| "perform env (DoTerminate ctx opts) = Terminate env ctx opts"

text \<open>The containers that a sequence of operations, each with any outcome, leads to.\<close>

inductive operated ::
    "('o, 'w, 'h) container_env \<Rightarrow> ('w, 'h) container \<times> 'w clocked \<Rightarrow> ('w, 'h) container \<times> 'w clocked \<Rightarrow> bool"
  for env :: "('o, 'w, 'h) container_env" and start :: "('w, 'h) container \<times> 'w clocked" where
  begins: "operated env start start"
| performs: "operated env start cs \<Longrightarrow> perform env op cs = (r, ds) \<Longrightarrow> operated env start ds"
| outside: "operated env start (c, s) \<Longrightarrow> operated env start (c, s')"

lemma perform_keeps: "only_running cs (snd (perform env op cs))"
  by (cases op) (simp_all, (intro keeps)+)

lemma operated_keeps: "operated env cs ds \<Longrightarrow> only_running cs ds"
proof (induction rule: operated.induct)
  case (performs cs' op r ds)
  then show ?case using perform_keeps [of cs' env op] by (auto intro: only_running_trans)
next
  case (outside d t t')
  then show ?case by (simp add: only_running_def)
qed (rule only_running_refl)

text \<open>
  C13: an invariant of every container: whatever is done with it, in any order and with any outcome, with
  hooks of the user and with the daemon and others acting in between, it keeps its identifiers, its
  client and logger, its image, ports, hooks and wait strategy; only whether it is running changes.
\<close>

theorem container_identity_invariant:
  assumes "operated env (c, s) (c', s')"
  shows "c' = c\<lparr>ct_isRunning := ct_isRunning c'\<rparr>"
  using operated_keeps [OF assms] by (auto simp: only_running_def Running_def)

lemma keep_err_Ok_iff [outcome_simps]:
  "keep_err c k = (Ok y, t) \<longleftrightarrow>
     (\<exists>x s. c = (Ok x, s) \<and> k None s = (Ok y, t)) \<or> (\<exists>e s. c = (Err e, s) \<and> k (Some e) s = (Ok y, t))"
  by (cases c; cases "fst c") (auto simp: keep_err_def)

lemma of_err_Ok [simp]: "of_err e = Ok u \<longleftrightarrow> e = None"
  by (cases e) (simp_all add: of_err_def)

lemma reading_Ok: "reading f cs = (Ok x, ds) \<longleftrightarrow> f (fst cs) (snd cs) = (Ok x, snd ds) \<and> fst ds = fst cs"
  by (cases cs; cases ds) (auto simp: reading_def split: prod.splits)

lemma st_wrap_unit_iff:
  "st_wrap what m k = (Ok y, t) \<longleftrightarrow> (\<exists>s. m = (Ok (), s) \<and> k () s = (Ok y, t))"
  unfolding st_wrap_Ok_iff by simp

text \<open>Start returned without an error: what happened, in order.\<close>

lemma Start_steps:
  assumes "Start env ctx (c, s) = (Ok u, ds)"
  obtains cs1 cs2 cs3 cs4 where "startingHook env ctx (c, s) = (Ok (), cs1)"
    and "reading (\<lambda>c. en_ContainerStart (ctr_engine c) ctx (container_ID c)) cs1 = (Ok (), cs2)"
    and "startedHook env ctx cs2 = (Ok (), cs3)" and "readiedHook env ctx (running True cs3) = (Ok (), cs4)"
    and "ds = (fst cs4, snd (en_Close (ctr_engine (fst cs4)) (snd cs4)))"
proof -
  from assms obtain cs1 cs2 where 1: "startingHook env ctx (c, s) = (Ok (), cs1)"
    and 2: "reading (\<lambda>c. en_ContainerStart (ctr_engine c) ctx (container_ID c)) cs1 = (Ok (), cs2)"
    and 3: "closing_client (st_wrap ''started hook'' (startedHook env ctx cs2) (\<lambda>_ cs.
       st_wrap ''readied hook'' (readiedHook env ctx (running True cs)) (\<lambda>_ cs. (Ok (), cs)))) = (Ok u, ds)"
    unfolding Start_def st_wrap_unit_iff by blast
  let ?m = "st_wrap ''started hook'' (startedHook env ctx cs2) (\<lambda>_ cs.
       st_wrap ''readied hook'' (readiedHook env ctx (running True cs)) (\<lambda>_ cs. (Ok (), cs)))"
  obtain x cs4 where m: "?m = (x, cs4)" by (cases ?m)
  with 3 have ds: "x = Ok ()" "ds = (fst cs4, snd (en_Close (ctr_engine (fst cs4)) (snd cs4)))"
    by (cases cs4; simp add: closing_client_def)+
  have "?m = (Ok (), cs4)" using m ds(1) by simp
  then obtain cs3 where "startedHook env ctx cs2 = (Ok (), cs3)" "readiedHook env ctx (running True cs3) = (Ok (), cs4)"
    unfolding st_wrap_unit_iff by (metis prod.inject)
  with 1 2 ds(2) that show ?thesis by blast
qed

lemma applyLifecycleHooks_Ok:
  assumes "applyLifecycleHooks env ctx logError sel cs = (Ok u, ds)" and "ct_lifecycleHooks (fst cs) = [h]"
  shows "in_turn (run_hook env ctx) (sel h) cs ds"
proof -
  obtain q bs where q: "run_all (\<lambda>h. applyContainerHooks env ctx (sel h)) (ct_lifecycleHooks (fst cs)) [] cs = (q, bs)"
    by (cases "run_all (\<lambda>h. applyContainerHooks env ctx (sel h)) (ct_lifecycleHooks (fst cs)) [] cs")
  with assms have "q = Ok () \<and> bs = ds"
    by (cases q) (auto simp: applyLifecycleHooks_def st_do_Ok_iff Let_def split: if_splits)
  with q assms(2) have "in_turn (\<lambda>h. applyContainerHooks env ctx (sel h)) [h] cs ds"
    by (simp only: run_all_Ok [symmetric, where u = "()"])
  then show ?thesis by (simp add: applyContainerHooks_def run_all_Ok del: split_paired_Ex)
qed

lemma target_of_Running [simp]: "target_of env (Running b c) = target_of env c"
  by (rule target.equality)
    (simp_all add: target_of_def Running_def Ctr_Host_def Ctr_Inspect_def MappedPort_def Logs_def Exec_def
      Ctr_State_def Ctr_CopyFromContainer_def ctr_engine_def container_ID_def fun_eq_iff)

lemma only_running_simps:
  assumes "only_running (c, s) ds"
  shows "ct_lifecycleHooks (fst ds) = ct_lifecycleHooks c" "ct_waitingFor (fst ds) = ct_waitingFor c"
    "ctr_engine (fst ds) = ctr_engine c" "container_ID (fst ds) = container_ID c" "target_of env (fst ds) = target_of env c"
    "ct_dockerClient (fst ds) = ct_dockerClient c" "ct_image (fst ds) = ct_image c"
  using assms by (auto simp: only_running_def, simp_all add: Running_def ctr_engine_def container_ID_def)

text \<open>The world after some lines were logged by the logger of a container.\<close>

inductive logged :: "('w, 'h) container \<Rightarrow> 'w clocked \<Rightarrow> 'w clocked \<Rightarrow> bool" for c :: "('w, 'h) container" where
  logged_none: "logged c s s"
| logged_line: "logged c s t \<Longrightarrow> logged c s (ct_logger c level msg attrs t)"

lemma logged_first: "logged c (ct_logger c level msg attrs s) t \<Longrightarrow> logged c s t"
  by (induction "ct_logger c level msg attrs s" t rule: logged.induct) (auto intro: logged.intros)

text \<open>
  What happens to a container with the set of hooks \<open>h\<close>, in which the hooks \<open>us\<close> of the user come before the wait for
  readiness, while it is started: each line begins in the world that the line before it left.
\<close>

definition started_in_order ::
    "('o, 'w, 'h) container_env \<Rightarrow> gctx \<Rightarrow> 'h lifecycle_hooks \<Rightarrow> 'h container_hook list
       \<Rightarrow> ('w, 'h) container \<times> 'w clocked \<Rightarrow> ('w, 'h) container \<times> 'w clocked \<Rightarrow> bool" where
  "started_in_order env ctx h us cs ds \<longleftrightarrow> (\<exists>b1 s1 s2 b3 s3 s3' s4 b5 s5.
     in_turn (run_hook env ctx) (PreStarts h) cs (Running b1 (fst cs), s1)
   \<and> en_ContainerStart (ctr_engine (fst cs)) ctx (container_ID (fst cs)) s1 = (Ok (), s2)
   \<and> in_turn (run_hook env ctx) us (Running b1 (fst cs), s2) (Running b3 (fst cs), s3)
   \<and> logged (fst cs) s3 s3'
   \<and> (case ct_waitingFor (fst cs) of
        None \<Rightarrow> s4 = s3'
      | Some strategy \<Rightarrow> WaitUntilReady (ce_wait env) strategy ctx (target_of env (fst cs)) s3' = (Ok (), s4))
   \<and> in_turn (run_hook env ctx) (PostReadies h) (Running True (fst cs), s4) (Running b5 (fst cs), s5)
   \<and> ds = (Running b5 (fst cs), snd (en_Close (ctr_engine (fst cs)) s5)))"

lemma Running_simps [simp]:
  "Running b (Running b' c) = Running b c" "ctr_engine (Running b c) = ctr_engine c" "container_ID (Running b c) = container_ID c"
  "ct_waitingFor (Running b c) = ct_waitingFor c" "ct_logger (Running b c) = ct_logger c"
  "ct_lifecycleHooks (Running b c) = ct_lifecycleHooks c" "ct_image (Running b c) = ct_image c"
  "ct_dockerClient (Running b c) = ct_dockerClient c" "ct_shortID (Running b c) = ct_shortID c"
  by (simp_all add: Running_def ctr_engine_def container_ID_def)

lemma only_running_pair:
  assumes "only_running (c, s) ds"
  obtains b t where "ds = (Running b c, t)"
  using assms by (cases ds) (auto simp: only_running_def)

text \<open>The hooks of a container with one set, when they succeed, run in turn and only change whether it is running.\<close>

lemma applyLifecycleHooks_turn:
  assumes "applyLifecycleHooks env ctx logError sel (Running b0 c, s) = (Ok u, ds)" and "ct_lifecycleHooks c = [h]"
  obtains b t where "ds = (Running b c, t)" and "in_turn (run_hook env ctx) (sel h) (Running b0 c, s) (Running b c, t)"
proof -
  have turn: "in_turn (run_hook env ctx) (sel h) (Running b0 c, s) ds"
    using applyLifecycleHooks_Ok [OF assms(1)] assms(2) by simp
  from container_hooks.in_turn_keeps [OF this] obtain b t where "ds = (Running b c, t)"
    by (elim only_running_pair) simp
  with turn that show ?thesis by simp
qed

lemma await_ready_Ok:
  assumes "await_ready env ctx (Running b c, s) = (Ok (), ds)"
  obtains s' t where "logged c s s'" and "ds = (Running True c, t)"
    and "case ct_waitingFor c of None \<Rightarrow> t = s' | Some strategy \<Rightarrow> WaitUntilReady (ce_wait env) strategy ctx (target_of env c) s' = (Ok (), t)"
proof (cases "ct_waitingFor c")
  case None
  with assms have "ds = (Running True c, s)" by (simp add: await_ready_def running_def)
  with None show ?thesis using that [OF logged_none] by simp
next
  case (Some strategy)
  with assms obtain desc where "strategy_desc strategy = Ok desc"
    by (cases "strategy_desc strategy") (auto simp: await_ready_def)
  let ?s' = "ct_logger c Info_level ''Waiting for container to be ready''
      [(''containerID'', ct_shortID c), (''image'', ct_image c), (''strategy'', desc)] s"
  obtain q t where q: "WaitUntilReady (ce_wait env) strategy ctx (target_of env c) ?s' = (q, t)"
    by (cases "WaitUntilReady (ce_wait env) strategy ctx (target_of env c) ?s'")
  with assms Some \<open>strategy_desc strategy = Ok desc\<close> have "q = Ok () \<and> ds = (Running True c, t)"
    by (cases q) (auto simp: await_ready_def running_def Let_def reading_def)
  with q Some show ?thesis using that [OF logged_line [OF logged_none]] by simp
qed

text \<open>The hooks that \<open>Run\<close> gives to a container with files \<open>fs\<close>, the hooks \<open>us\<close> of the user among them.\<close>

abbreviation standard_hooks :: "sdk_file list \<Rightarrow> 'h lifecycle_hooks list \<Rightarrow> 'h lifecycle_hooks" where
  "standard_hooks fs us \<equiv> combineContainerHooks
     [DefaultLoggingHook, defaultPreCreateHook, defaultCopyFileToContainerHook fs, defaultReadinessHook] us"

lemma standard_hook_fields:
  "PreStarts (standard_hooks fs us) = LogHook ''Starting container'' # concat (map PreStarts us)"
  "PostReadies (standard_hooks fs us) = concat (map PostReadies us) @ [LogHook ''Container is ready'']"
  "PostCreates (standard_hooks fs us) = concat (map PostCreates us) @ [LogHook ''Container created'', CopyFiles fs]"
  "PostTerminates (standard_hooks fs us) = concat (map PostTerminates us) @ [LogHook ''Container terminated'']"
  by (simp_all add: no_hooks_def DefaultLoggingHook_def defaultPreCreateHook_def defaultCopyFileToContainerHook_def defaultReadinessHook_def)

lemma Start_in_order:
  assumes start: "Start env ctx (c, s) = (Ok u, ds)" and hooks: "ct_lifecycleHooks c = [standard_hooks fs us]"
  shows "started_in_order env ctx (standard_hooks fs us) (concat (map PostStarts us)) (c, s) ds"
proof -
  let ?h = "standard_hooks fs us"
  have self: "c = Running (ct_isRunning c) c" by (simp add: Running_def)
  have post: "PostStarts ?h = concat (map PostStarts us) @ [LogHook ''Container started'', AwaitReady]"
    by (simp add: no_hooks_def DefaultLoggingHook_def defaultPreCreateHook_def defaultCopyFileToContainerHook_def defaultReadinessHook_def)
  from start obtain cs1 cs2 cs3 cs4 where 1: "startingHook env ctx (c, s) = (Ok (), cs1)"
    and 2: "reading (\<lambda>c. en_ContainerStart (ctr_engine c) ctx (container_ID c)) cs1 = (Ok (), cs2)"
    and 3: "startedHook env ctx cs2 = (Ok (), cs3)" and 4: "readiedHook env ctx (running True cs3) = (Ok (), cs4)"
    and ds: "ds = (fst cs4, snd (en_Close (ctr_engine (fst cs4)) (snd cs4)))"
    by (rule Start_steps)
  from 1 self obtain b1 s1 where c1: "cs1 = (Running b1 c, s1)"
    and turn1: "in_turn (run_hook env ctx) (PreStarts ?h) (c, s) (Running b1 c, s1)"
    unfolding startingHook_def by (metis applyLifecycleHooks_turn hooks)
  from 2 c1 obtain s2 where c2: "cs2 = (Running b1 c, s2)"
    and go: "en_ContainerStart (ctr_engine c) ctx (container_ID c) s1 = (Ok (), s2)"
    by (cases cs2) (simp add: reading_Ok)
  from 3 obtain b s' where c3: "cs3 = (Running b c, s')"
    and turn3: "in_turn (run_hook env ctx) (PostStarts ?h) (Running b1 c, s2) (Running b c, s')"
    unfolding startedHook_def c2 by (rule applyLifecycleHooks_turn [OF _ hooks])
  from turn3 obtain cs5 cs6 where us: "in_turn (run_hook env ctx) (concat (map PostStarts us)) (Running b1 c, s2) cs5"
    and log: "run_hook env ctx (LogHook ''Container started'') cs5 = (Ok (), cs6)"
    and ready: "await_ready env ctx cs6 = (Ok (), (Running b c, s'))"
    unfolding post in_turn_append by auto
  from container_hooks.in_turn_keeps [OF us] obtain b3 s3 where c5: "cs5 = (Running b3 c, s3)"
    by (elim only_running_pair) simp
  let ?s3 = "ct_logger c Info_level ''Container started'' [(''containerID'', ct_shortID c)] s3"
  from log c5 have c6: "cs6 = (Running b3 c, ?s3)" by simp
  from ready obtain s3' t where wait: "logged c ?s3 s3'" "(Running b c, s') = (Running True c, t)"
    "case ct_waitingFor c of None \<Rightarrow> t = s3' | Some strategy \<Rightarrow> WaitUntilReady (ce_wait env) strategy ctx (target_of env c) s3' = (Ok (), t)"
    unfolding c6 by (rule await_ready_Ok)
  have logged: "logged c s3 s3'" using wait(1) by (rule logged_first)
  from 4 obtain b5 s5 where c4: "cs4 = (Running b5 c, s5)"
    and turn4: "in_turn (run_hook env ctx) (PostReadies ?h) (Running True c, s') (Running b5 c, s5)"
    unfolding readiedHook_def c3 running_def prod.case Running_simps by (rule applyLifecycleHooks_turn [OF _ hooks])
  have ready': "case ct_waitingFor c of None \<Rightarrow> s' = s3'
      | Some strategy \<Rightarrow> WaitUntilReady (ce_wait env) strategy ctx (target_of env c) s3' = (Ok (), s')"
    using wait(2,3) by (auto split: option.splits)
  have fin: "ds = (Running b5 c, snd (en_Close (ctr_engine c) s5))" using ds c4 by simp
  show ?thesis
    unfolding started_in_order_def fst_conv
    by (rule exI [of _ b1], rule exI [of _ s1], rule exI [of _ s2], rule exI [of _ b3], rule exI [of _ s3],
        rule exI [of _ s3'], rule exI [of _ s'], rule exI [of _ b5], rule exI [of _ s5], intro conjI)
      (rule turn1 go us [unfolded c5] logged ready' turn4 fin)+
qed

text \<open>
  C4: a container with the hooks that \<open>Run\<close> gives it is only reported as started when it is ready: when
  \<open>Start\<close> succeeds, then the hooks before the start succeeded in turn, then the daemon accepted the start of
  this very container, then the hooks of the user for a started container succeeded, then its wait strategy,
  if it has one, found it ready, and then the hooks for a ready container succeeded, which saw it running;
  each in the world that the one before it left, with nothing but log lines and the closing of the client besides.
\<close>

theorem Start_waits_until_ready:
  assumes "Start env ctx (c, s) = (Ok (), ds)"
    and "ct_lifecycleHooks c = [combineContainerHooks
       [DefaultLoggingHook, defaultPreCreateHook, defaultCopyFileToContainerHook files, defaultReadinessHook] us]"
  shows "\<exists>b1 s1 s2 b3 s3 s3' s4 b5 s5.
     in_turn (run_hook env ctx) (LogHook ''Starting container'' # concat (map PreStarts us)) (c, s) (Running b1 c, s1)
   \<and> en_ContainerStart (ctr_engine c) ctx (container_ID c) s1 = (Ok (), s2)
   \<and> in_turn (run_hook env ctx) (concat (map PostStarts us)) (Running b1 c, s2) (Running b3 c, s3)
   \<and> logged c s3 s3'
   \<and> (case ct_waitingFor c of
        None \<Rightarrow> s4 = s3'
      | Some strategy \<Rightarrow> WaitUntilReady (ce_wait env) strategy ctx (target_of env c) s3' = (Ok (), s4))
   \<and> in_turn (run_hook env ctx) (concat (map PostReadies us) @ [LogHook ''Container is ready'']) (Running True c, s4) (Running b5 c, s5)
   \<and> ds = (Running b5 c, snd (en_Close (ctr_engine c) s5))"
  using Start_in_order [OF assms] unfolding started_in_order_def standard_hook_fields fst_conv .

text \<open>What every step that succeeds keeps, or the step for \<open>x\<close> brings about and the others keep, holds at the end.\<close>

lemma in_turn_keep:
  assumes "in_turn f xs s t" and "P s" and "\<And>x s t. x \<in> set xs \<Longrightarrow> f x s = (Ok (), t) \<Longrightarrow> P s \<Longrightarrow> P t"
  shows "P t"
  using assms by (induction xs arbitrary: s) auto

lemma in_turn_does:
  assumes "in_turn f xs s t" and "x \<in> set xs" and "\<And>s t. f x s = (Ok (), t) \<Longrightarrow> P t"
    and "\<And>y s t. f y s = (Ok (), t) \<Longrightarrow> P s \<Longrightarrow> P t"
  shows "P t"
  using assms(1,2)
proof (induction xs arbitrary: s)
  case (Cons y ys)
  then obtain s1 where y: "f y s = (Ok (), s1)" and ys: "in_turn f ys s1 t" by auto
  show ?case
  proof (cases "x = y")
    case True
    with y assms(3) have "P s1" by blast
    then show ?thesis by (rule in_turn_keep [of f ys s1 t P, OF ys]) (rule assms(4))
  qed (use Cons ys in auto)
qed simp

lemma remove_volume_Ok: "remove_volume en ctx name s = (Ok (), t) \<longleftrightarrow> en_VolumeRemove en ctx name True s = (Ok (), t)"
  by (cases "en_VolumeRemove en ctx name True s"; cases "fst (en_VolumeRemove en ctx name True s)")
    (auto simp: remove_volume_def)

text \<open>Terminate returned without an error: what happened, in order.\<close>

lemma Terminate_steps:
  assumes "Terminate env ctx opts (c, s) = (Ok (), ds)" and o: "o' = NewTerminateOptions ctx opts"
  obtains r b0 s0 b1 s1 s2 b3 s3 s4 where
      "Stop_container env (sp_ctx (tm_StopOptions o')) [StopTimeout (sp_stopTimeout (tm_StopOptions o'))] (c, s) = (r, Running b0 c, s0)"
    and "isCleanupSafe_container (outcome_err r)"
    and "terminatingHook env ctx (Running b0 c, s0) = (Ok (), Running b1 c, s1)"
    and "en_ContainerRemove (ctr_engine c) ctx (container_ID c) by_force s1 = (Ok (), s2)"
    and "terminatedHook env ctx (Running b1 c, s2) = (Ok (), Running b3 c, s3)"
    and "in_turn (remove_volume (ctr_engine c) (sp_ctx (tm_StopOptions o'))) (tm_volumes o') s3 s4"
    and "ds = (Running False c, s4)"
proof -
  let ?stop = "Stop_container env (sp_ctx (tm_StopOptions o')) [StopTimeout (sp_stopTimeout (tm_StopOptions o'))] (c, s)"
  obtain q0 cs0 where m0: "?stop = (q0, cs0)" by (cases ?stop)
  have "only_running (c, s) cs0" using Stop_keeps [of "(c, s)" env "sp_ctx (tm_StopOptions o')"] m0 by (metis snd_conv)
  then obtain b0 s0 where c0: "cs0 = (Running b0 c, s0)" by (rule only_running_pair)
  obtain q1 cs1 where m1: "terminatingHook env ctx cs0 = (q1, cs1)" by (cases "terminatingHook env ctx cs0")
  have "only_running (Running b0 c, s0) cs1" using applyLifecycleHooks_keeps [of cs0 env ctx False PreTerminates] m1 c0
    by (simp add: terminatingHook_def)
  then obtain b1 s1 where c1: "cs1 = (Running b1 c, s1)" by (elim only_running_pair) simp
  obtain q2 s2 where m2: "en_ContainerRemove (ctr_engine c) ctx (container_ID c) by_force s1 = (q2, s2)"
    by (cases "en_ContainerRemove (ctr_engine c) ctx (container_ID c) by_force s1")
  obtain q3 cs3 where m3: "terminatedHook env ctx (Running b1 c, s2) = (q3, cs3)" by (cases "terminatedHook env ctx (Running b1 c, s2)")
  have "only_running (Running b1 c, s2) cs3" using applyLifecycleHooks_keeps [of "(Running b1 c, s2)" env ctx False PostTerminates] m3
    by (simp add: terminatedHook_def)
  then obtain b3 s3 where c3: "cs3 = (Running b3 c, s3)" by (elim only_running_pair) simp
  obtain q4 s4 where m4: "Cleanup_volumes o' (ctr_engine c) s3 = (q4, s4)" by (cases "Cleanup_volumes o' (ctr_engine c) s3")
  from assms(1) have safe: "isCleanupSafe_container (outcome_err q0)"
    by (cases q0) (auto simp: Terminate_def Let_def m0 o [symmetric] keep_err_def isCleanupSafe_container_def isCleanupSafe_def
        split: if_splits)
  with assms(1) have "keep_err (q1, cs1) (\<lambda>err1 _. keep_err (q2, (Running b1 c, s2)) (\<lambda>err2 _. keep_err (q3, cs3) (\<lambda>err3 _.
      keep_err (q4, (Running False c, s4)) (\<lambda>err4 cs. (of_err (errors_join [err1, err2, err3, err4]), cs))))) = (Ok (), ds)"
    by (cases q0; cases q1; cases q2; cases q3)
      (simp_all add: Terminate_def Let_def o [symmetric] m0 m1 [unfolded c0] m2 m3 m4 keep_err_def c0 c1 c3 reading_def running_def)
  then have "q1 = Ok ()" "q2 = Ok ()" "q3 = Ok ()" "q4 = Ok ()" "ds = (Running False c, s4)"
    by (cases q1; cases q2; cases q3; cases q4; simp add: keep_err_def)+
  with that [of q0 b0 s0 b1 s1 s2 b3 s3 s4] safe m0 m1 m2 m3 m4 show ?thesis
    by (simp add: c0 c1 c3 Cleanup_volumes_def run_all_Ok)
qed

text \<open>The hooks of the user for one event, in every set.\<close>

lemma applyLifecycleHooks_keep_fact:
  assumes "applyLifecycleHooks env ctx False sel (Running b0 c, s) = (Ok (), (c', s'))" and "P s"
    and hooks: "\<And>hs h b s b' s'. hs \<in> set (ct_lifecycleHooks c) \<Longrightarrow> h \<in> set (sel hs) \<Longrightarrow>
           run_hook env ctx h (Running b c, s) = (Ok (), (Running b' c, s')) \<Longrightarrow> P s \<Longrightarrow> P s'"
  shows "P s'"
proof -
  let ?P = "\<lambda>cs. \<exists>b t. cs = (Running b c, t) \<and> P t"
  let ?sets = "\<lambda>h. applyContainerHooks env ctx (sel h)"
  have "in_turn ?sets (ct_lifecycleHooks c) (Running b0 c, s) (c', s')"
    using assms(1) by (cases "run_all ?sets (ct_lifecycleHooks c) [] (Running b0 c, s)";
      cases "fst (run_all ?sets (ct_lifecycleHooks c) [] (Running b0 c, s))")
      (auto simp: applyLifecycleHooks_def run_all_Ok split: if_splits)
  then have "?P (c', s')"
  proof (rule in_turn_keep [where P = ?P])
    fix hs cs ds assume hs: "hs \<in> set (ct_lifecycleHooks c)" and "applyContainerHooks env ctx (sel hs) cs = (Ok (), ds)"
      and p: "?P cs"
    then have "in_turn (run_hook env ctx) (sel hs) cs ds" by (simp add: applyContainerHooks_def run_all_Ok)
    then show "?P ds"
    proof (rule in_turn_keep [where P = ?P])
      fix h cs ds assume h: "h \<in> set (sel hs)" and run: "run_hook env ctx h cs = (Ok (), ds)" and "?P cs"
      then obtain b t where cs: "cs = (Running b c, t)" "P t" by blast
      with run_hook_keeps [of cs env ctx h] run have "only_running (Running b c, t) ds" by simp
      then obtain b' t' where ds: "ds = (Running b' c, t')" by (elim only_running_pair) simp
      from hooks [OF hs h run [unfolded cs(1) ds]] cs(2) ds show "?P ds" by blast
    qed (rule p)
  qed (use assms(2) in blast)
  then show ?thesis by auto
qed

text \<open>What the removal of a container brings about lasts until \<open>Terminate\<close> returns, if nothing after it undoes it.\<close>

lemma Terminate_gone:
  assumes terminated: "Terminate env ctx opts (c, s) = (Ok (), (c', s'))" and o: "o' = NewTerminateOptions ctx opts"
    and remove: "\<And>s s'. en_ContainerRemove (ctr_engine c) ctx (container_ID c) by_force s = (Ok (), s') \<Longrightarrow> gone s'"
    and hooks: "\<And>hs h b1 s1 b2 s2. hs \<in> set (ct_lifecycleHooks c) \<Longrightarrow> h \<in> set (PostTerminates hs) \<Longrightarrow>
          run_hook env ctx h (Running b1 c, s1) = (Ok (), (Running b2 c, s2)) \<Longrightarrow> gone s1 \<Longrightarrow> gone s2"
    and volumes: "\<And>v s s'. en_VolumeRemove (ctr_engine c) (sp_ctx (tm_StopOptions o')) v True s = (Ok (), s') \<Longrightarrow> gone s \<Longrightarrow> gone s'"
  shows "gone s'"
proof -
  from Terminate_steps [OF terminated o] obtain b1 s1 s2 b3 s3 s4 where
      removed: "en_ContainerRemove (ctr_engine c) ctx (container_ID c) by_force s1 = (Ok (), s2)"
    and after: "terminatedHook env ctx (Running b1 c, s2) = (Ok (), Running b3 c, s3)"
    and clean: "in_turn (remove_volume (ctr_engine c) (sp_ctx (tm_StopOptions o'))) (tm_volumes o') s3 s4"
    and ds: "(c', s') = (Running False c, s4)"
    by metis
  from remove [OF removed] have "gone s3"
    by (rule applyLifecycleHooks_keep_fact [OF after [unfolded terminatedHook_def]]) (use hooks in \<open>simp del: run_hook.simps\<close>)
  then have "gone s4" by (rule in_turn_keep [OF clean]) (use volumes in \<open>simp add: remove_volume_Ok\<close>)
  with ds show ?thesis by simp
qed

text \<open>
  C5: a container that was terminated without an error is gone: it no longer counts as running, and every fact
  \<open>gone\<close> about the world that the daemon brings about by removing this very container, and every fact \<open>dropped v\<close> that
  it brings about by removing by force a volume \<open>v\<close> that was to be removed, holds when \<open>Terminate\<close> returns, unless the
  removal of a volume or a hook for a terminated container undoes it. Stopping the container had worked before,
  or had failed in a way that a clean-up ignores.
\<close>

theorem Terminate_removes:
  assumes terminated: "Terminate env ctx opts (c, s) = (Ok (), (c', s'))" and o: "o' = NewTerminateOptions ctx opts"
    and remove: "\<And>s s'. en_ContainerRemove (ctr_engine c) ctx (container_ID c) by_force s = (Ok (), s') \<Longrightarrow> gone s'"
    and hooks: "\<And>hs h b1 s1 b2 s2. hs \<in> set (ct_lifecycleHooks c) \<Longrightarrow> h \<in> set (PostTerminates hs) \<Longrightarrow>
          run_hook env ctx h (Running b1 c, s1) = (Ok (), (Running b2 c, s2)) \<Longrightarrow> gone s1 \<Longrightarrow> gone s2"
    and volumes: "\<And>v s s'. en_VolumeRemove (ctr_engine c) (sp_ctx (tm_StopOptions o')) v True s = (Ok (), s') \<Longrightarrow>
          (gone s \<longrightarrow> gone s') \<and> dropped v s' \<and> (\<forall>u. dropped u s \<longrightarrow> dropped u s')"
  shows "c' = Running False c \<and> gone s' \<and> (\<forall>v \<in> set (tm_volumes o'). dropped v s')
     \<and> (\<exists>r cs. Stop_container env (sp_ctx (tm_StopOptions o')) [StopTimeout (sp_stopTimeout (tm_StopOptions o'))] (c, s) = (r, cs)
          \<and> isCleanupSafe_container (outcome_err r))"
proof -
  have "gone s'" by (rule Terminate_gone [OF terminated o remove hooks]) (use volumes in blast)+
  moreover from Terminate_steps [OF terminated o] obtain r b0 s0 s3 s4 where
      stop: "Stop_container env (sp_ctx (tm_StopOptions o')) [StopTimeout (sp_stopTimeout (tm_StopOptions o'))] (c, s) = (r, Running b0 c, s0)"
    and safe: "isCleanupSafe_container (outcome_err r)"
    and clean: "in_turn (remove_volume (ctr_engine c) (sp_ctx (tm_StopOptions o'))) (tm_volumes o') s3 s4"
    and ds: "(c', s') = (Running False c, s4)"
    by metis
  have "dropped v s4" if "v \<in> set (tm_volumes o')" for v
    by (rule in_turn_does [OF clean that]) (use volumes in \<open>simp_all add: remove_volume_Ok\<close>)
  ultimately show ?thesis using stop safe ds by blast
qed

definition demo_env :: "(nat, unit, unit) container_env" where
  "demo_env =
     \<lparr>ce_image = demo_image_env, ce_wait = demo_wait_lib, ce_StdCopy = (\<lambda>r. (fst r, '''', snd r)),
      ce_platforms_Parse = (\<lambda>_. Err (Msg ''unknown'')), ce_IsContainer = (\<lambda>_. False),
      ce_ParsePortSpecs = (\<lambda>_. Ok \<lparr>ps_ports = [], ps_bindings = []\<rparr>), ce_ParseAddr = Ok, ce_JoinPath = (\<lambda>a b. Ok (a @ b)),
      ce_tar_header = (\<lambda>_ _. None), ce_definition_hook = (\<lambda>_ _ d s. (Ok (), d, s)),
      ce_container_hook = (\<lambda>_ _ c s. (Ok (), True, s))\<rparr>"

text \<open>A daemon whose world is the list of what it removed.\<close>

definition removing_engine :: "string list engine" where
  "removing_engine = demo_engine\<lparr>en_ContainerRemove := (\<lambda>_ i o1 s. (Ok (), fst s, if rm_Force o1 then (''container '' @ i) # snd s else snd s)),
     en_VolumeRemove := (\<lambda>_ v f s. (Ok (), fst s, if f then (''volume '' @ v) # snd s else snd s))\<rparr>"

theorem Terminate_removes_witness:
  "\<forall>env :: (nat, string list, unit) container_env. \<exists>s'. Terminate env Background [RemoveVolumes [''data'']]
        (demo_container removing_engine, (0, [])) = (Ok (), demo_container removing_engine, s')
     \<and> ''container 0123456789abcdef'' \<in> set (snd s') \<and> ''volume data'' \<in> set (snd s')"
proof
  fix env :: "(nat, string list, unit) container_env"
  let ?c = "demo_container removing_engine :: (string list, unit) container"
  have hooks: "ct_lifecycleHooks ?c = []" by (simp add: demo_container_def)
  have "\<exists>c' s'. Terminate env Background [RemoveVolumes [''data'']] (?c, (0, [])) = (Ok (), (c', s'))"
    by (simp add: Terminate_def NewTerminateOptions_def NewStopOptions_def RemoveVolumes_def Stop_container_def hook_defs
        applyLifecycleHooks_def demo_container_def reading_def running_def Running_def ctr_engine_def container_ID_def
        keep_err_def isCleanupSafe_container_def isCleanupSafe_def Cleanup_volumes_def remove_volume_def Let_def
        removing_engine_def demo_engine_def of_err_def errors_join_def)
  then obtain c' s' where run: "Terminate env Background [RemoveVolumes [''data'']] (?c, (0, [])) = (Ok (), (c', s'))"
    by blast
  have "c' = Running False ?c \<and> ''container 0123456789abcdef'' \<in> set (snd s')
     \<and> (\<forall>v \<in> set (tm_volumes (NewTerminateOptions Background [RemoveVolumes [''data'']])). ''volume '' @ v \<in> set (snd s')) \<and>
     (\<exists>r cs. Stop_container env (sp_ctx (tm_StopOptions (NewTerminateOptions Background [RemoveVolumes [''data'']])))
          [StopTimeout (sp_stopTimeout (tm_StopOptions (NewTerminateOptions Background [RemoveVolumes [''data'']])))] (?c, (0, [])) = (r, cs)
          \<and> isCleanupSafe_container (outcome_err r))"
    by (rule Terminate_removes [OF run refl, where dropped = "\<lambda>v s. ''volume '' @ v \<in> set (snd s)"
          and gone = "\<lambda>s. ''container 0123456789abcdef'' \<in> set (snd s)"])
      (auto simp: hooks, auto simp: ctr_engine_def demo_container_def removing_engine_def container_ID_def)
  then have "c' = ?c \<and> ''container 0123456789abcdef'' \<in> set (snd s') \<and> ''volume data'' \<in> set (snd s')"
    by (simp add: NewTerminateOptions_def RemoveVolumes_def Running_def demo_container_def)
  with run show "\<exists>s'. Terminate env Background [RemoveVolumes [''data'']] (?c, (0, [])) = (Ok (), ?c, s')
     \<and> ''container 0123456789abcdef'' \<in> set (snd s') \<and> ''volume data'' \<in> set (snd s')" by blast
qed

definition demo_started :: "(unit, unit) container" where
  "demo_started = (demo_container demo_engine)\<lparr>ct_waitingFor := Some (SNop (ForNop (\<lambda>_ _ s. (Ok (), s)))),
     ct_lifecycleHooks := [combineContainerHooks
       [DefaultLoggingHook, defaultPreCreateHook, defaultCopyFileToContainerHook [], defaultReadinessHook] []]\<rparr>"

theorem Start_waits_until_ready_witness:
  "\<exists>ds t t'. Start demo_env Background (demo_started, (0, ())) = (Ok (), ds)
     \<and> WaitUntilReady demo_wait_lib (SNop (ForNop (\<lambda>_ _ s. (Ok (), s)))) Background (target_of demo_env demo_started) t = (Ok (), t')"
proof -
  have "\<exists>ds. Start demo_env Background (demo_started, (0, ())) = (Ok (), ds)"
    by (simp add: Start_def hook_defs applyLifecycleHooks_def applyContainerHooks_def demo_started_def demo_container_def
        DefaultLoggingHook_def defaultPreCreateHook_def defaultCopyFileToContainerHook_def defaultReadinessHook_def no_hooks_def
        reading_def running_def Running_def await_ready_def strategy_desc_def Nop_WaitUntilReady_def ForNop_def closing_client_def
        ctr_engine_def demo_engine_def discard_logger_def)
  then obtain ds where ds: "Start demo_env Background (demo_started, (0, ())) = (Ok (), ds)" by blast
  have h: "ct_lifecycleHooks demo_started = [combineContainerHooks
       [DefaultLoggingHook, defaultPreCreateHook, defaultCopyFileToContainerHook [], defaultReadinessHook] []]"
    "ct_waitingFor demo_started = Some (SNop (ForNop (\<lambda>_ _ s. (Ok (), s))))"
    by (simp_all add: demo_started_def)
  have lib: "ce_wait demo_env = demo_wait_lib" by (simp add: demo_env_def)
  from Start_waits_until_ready [OF ds h(1)] obtain s3' s4 where
    "case ct_waitingFor demo_started of None \<Rightarrow> s4 = s3'
     | Some strategy \<Rightarrow> WaitUntilReady (ce_wait demo_env) strategy Background (target_of demo_env demo_started) s3' = (Ok (), s4)"
    by (elim exE conjE) (rule that)
  with ds show ?thesis unfolding lib h(2) option.case by blast
qed

theorem container_identity_invariant_witness:
  "\<exists>c' s'. operated demo_env (demo_container demo_engine, (0, ())) (c', s')
     \<and> c' = (demo_container demo_engine)\<lparr>ct_isRunning := ct_isRunning c'\<rparr>"
proof -
  obtain r c' s' where p: "perform demo_env (DoStart Background) (demo_container demo_engine, (0, ())) = (r, c', s')"
    using prod.exhaust by metis
  have "operated demo_env (demo_container demo_engine, (0, ())) (c', s')"
    by (rule operated.performs [OF operated.begins p])
  with container_identity_invariant [OF this] show ?thesis by blast
qed

text \<open>A negative timeout of less than a second does not mean to wait for ever: the container is killed at once.\<close>

lemma negative_fraction: "- (10 ^ 9) < d \<Longrightarrow> d < 0 \<Longrightarrow> whole_seconds d = 0"
  by (simp add: whole_seconds_def)

end
