(* ===== verification/Container_Run.thy ===== *)
theory Container_Run
  imports Container_Lifecycle
begin

text \<open>
  Creating a container: the hooks before creation, which fill in the request (\<open>lifecycle.create.go\<close> and
  \<open>lifecycle.go\<close>), and \<open>Run\<close> (\<open>container.run.go\<close>), which applies the options, validates the definition, runs
  the hooks, substitutes the image, has the container created and connected, and starts it. The Moby
  parsers of ports and platforms are parameters.
\<close>

section \<open>Creating\<close>

text \<open>
  The state of the hooks before creation: the definition, and the request that they fill in. \<open>cg_client\<close> is
  the client that the configuration hook was made with. (In the source the labels of the request and of
  the definition are one map; a hook of the user that changes the labels of the definition in place is
  not seen by the request here.)
\<close>

record ('w, 'h) creating =
  cg_def :: "('w, 'h) container_definition"
  cg_client :: "'w sdk"
  cg_input :: container_config
  cg_host :: host_config
  cg_nets :: endpoint_map

definition random_host_port :: "port_binding \<Rightarrow> port_binding" where
  "random_host_port b = (if pb_HostPort b = '''' then b\<lparr>pb_HostPort := ''0''\<rparr> else b)"

definition parsed_ports :: "(string \<Rightarrow> port outcome) \<Rightarrow> string list \<Rightarrow> port set" where
  "parsed_ports ParsePort ps = set (concat (map (\<lambda>p. case ParsePort p of Ok q \<Rightarrow> [q] | _ \<Rightarrow> []) ps))"

definition mergePortBindings ::
    "(string \<Rightarrow> port outcome) \<Rightarrow> port_map option \<Rightarrow> port_map option \<Rightarrow> string list \<Rightarrow> port_map" where
  "mergePortBindings ParsePort configPortMap exposedPortMap exposedPorts =
     (let exposed = (case exposedPortMap of None \<Rightarrow> Map.empty | Some m \<Rightarrow> m);
          config = (case configPortMap of None \<Rightarrow> Map.empty | Some m \<Rightarrow> m);
          mappedPorts = parsed_ports ParsePort exposedPorts;
          merged = (\<lambda>k. if config k \<noteq> None \<and> k \<in> mappedPorts then config k else exposed k)
      in (\<lambda>k. map_option (map random_host_port) (merged k)))"

text \<open>\<open>network.ParsePort\<close> of every element, and \<open>netip.ParseAddr\<close> of every host address that is not empty.\<close>

fun outcomes :: "'a outcome list \<Rightarrow> 'a list outcome" where
  "outcomes [] = Ok []"
| "outcomes (r # rs) = then_do r (\<lambda>x. then_do (outcomes rs) (\<lambda>xs. Ok (x # xs)))"

definition parse_binding :: "('o, 'w, 'h) container_env \<Rightarrow> string \<times> string \<Rightarrow> port_binding outcome" where
  "parse_binding env nb =
     (case nb of (hostIP, hostPort) \<Rightarrow>
        then_do (if hostIP \<noteq> '''' then ce_ParseAddr env hostIP else Ok '''') (\<lambda>addr.
          Ok \<lparr>pb_HostIP = addr, pb_HostPort = hostPort\<rparr>))"

definition parsePortSpecs ::
    "('o, 'w, 'h) container_env \<Rightarrow> string list \<Rightarrow> (port set \<times> port_map) outcome" where
  "parsePortSpecs env exposedPorts =
     then_do (ce_ParsePortSpecs env exposedPorts) (\<lambda>specs.
     then_do (outcomes (map (ce_ParsePort env) (ps_ports specs))) (\<lambda>ports.
     then_do (outcomes (map (\<lambda>(portStr, natBs).
                then_do (ce_ParsePort env portStr) (\<lambda>port.
                then_do (outcomes (map (parse_binding env) natBs)) (\<lambda>bs. Ok (port, bs)))) (ps_bindings specs))) (\<lambda>bindings.
       Ok (set ports, map_of (rev bindings)))))"

text \<open>The endpoint of the first network, which the container is created on.\<close>

definition first_endpoint ::
    "('w, 'h) creating \<Rightarrow> gctx \<Rightarrow> (endpoint_map, 'w) call" where
  "first_endpoint cg ctx s =
     (case df_networks (cg_def cg) of
        [] \<Rightarrow> (Ok Map.empty, s)
      | attachContainerTo # _ \<Rightarrow>
          st_wrap ''network inspect'' (en_NetworkInspect (sk_engine (cg_client cg)) ctx attachContainerTo True s)
            (\<lambda>nwInspect s.
              let aliases = (case nilmap_read (df_networkAliases (cg_def cg)) attachContainerTo of
                               Some a \<Rightarrow> a | None \<Rightarrow> []) in
              (Ok [attachContainerTo \<mapsto> Some \<lparr>es_Aliases = aliases, es_NetworkID = ni_ID nwInspect, es_IPAddress = ''''\<rparr>], s)))"

definition modified :: "('a \<Rightarrow> 'a) option \<Rightarrow> 'a \<Rightarrow> 'a" where
  "modified modifier x = (case modifier of None \<Rightarrow> x | Some f \<Rightarrow> f x)"

type_synonym ('a, 'w, 'h) on_creating =
  "('w, 'h) creating \<times> 'w clocked \<Rightarrow> 'a outcome \<times> ('w, 'h) creating \<times> 'w clocked"

definition preCreateContainerHook :: "('o, 'w, 'h) container_env \<Rightarrow> gctx \<Rightarrow> (unit, 'w, 'h) on_creating" where
  "preCreateContainerHook env ctx gs =
     (case gs of (cg, s0) \<Rightarrow>
      case first_endpoint cg ctx s0 of
        (Err e, s) \<Rightarrow> (Err e, cg, s)
      | (Panic p, s) \<Rightarrow> (Panic p, cg, s)
      | (Ok endpointSettings, s) \<Rightarrow>
          (let def = cg_def cg;
               input = modified (df_configModifier def) (cg_input cg);
               host = modified (df_hostConfigModifier def) (cg_host cg);
               nets = modified (df_endpointSettingsModifier def) endpointSettings;
               exposedPorts = df_exposedPorts def;
               auto = (exposedPorts = [] \<and> \<not> ce_IsContainer env (hc_NetworkMode host));
               host = (if auto then host\<lparr>hc_PublishAllPorts := True\<rparr> else host);
               cg = cg\<lparr>cg_input := input, cg_host := host, cg_nets := nets\<rparr>
           in case parsePortSpecs env exposedPorts of
             Err e \<Rightarrow> (Err e, cg, s)
           | Panic p \<Rightarrow> (Panic p, cg, s)
           | Ok (exposedPortSet, exposedPortMap) \<Rightarrow>
               (let bindings = (if auto then exposedPortMap
                                else mergePortBindings (ce_ParsePort env) (hc_PortBindings host) (Some exposedPortMap) exposedPorts)
                in (Ok (), cg\<lparr>cg_input := input\<lparr>cc_ExposedPorts := exposedPortSet\<rparr>,
                              cg_host := host\<lparr>hc_PortBindings := Some bindings\<rparr>\<rparr>, s))))"

text \<open>Whether the image has to be pulled: always on request, else when it is missing or of another platform.\<close>

definition should_pull ::
    "('w, 'h) container_definition \<Rightarrow> image_platform option \<Rightarrow> image_platform outcome \<Rightarrow> bool outcome" where
  "should_pull def platform inspected =
     (let differs = (\<lambda>img. case platform of
                             None \<Rightarrow> False
                           | Some p \<Rightarrow> ip_Architecture img \<noteq> ip_Architecture p \<or> ip_OS img \<noteq> ip_OS p) in
      if df_alwaysPullImage def then Ok True
      else case inspected of
        Ok img \<Rightarrow> Ok (differs img)
      | Err e \<Rightarrow> (if errors_is e ErrNotFound then Ok True else Err e)
      | Panic p \<Rightarrow> Panic p)"

definition pull_hook :: "('o, 'w, 'h) container_env \<Rightarrow> gctx \<Rightarrow> (unit, 'w, 'h) on_creating" where
  "pull_hook env ctx gs =
     (case gs of (cg, s0) \<Rightarrow>
      let def = cg_def cg in
      case df_dockerClient def of
        None \<Rightarrow> (Panic ''nil pointer dereference'', gs)
      | Some cli \<Rightarrow>
          (case (if df_imagePlatform def = '''' then Ok None
                 else then_wrap (''invalid platform '' @ df_imagePlatform def)
                        (ce_platforms_Parse env (df_imagePlatform def)) (\<lambda>p. Ok (Some p))) of
             Err e \<Rightarrow> (Err e, gs)
           | Panic p \<Rightarrow> (Panic p, gs)
           | Ok platform \<Rightarrow>
               (let cg = (if platform = None then cg else cg\<lparr>cg_def := def\<lparr>df_platform := platform\<rparr>\<rparr>);
                    inspected = (if df_alwaysPullImage def then (Err (Class ErrNotFound ''''), s0)
                                 else en_ImageInspect (sk_engine cli) ctx (df_image def) s0) in
                case (should_pull def platform (fst inspected), snd inspected) of
                  (Err e, s) \<Rightarrow> (Err e, cg, s)
                | (Panic p, s) \<Rightarrow> (Panic p, cg, s)
                | (Ok False, s) \<Rightarrow> (Ok (), cg, s)
                | (Ok True, s) \<Rightarrow>
                    (case Pull (ce_image env) ctx (df_image def)
                            ([WithPullClient (Some cli)] @ df_pullOptions def
                             @ [WithPullOptions \<lparr>ip_RegistryAuth = '''',
                                  ip_Platforms = (case platform of None \<Rightarrow> [] | Some p \<Rightarrow> [p])\<rparr>]) s of
                       (r, s) \<Rightarrow> (r, cg, s)))))"

fun run_definition_hook ::
    "('o, 'w, 'h) container_env \<Rightarrow> gctx \<Rightarrow> 'h definition_hook \<Rightarrow> (unit, 'w, 'h) on_creating" where
  "run_definition_hook env ctx LogCreating (cg, s) =
     (case df_dockerClient (cg_def cg) of
        None \<Rightarrow> (Panic ''nil pointer dereference'', cg, s)
      | Some cli \<Rightarrow> (Ok (), cg, sk_log cli Info_level ''Creating container'' [(''image'', df_image (cg_def cg))] s))"
| "run_definition_hook env ctx PreCreate gs = preCreateContainerHook env ctx gs"
| "run_definition_hook env ctx PullHook gs = pull_hook env ctx gs"
| "run_definition_hook env ctx (UserDefinitionHook h) (cg, s) =
     (case ce_definition_hook env h ctx (cg_def cg) s of (r, d, s') \<Rightarrow> (r, cg\<lparr>cg_def := d\<rparr>, s'))"

text \<open>The first hook that fails ends these.\<close>

fun applyDefinitionHooks ::
    "('o, 'w, 'h) container_env \<Rightarrow> gctx \<Rightarrow> 'h definition_hook list \<Rightarrow> (unit, 'w, 'h) on_creating" where
  "applyDefinitionHooks env ctx [] gs = (Ok (), gs)"
| "applyDefinitionHooks env ctx (h # hs) gs =
     st_wrap ''apply definition hook'' (run_definition_hook env ctx h gs) (\<lambda>_ gs. applyDefinitionHooks env ctx hs gs)"

text \<open>A definition without hooks is one with an empty list of them.\<close>

definition applyLifecycleHooks_definition ::
    "('h lifecycle_hooks \<Rightarrow> (unit, 'w, 'h) on_creating) \<Rightarrow> (unit, 'w, 'h) on_creating" where
  "applyLifecycleHooks_definition hook gs = run_all hook (df_lifecycleHooks (cg_def (fst gs))) [] gs"

definition creatingHook :: "('o, 'w, 'h) container_env \<Rightarrow> gctx \<Rightarrow> (unit, 'w, 'h) on_creating" where
  "creatingHook env ctx = applyLifecycleHooks_definition (\<lambda>h. applyDefinitionHooks env ctx (PreCreates h))"


section \<open>Run\<close>

definition container_version :: string where
  "container_version = ''0.1.0-alpha016''"

definition container_moduleLabel :: string where
  "container_moduleLabel = LabelBase @ ''.container''"

text \<open>Every substitutor sees what the ones before it made of the image.\<close>

fun substitute_image ::
    "('o, 'w, 'h) container_env \<Rightarrow> 'w sdk \<Rightarrow> image_substitutor list \<Rightarrow> string \<Rightarrow> (string, 'w) call" where
  "substitute_image env cli [] img s = (Ok img, s)"
| "substitute_image env cli (is # iss) img s =
     st_wrap (''failed to substitute image '' @ img @ '' with '' @ Description is)
       (Substitute (pf_parse_ref (se_platform (ce_sdk env))) (ce_JoinPath env) is img, s) (\<lambda>modifiedTag s.
         substitute_image env cli iss modifiedTag
           (if modifiedTag \<noteq> img
            then sk_log cli Info_level ''Replacing image'' [(''description'', Description is), (''from'', img), (''to'', modifiedTag)] s
            else s))"

text \<open>The other networks of the definition, one by one.\<close>

fun connect_networks ::
    "'w engine \<Rightarrow> gctx \<Rightarrow> string \<Rightarrow> string list smap option \<Rightarrow> string list \<Rightarrow> (unit, 'w) call" where
  "connect_networks en ctx containerID aliases [] s = (Ok (), s)"
| "connect_networks en ctx containerID aliases (n # ns) s =
     st_wrap ''network inspect'' (en_NetworkInspect en ctx n True s) (\<lambda>nwInspect s.
     st_wrap ''network connect''
       (en_NetworkConnect en ctx (ni_ID nwInspect) containerID
          \<lparr>es_Aliases = (case nilmap_read aliases n of Some a \<Rightarrow> a | None \<Rightarrow> []), es_NetworkID = '''', es_IPAddress = ''''\<rparr> s)
       (\<lambda>_ s. connect_networks en ctx containerID aliases ns s))"

text \<open>The request and the hooks that \<open>Run\<close> starts from, once the options are applied and valid.\<close>

definition default_hooks :: "sdk_file list \<Rightarrow> 'h lifecycle_hooks list" where
  "default_hooks files =
     [DefaultLoggingHook, defaultPreCreateHook, defaultCopyFileToContainerHook files, defaultReadinessHook]"

definition run_labels :: "('w, 'h) container_definition \<Rightarrow> string smap" where
  "run_labels def = (nilmap_read (df_labels def))(container_moduleLabel \<mapsto> container_version)"

definition initial_creating :: "'w sdk \<Rightarrow> ('w, 'h) container_definition \<Rightarrow> ('w, 'h) creating" where
  "initial_creating cli def =
     \<lparr>cg_def = def\<lparr>df_dockerClient := Some cli, df_labels := Some (run_labels def),
                   df_lifecycleHooks := [combineContainerHooks (default_hooks (df_files def)) (df_lifecycleHooks def)]\<rparr>,
      cg_client = cli,
      cg_input = \<lparr>cc_Entrypoint = df_entrypoint def, cc_Image = df_image def,
                  cc_Env = map (\<lambda>(k, v). k @ ''='' @ v) (df_env def), cc_Labels = Some (run_labels def),
                  cc_Cmd = df_cmd def, cc_ExposedPorts = {}\<rparr>,
      cg_host = zero_host_config, cg_nets = Map.empty\<rparr>"

definition container_of :: "'w sdk \<Rightarrow> ('w, 'h) container_definition \<Rightarrow> string \<Rightarrow> ('w, 'h) container" where
  "container_of cli def respID =
     \<lparr>ct_dockerClient = cli, ct_containerID = respID, ct_shortID = take 12 respID, ct_waitingFor = df_waitingFor def,
      ct_image = df_image def, ct_exposedPorts = df_exposedPorts def, ct_logger = sk_log cli,
      ct_lifecycleHooks = df_lifecycleHooks def, ct_isRunning = False\<rparr>"

lemma container_of_simps [simp]:
  "ctr_engine (container_of cli def i) = sk_engine cli" "container_ID (container_of cli def i) = i"
  "ct_dockerClient (container_of cli def i) = cli" "ct_image (container_of cli def i) = df_image def"
  "ct_lifecycleHooks (container_of cli def i) = df_lifecycleHooks def"
  by (simp_all add: container_of_def ctr_engine_def container_ID_def)

text \<open>The part of \<open>Run\<close> after the container was created: it always returns the container.\<close>

definition run_created ::
    "('o, 'w, 'h) container_env \<Rightarrow> gctx \<Rightarrow> ('w, 'h) container_definition \<Rightarrow> (unit, 'w, 'h) on_container" where
  "run_created env ctx def cs =
     st_do (reading (\<lambda>c. connect_networks (ctr_engine c) ctx (container_ID c) (df_networkAliases def) (drop 1 (df_networks def))) cs)
       (\<lambda>_ cs.
     st_wrap ''created hook'' (createdHook env ctx cs) (\<lambda>_ cs.
     if df_started def then st_wrap ''start container'' (Start env ctx cs) (\<lambda>_ cs. (Ok (), cs))
     else (Ok (), cs)))"

text \<open>What is requested once the hooks have run: the image substituted, everything else as they left it.\<close>

definition requested ::
    "('o, 'w, 'h) container_env \<Rightarrow> gctx \<Rightarrow> ('w, 'h) creating
       \<Rightarrow> ('w sdk \<times> ('w, 'h) container_definition \<times> container_create, 'w) call" where
  "requested env ctx cg s =
     (case df_dockerClient (cg_def cg) of
        None \<Rightarrow> (Panic ''nil pointer dereference'', s)
      | Some cli \<Rightarrow>
          st_do (substitute_image env cli (df_imageSubstitutors (cg_def cg)) (df_image (cg_def cg)) s) (\<lambda>img s.
          let def = (cg_def cg)\<lparr>df_image := img\<rparr> in
          (Ok (cli, def,
               \<lparr>cr_Config = Some ((cg_input cg)\<lparr>cc_Image := img\<rparr>), cr_HostConfig = cg_host cg,
                cr_Networking = cg_nets cg, cr_Platform = df_platform def, cr_Name = df_name def\<rparr>), s)))"

text \<open>The part of \<open>Run\<close> before: the request of the daemon, and the client and the definition it was made from.\<close>

definition run_request ::
    "('o, 'w, 'h) container_env \<Rightarrow> gctx \<Rightarrow> ('w, 'h) customizer list
       \<Rightarrow> ('w sdk \<times> ('w, 'h) container_definition \<times> container_create, 'w) call" where
  "run_request env ctx opts s =
     st_do (customize opts initial_definition s) (\<lambda>def s.
     case validate_definition def of
       Some e \<Rightarrow> (Err (wrapf ''validate'' e), s)
     | None \<Rightarrow>
         st_do (sdk_or_default (ce_sdk env) ctx (df_dockerClient def) s) (\<lambda>cli s.
         case creatingHook env ctx (initial_creating cli def, s) of
           (Err e, cg, s) \<Rightarrow> (Err e, s)
         | (Panic p, cg, s) \<Rightarrow> (Panic p, s)
         | (Ok _, cg, s) \<Rightarrow> requested env ctx cg s))"

definition Run ::
    "('o, 'w, 'h) container_env \<Rightarrow> gctx \<Rightarrow> ('w, 'h) customizer list \<Rightarrow> 'w clocked
       \<Rightarrow> unit outcome \<times> ('w, 'h) container option \<times> 'w clocked" where
  "Run env ctx opts s =
     (case st_do (run_request env ctx opts s) (\<lambda>(cli, def, req) s.
             st_wrap ''container create'' (ContainerCreate (se_version (ce_sdk env)) (sk_engine cli) ctx req s)
               (\<lambda>respID s.
                 if length respID < 12 then (Panic ''slice bounds out of range'', s)
                 else (Ok (container_of cli def respID, def), s))) of
        (Err e, s) \<Rightarrow> (Err e, None, s)
      | (Panic p, s) \<Rightarrow> (Panic p, None, s)
      | (Ok (c, def), s) \<Rightarrow> (case run_created env ctx def (c, s) of (r, c', s') \<Rightarrow> (r, Some c', s')))"

section \<open>Lemmas\<close>

text \<open>A container with the given ID was connected to networks, one after the other: each was inspected and then joined under its ID.\<close>

inductive joined ::
    "'w engine \<Rightarrow> gctx \<Rightarrow> string \<Rightarrow> string list smap option \<Rightarrow> string list \<Rightarrow> 'w clocked \<Rightarrow> 'w clocked \<Rightarrow> bool"
  for en ctx containerID aliases where
  joined_all: "joined en ctx containerID aliases [] s s"
| joined_next: "en_NetworkInspect en ctx n True s = (Ok ni, s1) \<Longrightarrow>
     en_NetworkConnect en ctx (ni_ID ni) containerID
       \<lparr>es_Aliases = (case nilmap_read aliases n of Some a \<Rightarrow> a | None \<Rightarrow> []), es_NetworkID = '''', es_IPAddress = ''''\<rparr> s1 = (Ok (), s2) \<Longrightarrow>
     joined en ctx containerID aliases ns s2 t \<Longrightarrow> joined en ctx containerID aliases (n # ns) s t"

lemma connect_networks_Ok: "connect_networks en ctx i aliases ns s = (Ok u, t) \<Longrightarrow> joined en ctx i aliases ns s t"
proof (induction ns arbitrary: s)
  case (Cons m ns)
  from Cons.prems obtain ni s1 s2 where "en_NetworkInspect en ctx m True s = (Ok ni, s1)"
    "en_NetworkConnect en ctx (ni_ID ni) i
       \<lparr>es_Aliases = (case nilmap_read aliases m of Some a \<Rightarrow> a | None \<Rightarrow> []), es_NetworkID = '''', es_IPAddress = ''''\<rparr> s1 = (Ok (), s2)"
    and "connect_networks en ctx i aliases ns s2 = (Ok u, t)"
    by (auto simp: st_wrap_Ok_iff st_wrap_unit_iff)
  then show ?case using Cons.IH by (blast intro: joined_next)
qed (simp add: joined_all)

lemma run_request_image:
  assumes "run_request env ctx opts s = (Ok (cli, def, req), t)"
  shows "\<exists>cfg. cr_Config req = Some cfg \<and> cc_Image cfg = df_image def \<and> cr_Name req = df_name def"
proof -
  from assms obtain d s1 where v: "(case validate_definition d of Some e \<Rightarrow> (Err (wrapf ''validate'' e), s1)
     | None \<Rightarrow> st_do (sdk_or_default (ce_sdk env) ctx (df_dockerClient d) s1) (\<lambda>cli s.
         case creatingHook env ctx (initial_creating cli d, s) of
           (Err e, cg, s) \<Rightarrow> (Err e, s)
         | (Panic p, cg, s) \<Rightarrow> (Panic p, s)
         | (Ok _, cg, s) \<Rightarrow> requested env ctx cg s)) = (Ok (cli, def, req), t)"
    unfolding run_request_def st_do_Ok_iff by blast
  then obtain cli1 s2 where "(case creatingHook env ctx (initial_creating cli1 d, s2) of
           (Err e, cg, s) \<Rightarrow> (Err e, s)
         | (Panic p, cg, s) \<Rightarrow> (Panic p, s)
         | (Ok _, cg, s) \<Rightarrow> requested env ctx cg s) = (Ok (cli, def, req), t)"
    by (cases "validate_definition d") (auto simp: st_do_Ok_iff)
  then obtain cg s3 where "requested env ctx cg s3 = (Ok (cli, def, req), t)"
    by (auto split: prod.splits outcome.splits)
  then show ?thesis
    by (auto simp: requested_def st_do_Ok_iff Let_def split: option.splits)
qed

lemma run_created_keeps: "only_running cs (snd (run_created env ctx def cs))"
  unfolding run_created_def createdHook_def
  by (intro keeps)

text \<open>What the daemon is asked to create: the request with the labels of the SDK.\<close>

definition labelled :: "string \<Rightarrow> container_config \<Rightarrow> container_create \<Rightarrow> container_create" where
  "labelled version cfg req = req\<lparr>cr_Config := Some (cfg\<lparr>cc_Labels := AddSDKLabels version (cc_Labels cfg)\<rparr>)\<rparr>"

lemma run_created_steps:
  assumes "run_created env ctx def (c, s) = (Ok u, (c', s'))"
  obtains s1 c2 s2 where "joined (ctr_engine c) ctx (container_ID c) (df_networkAliases def) (drop 1 (df_networks def)) s s1"
    and "createdHook env ctx (c, s1) = (Ok (), (c2, s2))"
    and "if df_started def then Start env ctx (c2, s2) = (Ok (), (c', s')) else (c', s') = (c2, s2)"
proof -
  from assms obtain cs1 cs2 where 1: "reading (\<lambda>c. connect_networks (ctr_engine c) ctx (container_ID c)
        (df_networkAliases def) (drop 1 (df_networks def))) (c, s) = (Ok (), cs1)"
    and 2: "createdHook env ctx cs1 = (Ok (), cs2)"
    and 3: "(if df_started def then st_wrap ''start container'' (Start env ctx cs2) (\<lambda>_ cs. (Ok (), cs)) else (Ok (), cs2)) = (Ok u, (c', s'))"
    unfolding run_created_def st_do_Ok_iff st_wrap_unit_iff by auto
  from 1 obtain s1 where c1: "cs1 = (c, s1)"
    and join: "connect_networks (ctr_engine c) ctx (container_ID c) (df_networkAliases def) (drop 1 (df_networks def)) s = (Ok (), s1)"
    by (cases cs1) (simp add: reading_Ok)
  obtain c2 s2 where c2: "cs2 = (c2, s2)" using prod.exhaust by blast
  from 3 c2 have "if df_started def then Start env ctx (c2, s2) = (Ok (), (c', s')) else (c', s') = (c2, s2)"
    by (auto simp: st_wrap_unit_iff split: if_splits)
  with 2 c1 c2 connect_networks_Ok [OF join] that show ?thesis by blast
qed

text \<open>\<open>Run\<close> returned a container: where it comes from.\<close>

lemma Run_made:
  assumes "Run env ctx opts s = (r, Some c, s')"
  obtains cli def req cfg s1 s2 where "run_request env ctx opts s = (Ok (cli, def, req), s1)" and "cr_Config req = Some cfg"
    and "en_ContainerCreate (sk_engine cli) ctx (labelled (se_version (ce_sdk env)) cfg req) s1 = (Ok (container_ID c), s2)"
    and "ct_dockerClient c = cli" and "ct_image c = cc_Image cfg" and "ct_lifecycleHooks c = df_lifecycleHooks def"
    and "12 \<le> length (container_ID c)"
    and "run_created env ctx def (container_of cli def (container_ID c), s2) = (r, (c, s'))"
proof -
  obtain q s1 where q: "run_request env ctx opts s = (q, s1)" by (cases "run_request env ctx opts s")
  with assms obtain x where "q = Ok x" by (cases q) (auto simp: Run_def)
  moreover obtain cli def req where "x = (cli, def, req)" using prod_cases3 by blast
  ultimately have q: "run_request env ctx opts s = (Ok (cli, def, req), s1)" using q by simp
  from run_request_image [OF q] obtain cfg where cfg: "cr_Config req = Some cfg" "cc_Image cfg = df_image def" by blast
  let ?make = "en_ContainerCreate (sk_engine cli) ctx (labelled (se_version (ce_sdk env)) cfg req) s1"
  obtain a s2 where a: "?make = (a, s2)" by (cases ?make)
  have create: "ContainerCreate (se_version (ce_sdk env)) (sk_engine cli) ctx req s1 = (a, s2)"
    using a cfg by (simp add: ContainerCreate_def labelled_def)
  with assms q obtain respID where respID: "a = Ok respID" "\<not> length respID < 12"
    by (cases a) (auto simp: Run_def split: if_splits)
  let ?c = "container_of cli def respID"
  have made: "run_created env ctx def (?c, s2) = (r, (c, s'))"
    using assms q create respID by (simp add: Run_def split: prod.splits)
  from run_created_keeps [of "(?c, s2)" env ctx def] made obtain b where c: "c = Running b ?c"
    by (auto simp: only_running_def)
  then have "container_ID c = respID" by simp
  with that [OF q cfg(1), of s2] a respID cfg(2) made c show ?thesis by simp
qed

text \<open>
  C3: \<open>Run\<close> never loses a container. When it returns one, with or without an error, that is the container
  which the daemon created for the request, with the image of the request, behind the client that created
  it; if there was no error, it was then connected to all its other networks, then its hooks after creation
  succeeded, and then, unless told not to, it was started. When it returns none, there is an error, and
  either the daemon created nothing or it answered with an ID that is too short to be one.
\<close>

theorem Run_outcome:
  assumes "Run env ctx opts s = (r, co, s')"
  shows "case co of
     Some c \<Rightarrow> \<exists>cli def req cfg s1 s2.
         run_request env ctx opts s = (Ok (cli, def, req), s1) \<and> cr_Config req = Some cfg
       \<and> en_ContainerCreate (sk_engine cli) ctx (labelled (se_version (ce_sdk env)) cfg req) s1 = (Ok (container_ID c), s2)
       \<and> ct_dockerClient c = cli \<and> ct_image c = cc_Image cfg
       \<and> (r = Ok () \<longrightarrow> (\<exists>s3 c4 s4.
              joined (sk_engine cli) ctx (container_ID c) (df_networkAliases def) (drop 1 (df_networks def)) s2 s3
            \<and> createdHook env ctx (container_of cli def (container_ID c), s3) = (Ok (), (c4, s4))
            \<and> (if df_started def then Start env ctx (c4, s4) = (Ok (), (c, s')) else (c, s') = (c4, s4))))
   | None \<Rightarrow> r \<noteq> Ok ()
       \<and> (\<forall>cli def req cfg s1 s2 respID.
            run_request env ctx opts s = (Ok (cli, def, req), s1) \<and> cr_Config req = Some cfg
            \<and> en_ContainerCreate (sk_engine cli) ctx (labelled (se_version (ce_sdk env)) cfg req) s1 = (Ok respID, s2)
            \<longrightarrow> length respID < 12)"
proof (cases co)
  case None
  obtain q s1 where q: "run_request env ctx opts s = (q, s1)" by (cases "run_request env ctx opts s")
  have "length respID < 12" if "q = Ok (cli, def, req)" and cfg: "cr_Config req = Some cfg"
    and "en_ContainerCreate (sk_engine cli) ctx (labelled (se_version (ce_sdk env)) cfg req) s1 = (Ok respID, s2)"
    for cli def req cfg respID s2
    using assms None q that by (auto simp: Run_def ContainerCreate_def labelled_def split: prod.splits if_splits)
  moreover have "r \<noteq> Ok ()"
    using assms None by (auto simp: Run_def split: prod.splits outcome.splits)
  ultimately show ?thesis using None q by auto
next
  case (Some c)
  with assms have run: "Run env ctx opts s = (r, Some c, s')" by simp
  then obtain cli def req cfg s1 s2 where made: "run_request env ctx opts s = (Ok (cli, def, req), s1)" "cr_Config req = Some cfg"
    "en_ContainerCreate (sk_engine cli) ctx (labelled (se_version (ce_sdk env)) cfg req) s1 = (Ok (container_ID c), s2)"
    "ct_dockerClient c = cli" "ct_image c = cc_Image cfg"
    and rest: "run_created env ctx def (container_of cli def (container_ID c), s2) = (r, (c, s'))"
    by (rule Run_made)
  have "\<exists>s3 c4 s4. joined (sk_engine cli) ctx (container_ID c) (df_networkAliases def) (drop 1 (df_networks def)) s2 s3
      \<and> createdHook env ctx (container_of cli def (container_ID c), s3) = (Ok (), (c4, s4))
      \<and> (if df_started def then Start env ctx (c4, s4) = (Ok (), (c, s')) else (c, s') = (c4, s4))" if "r = Ok ()"
    using rest [unfolded that] by (rule run_created_steps) (unfold container_of_simps, blast)
  with made show ?thesis unfolding Some option.case by blast
qed

text \<open>
  C2: the order of a creation that succeeds, for the hooks that \<open>Run\<close> sets up: the daemon created the
  container for the request; then it was connected to its other networks, one after the other; then the
  hooks of the user after creation succeeded, and then all files were copied into it; and only then it was
  started, if at all, and found ready. Every step begins in the world that the one before it left, and the
  world after the last is the one in which \<open>Run\<close> returns.
\<close>

theorem Run_in_order:
  assumes run: "Run env ctx opts s = (Ok (), Some c, s')"
    and hooks: "ct_lifecycleHooks c = [combineContainerHooks
       [DefaultLoggingHook, defaultPreCreateHook, defaultCopyFileToContainerHook files, defaultReadinessHook] us]"
  shows "\<exists>cli def req cfg s1 s2 s3 b4 s4.
     run_request env ctx opts s = (Ok (cli, def, req), s1) \<and> cr_Config req = Some cfg \<and> ct_dockerClient c = cli
   \<and> en_ContainerCreate (sk_engine cli) ctx (labelled (se_version (ce_sdk env)) cfg req) s1 = (Ok (container_ID c), s2)
   \<and> joined (sk_engine cli) ctx (container_ID c) (df_networkAliases def) (drop 1 (df_networks def)) s2 s3
   \<and> in_turn (run_hook env ctx) (concat (map PostCreates us) @ [LogHook ''Container created'', CopyFiles files])
       (Running False c, s3) (Running b4 c, s4)
   \<and> (if df_started def then started_in_order env ctx (hd (ct_lifecycleHooks c)) (concat (map PostStarts us)) (Running b4 c, s4) (c, s')
      else (c, s') = (Running b4 c, s4))"
proof -
  let ?h = "standard_hooks files us"
  from run obtain cli def req cfg s1 s2 where made: "run_request env ctx opts s = (Ok (cli, def, req), s1)" "cr_Config req = Some cfg"
    "en_ContainerCreate (sk_engine cli) ctx (labelled (se_version (ce_sdk env)) cfg req) s1 = (Ok (container_ID c), s2)"
    "ct_dockerClient c = cli" and rest: "run_created env ctx def (container_of cli def (container_ID c), s2) = (Ok (), (c, s'))"
    by (rule Run_made)
  let ?c = "container_of cli def (container_ID c)"
  have "only_running (?c, s2) (c, s')" using run_created_keeps [of "(?c, s2)" env ctx def] rest by simp
  then have c: "Running b ?c = Running b c" for b
    by (auto simp: only_running_def) (metis Running_simps(1))
  have start: "?c = Running False c" using c [of False] by (simp add: Running_def container_of_def)
  from rest obtain s3 c4 s4 where joined: "joined (sk_engine cli) ctx (container_ID c) (df_networkAliases def) (drop 1 (df_networks def)) s2 s3"
    and created: "createdHook env ctx (?c, s3) = (Ok (), (c4, s4))"
    and started: "if df_started def then Start env ctx (c4, s4) = (Ok (), (c, s')) else (c, s') = (c4, s4)"
    by (rule run_created_steps) (unfold container_of_simps)
  from created [unfolded start createdHook_def] obtain b4 where c4: "c4 = Running b4 c"
    and turn: "in_turn (run_hook env ctx) (PostCreates ?h) (Running False c, s3) (Running b4 c, s4)"
    by (rule applyLifecycleHooks_turn [OF _ hooks]) simp
  have "if df_started def then started_in_order env ctx (hd (ct_lifecycleHooks c)) (concat (map PostStarts us)) (Running b4 c, s4) (c, s')
      else (c, s') = (Running b4 c, s4)"
    using started c4 hooks Start_in_order [of env ctx "Running b4 c" s4 "()" "(c, s')" files us] by (simp split: if_splits)
  with made joined turn [unfolded standard_hook_fields] show ?thesis by blast
qed

definition demo_options :: "(unit, unit) customizer list" where
  "demo_options = [WithImage ''alpine'', WithClient (Some demo_sdk), WithNetworkName [''db''] ''front'', WithNetworkName [] ''back'']"

lemmas creation_defs = Run_def run_request_def requested_def WithImage_def WithClient_def WithNetworkName_def attach_def
  initial_definition_def validate_definition_def validateMounts_def errors_join_def creatingHook_def applyLifecycleHooks_definition_def initial_creating_def
  default_hooks_def DefaultLoggingHook_def defaultPreCreateHook_def defaultCopyFileToContainerHook_def defaultReadinessHook_def
  no_hooks_def run_labels_def preCreateContainerHook_def first_endpoint_def modified_def parsePortSpecs_def zero_host_config_def
  container_of_def ContainerCreate_def run_created_def reading_def hook_defs applyLifecycleHooks_def applyContainerHooks_def
  Start_def container_ID_def ctr_engine_def running_def Running_def await_ready_def closing_client_def Let_def nilmap_read_def
  sdk_or_default_def pull_hook_def should_pull_def

lemma demo_Run:
  "\<exists>c s'. Run demo_env Background demo_options (0, ()) = (Ok (), Some c, s') \<and> container_ID c = ''0123456789abcdef''"
  by (simp add: creation_defs demo_options_def demo_env_def demo_sdk_def demo_engine_def discard_logger_def)

theorem Run_outcome_witness:
  "\<exists>c s' req s1 s2. Run demo_env Background demo_options (0, ()) = (Ok (), Some c, s')
     \<and> en_ContainerCreate (ctr_engine c) Background req s1 = (Ok (container_ID c), s2)"
proof -
  obtain c s' where run: "Run demo_env Background demo_options (0, ()) = (Ok (), Some c, s')"
    using demo_Run by blast
  from Run_outcome [OF run] obtain cli req cfg s1 s2 where
    "en_ContainerCreate (sk_engine cli) Background (labelled (se_version (ce_sdk demo_env)) cfg req) s1 = (Ok (container_ID c), s2)"
    "ct_dockerClient c = cli"
    unfolding option.case by (elim exE conjE) (rule that)
  with run show ?thesis unfolding ctr_engine_def by metis
qed


definition demo_file :: sdk_file where
  "demo_file = \<lparr>fi_Reader = Some ''[server]'', fi_HostPath = '''', fi_ContainerPath = ''/etc/app.ini'', fi_Mode = 420\<rparr>"

definition demo_full_options :: "(unit, unit) customizer list" where
  "demo_full_options = demo_options @ [WithFiles [demo_file], WithWaitStrategy [Some (SNop (ForNop (\<lambda>_ _ s. (Ok (), s))))]]"

lemmas full_creation_defs = creation_defs demo_full_options_def demo_options_def demo_env_def demo_sdk_def demo_engine_def discard_logger_def
  demo_file_def WithFiles_def WithWaitStrategy_def WithWaitStrategyAndDeadline_def

lemma demo_full_request:
  "\<exists>cli def req s1. run_request demo_env Background demo_full_options (0, ()) = (Ok (cli, def, req), s1) \<and> df_started def"
  by (simp add: full_creation_defs)

lemma demo_full_Run:
  "\<exists>c s'. Run demo_env Background demo_full_options (0, ()) = (Ok (), Some c, s')
     \<and> ct_lifecycleHooks c = [standard_hooks [demo_file] []] \<and> ct_waitingFor c \<noteq> None"
  by (simp add: full_creation_defs strategy_desc_def ForAll_def ForNop_def multi_wait_def Nop_WaitUntilReady_def
      WithTimeout_def Background_def tarFile_def CopyToContainer_def file_content_def validate_file_def)

theorem Run_in_order_witness:
  "\<exists>c s' b s4. Run demo_env Background demo_full_options (0, ()) = (Ok (), Some c, s') \<and> ct_waitingFor c \<noteq> None
     \<and> started_in_order demo_env Background (standard_hooks [demo_file] []) [] (Running b c, s4) (c, s')"
proof -
  obtain c s' where run: "Run demo_env Background demo_full_options (0, ()) = (Ok (), Some c, s')"
    and hooks: "ct_lifecycleHooks c = [standard_hooks [demo_file] []]" and wait: "ct_waitingFor c \<noteq> None"
    using demo_full_Run by blast
  from Run_in_order [OF run hooks] obtain cli def req s1 b4 s4 where
    "run_request demo_env Background demo_full_options (0, ()) = (Ok (cli, def, req), s1)"
    and started: "if df_started def then started_in_order demo_env Background (hd (ct_lifecycleHooks c)) (concat (map PostStarts ([] :: unit lifecycle_hooks list))) (Running b4 c, s4) (c, s')
      else (c, s') = (Running b4 c, s4)"
    by (elim exE conjE) (rule that, assumption+)
  then have "df_started def" using demo_full_request by auto
  with started hooks have "started_in_order demo_env Background (standard_hooks [demo_file] []) [] (Running b4 c, s4) (c, s')"
    by simp
  with run wait show ?thesis by blast
qed


section \<open>Ports\<close>

text \<open>Whether the ports of the image are published without being asked for: none is exposed, and the network is its own.\<close>

definition publishes_all :: "('o, 'w, 'h) container_env \<Rightarrow> ('w, 'h) creating \<Rightarrow> bool" where
  "publishes_all env cg \<longleftrightarrow> df_exposedPorts (cg_def cg) = []
     \<and> \<not> ce_IsContainer env (hc_NetworkMode (modified (df_hostConfigModifier (cg_def cg)) (cg_host cg)))"

lemma preCreateContainerHook_Ok:
  assumes "preCreateContainerHook env ctx (cg, s) = (Ok (), cg', s')"
  obtains endpoints ports bindings where "first_endpoint cg ctx s = (Ok endpoints, s')"
    and "parsePortSpecs env (df_exposedPorts (cg_def cg)) = Ok (ports, bindings)"
    and "cc_ExposedPorts (cg_input cg') = ports"
    and "cg_nets cg' = modified (df_endpointSettingsModifier (cg_def cg)) endpoints"
    and "hc_PublishAllPorts (cg_host cg') = (publishes_all env cg
           \<or> hc_PublishAllPorts (modified (df_hostConfigModifier (cg_def cg)) (cg_host cg)))"
    and "hc_PortBindings (cg_host cg') = Some (if publishes_all env cg then bindings
           else mergePortBindings (ce_ParsePort env)
                  (hc_PortBindings (modified (df_hostConfigModifier (cg_def cg)) (cg_host cg)))
                  (Some bindings) (df_exposedPorts (cg_def cg)))"
  using assms
  by (cases "publishes_all env cg")
    (auto simp: preCreateContainerHook_def publishes_all_def Let_def split: prod.splits outcome.splits if_splits)

lemma random_host_port_asked: "pb_HostPort (random_host_port b) \<noteq> ''''"
  by (simp add: random_host_port_def)

lemma mem_parsed_ports: "p \<in> parsed_ports ParsePort ps \<longleftrightarrow> (\<exists>x \<in> set ps. ParsePort x = Ok p)"
  by (force simp: parsed_ports_def split: outcome.splits)

text \<open>The hooks before creation other than the one of the package leave the request as it is.\<close>

definition same_request :: "('w, 'h) creating \<Rightarrow> ('w, 'h) creating \<Rightarrow> bool" where
  "same_request cg cg' \<longleftrightarrow> cg_input cg' = cg_input cg \<and> cg_host cg' = cg_host cg \<and> cg_nets cg' = cg_nets cg"

lemma pull_hook_same: "same_request cg (fst (snd (pull_hook env ctx (cg, s))))"
proof -
  have frame: "fst (snd (case b of
        Ok True \<Rightarrow> (case x of (r, s) \<Rightarrow> (r, cg1, s))
      | Ok False \<Rightarrow> (Ok (), cg1, t)
      | Err e \<Rightarrow> (Err e, cg1, t)
      | Panic p \<Rightarrow> (Panic p, cg1, t))) = cg1" for b t cg1 and x :: "unit outcome \<times> 'w clocked"
    by (cases b) (simp_all split: bool.split prod.split)
  have keep: "same_request cg (if platform = None then cg else cg\<lparr>cg_def := d\<rparr>)" for platform :: "image_platform option" and d
    by (simp add: same_request_def)
  note hook = pull_hook_def [of env ctx "(cg, s)", unfolded Let_def prod.case]
  show ?thesis
  proof (cases "df_dockerClient (cg_def cg)")
    case None
    then show ?thesis unfolding hook by (simp add: same_request_def)
  next
    case (Some cli)
    define parsed where "parsed = (if df_imagePlatform (cg_def cg) = '''' then Ok None
      else then_wrap (''invalid platform '' @ df_imagePlatform (cg_def cg)) (ce_platforms_Parse env (df_imagePlatform (cg_def cg))) (\<lambda>p. Ok (Some p)))"
    note hook = hook [folded parsed_def]
    show ?thesis
    proof (cases parsed)
      case (Ok platform)
      with Some show ?thesis unfolding hook by (simp only: option.case outcome.case frame keep)
    qed (use Some in \<open>simp_all add: hook same_request_def\<close>)
  qed
qed

lemma run_definition_hook_same:
  assumes "h \<noteq> PreCreate"
  shows "same_request (fst gs) (fst (snd (run_definition_hook env ctx h gs)))"
proof -
  obtain cg s where gs: "gs = (cg, s)" by (cases gs)
  show ?thesis
  proof (cases h)
    case PullHook
    with pull_hook_same [of cg env ctx s] show ?thesis by (simp add: gs)
  next
    case LogCreating
    then show ?thesis by (simp add: gs same_request_def split: option.split)
  next
    case (UserDefinitionHook u)
    then show ?thesis by (simp add: gs same_request_def split: prod.split)
  qed (use assms in simp)
qed

lemma applyDefinitionHooks_same:
  "PreCreate \<notin> set hs \<Longrightarrow> applyDefinitionHooks env ctx hs (cg, s) = (r, cg', s') \<Longrightarrow> same_request cg cg'"
proof (induction hs arbitrary: cg s)
  case (Cons h hs)
  obtain q cg1 s1 where q: "run_definition_hook env ctx h (cg, s) = (q, cg1, s1)" by (metis prod_cases3)
  have "same_request cg cg1" using run_definition_hook_same [of h "(cg, s)" env ctx] q Cons.prems(1) by auto
  with q Cons.prems Cons.IH [of cg1 s1] show ?case by (cases q) (auto simp: same_request_def)
qed (simp add: same_request_def)

lemma creatingHook_Ok:
  assumes "creatingHook env ctx (initial_creating cli def, s) = (Ok (), cg', s')"
    and "\<forall>h \<in> set (df_lifecycleHooks def). PreCreate \<notin> set (PreCreates h)"
  obtains s1 cg1 s2 where "preCreateContainerHook env ctx (initial_creating cli def, s1) = (Ok (), cg1, s2)" "same_request cg1 cg'"
proof -
  let ?hs = "concat (map PreCreates (df_lifecycleHooks def)) @ [PullHook]"
  obtain r cg2 s2 where all: "applyDefinitionHooks env ctx (LogCreating # PreCreate # ?hs) (initial_creating cli def, s) = (r, cg2, s2)"
    by (metis prod_cases3)
  with assms(1) have ok: "r = Ok ()" "cg2 = cg'"
    by (cases r; simp add: creatingHook_def applyLifecycleHooks_definition_def initial_creating_def default_hooks_def
      DefaultLoggingHook_def defaultPreCreateHook_def defaultCopyFileToContainerHook_def defaultReadinessHook_def no_hooks_def)+
  have "df_dockerClient (cg_def (initial_creating cli def)) = Some cli" by (simp add: initial_creating_def)
  with all ok have "\<exists>cg1 t1. preCreateContainerHook env ctx
      (initial_creating cli def, sk_log cli Info_level ''Creating container'' [(''image'', df_image (cg_def (initial_creating cli def)))] s)
        = (Ok (), cg1, t1) \<and> applyDefinitionHooks env ctx ?hs (cg1, t1) = (Ok (), cg', s2)"
    by (simp add: st_wrap_unit_iff)
  then obtain t cg1 t1 where pre: "preCreateContainerHook env ctx (initial_creating cli def, t) = (Ok (), cg1, t1)"
    and rest: "applyDefinitionHooks env ctx ?hs (cg1, t1) = (Ok (), cg', s2)" by blast
  have "PreCreate \<notin> set ?hs" using assms(2) by auto
  from pre applyDefinitionHooks_same [OF this rest] show thesis by (rule that)
qed

text \<open>
  C14: the ports of a container that \<open>Run\<close> created. When the options make the definition \<open>def\<close>, the daemon created the
  container for a request which exposes the ports of the definition. Let \<open>host\<close> be what the modifier of the host
  configuration makes of the empty one. When the definition exposes none and the network is not that of another
  container, all ports of the image are published, and the bindings are the parsed ones alone: those of the modifier are
  dropped. Otherwise whether all are published is up to the modifier, its bindings are kept for the ports that the
  definition exposes and for no other port, the parsed ones are taken for the rest, and every binding asks for a host
  port, a free one if it named none. (The hooks of the user are not the one of the package that makes the request,
  which is private.)
\<close>

theorem created_ports:
  assumes options: "customize opts initial_definition s = (Ok def, s1)"
    and users: "\<forall>h \<in> set (df_lifecycleHooks def). PreCreate \<notin> set (PreCreates h)"
    and run: "Run env ctx opts s = (r, Some c, s')"
    and host: "host = modified (df_hostConfigModifier def) zero_host_config"
    and asked: "asked = (case hc_PortBindings host of None \<Rightarrow> Map.empty | Some m \<Rightarrow> m)"
  shows "\<exists>req cfg t t' ports parsed bindings.
       en_ContainerCreate (ctr_engine c) ctx req t = (Ok (container_ID c), t') \<and> cr_Config req = Some cfg
     \<and> parsePortSpecs env (df_exposedPorts def) = Ok (ports, parsed)
     \<and> cc_ExposedPorts cfg = ports \<and> hc_PortBindings (cr_HostConfig req) = Some bindings
     \<and> (if df_exposedPorts def = [] \<and> \<not> ce_IsContainer env (hc_NetworkMode host)
        then hc_PublishAllPorts (cr_HostConfig req) \<and> bindings = parsed
        else hc_PublishAllPorts (cr_HostConfig req) = hc_PublishAllPorts host
          \<and> (\<forall>p bs b. bindings p = Some bs \<and> b \<in> set bs \<longrightarrow> pb_HostPort b \<noteq> '''')
          \<and> (\<forall>p. bindings p =
               (if asked p \<noteq> None \<and> (\<exists>x \<in> set (df_exposedPorts def). ce_ParsePort env x = Ok p)
                then map_option (map random_host_port) (asked p) else map_option (map random_host_port) (parsed p))))"
proof -
  from run obtain cli def' req cfg s2 s3 where req: "run_request env ctx opts s = (Ok (cli, def', req), s2)" "cr_Config req = Some cfg"
    and made: "en_ContainerCreate (sk_engine cli) ctx (labelled (se_version (ce_sdk env)) cfg req) s2 = (Ok (container_ID c), s3)"
    and cli: "ct_dockerClient c = cli"
    by (rule Run_made)
  have "validate_definition def = None" using req(1) options by (cases "validate_definition def") (auto simp: run_request_def)
  with req(1) options obtain cli1 t where steps: "(case creatingHook env ctx (initial_creating cli1 def, t) of
           (Err e, cg, s) \<Rightarrow> (Err e, s)
         | (Panic p, cg, s) \<Rightarrow> (Panic p, s)
         | (Ok _, cg, s) \<Rightarrow> requested env ctx cg s) = (Ok (cli, def', req), s2)"
    by (auto simp: run_request_def st_do_Ok_iff)
  obtain q cg t1 where q: "creatingHook env ctx (initial_creating cli1 def, t) = (q, cg, t1)" by (metis prod_cases3)
  with steps have hooks: "creatingHook env ctx (initial_creating cli1 def, t) = (Ok (), cg, t1)"
    and requested: "requested env ctx cg t1 = (Ok (cli, def', req), s2)"
    by (cases q; simp)+
  from hooks users obtain t2 cg1 t3 where pre: "preCreateContainerHook env ctx (initial_creating cli1 def, t2) = (Ok (), cg1, t3)"
    and same: "same_request cg1 cg"
    by (rule creatingHook_Ok)
  from requested same req(2) have fields: "cr_HostConfig req = cg_host cg1" "cc_ExposedPorts cfg = cc_ExposedPorts (cg_input cg1)"
    by (auto simp: requested_def st_do_Ok_iff Let_def same_request_def split: option.splits)
  have def: "df_exposedPorts (cg_def (initial_creating cli1 def)) = df_exposedPorts def"
    "modified (df_hostConfigModifier (cg_def (initial_creating cli1 def))) (cg_host (initial_creating cli1 def)) = host"
    by (simp_all add: initial_creating_def host)
  define all where "all \<longleftrightarrow> df_exposedPorts def = [] \<and> \<not> ce_IsContainer env (hc_NetworkMode host)"
  from pre obtain ports parsed where parsed: "parsePortSpecs env (df_exposedPorts def) = Ok (ports, parsed)"
    "cc_ExposedPorts (cg_input cg1) = ports"
    and publish: "hc_PublishAllPorts (cg_host cg1) = (all \<or> hc_PublishAllPorts host)"
    and bound: "hc_PortBindings (cg_host cg1) = Some (if all then parsed
       else mergePortBindings (ce_ParsePort env) (hc_PortBindings host) (Some parsed) (df_exposedPorts def))"
    by (rule preCreateContainerHook_Ok) (unfold def publishes_all_def all_def [symmetric], rule that)
  define bindings where "bindings = (if all then parsed
       else mergePortBindings (ce_ParsePort env) (hc_PortBindings host) (Some parsed) (df_exposedPorts def))"
  have merged: "bindings p = (if asked p \<noteq> None \<and> (\<exists>x \<in> set (df_exposedPorts def). ce_ParsePort env x = Ok p)
      then map_option (map random_host_port) (asked p) else map_option (map random_host_port) (parsed p))" if "\<not> all" for p
    using that by (simp add: bindings_def mergePortBindings_def mem_parsed_ports Let_def asked)
  then have chosen: "pb_HostPort x \<noteq> ''''" if "\<not> all" "bindings p = Some bs" "x \<in> set bs" for p bs x
    using that random_host_port_asked by (auto split: if_splits)
  show ?thesis
  proof (intro exI conjI)
    show "en_ContainerCreate (ctr_engine c) ctx (labelled (se_version (ce_sdk env)) cfg req) s2 = (Ok (container_ID c), s3)"
      using made cli by (simp add: ctr_engine_def)
    show "cr_Config (labelled (se_version (ce_sdk env)) cfg req) = Some (cfg\<lparr>cc_Labels := AddSDKLabels (se_version (ce_sdk env)) (cc_Labels cfg)\<rparr>)"
      by (simp add: labelled_def)
    show "parsePortSpecs env (df_exposedPorts def) = Ok (ports, parsed)" by (rule parsed)
    show "cc_ExposedPorts (cfg\<lparr>cc_Labels := AddSDKLabels (se_version (ce_sdk env)) (cc_Labels cfg)\<rparr>) = ports"
      using fields parsed by simp
    have hc: "cr_HostConfig (labelled (se_version (ce_sdk env)) cfg req) = cg_host cg1" using fields by (simp add: labelled_def)
    show "hc_PortBindings (cr_HostConfig (labelled (se_version (ce_sdk env)) cfg req)) = Some bindings"
      using hc bound by (simp add: bindings_def)
    show "if df_exposedPorts def = [] \<and> \<not> ce_IsContainer env (hc_NetworkMode host)
        then hc_PublishAllPorts (cr_HostConfig (labelled (se_version (ce_sdk env)) cfg req)) \<and> bindings = parsed
        else hc_PublishAllPorts (cr_HostConfig (labelled (se_version (ce_sdk env)) cfg req)) = hc_PublishAllPorts host
          \<and> (\<forall>p bs b. bindings p = Some bs \<and> b \<in> set bs \<longrightarrow> pb_HostPort b \<noteq> '''')
          \<and> (\<forall>p. bindings p =
               (if asked p \<noteq> None \<and> (\<exists>x \<in> set (df_exposedPorts def). ce_ParsePort env x = Ok p)
                then map_option (map random_host_port) (asked p) else map_option (map random_host_port) (parsed p)))"
      unfolding all_def [symmetric] hc publish
    proof (cases all)
      case False
      with merged [OF False] chosen [OF False] show "if all then (all \<or> hc_PublishAllPorts host) \<and> bindings = parsed
        else (all \<or> hc_PublishAllPorts host) = hc_PublishAllPorts host
          \<and> (\<forall>p bs b. bindings p = Some bs \<and> b \<in> set bs \<longrightarrow> pb_HostPort b \<noteq> '''')
          \<and> (\<forall>p. bindings p =
               (if asked p \<noteq> None \<and> (\<exists>x \<in> set (df_exposedPorts def). ce_ParsePort env x = Ok p)
                then map_option (map random_host_port) (asked p) else map_option (map random_host_port) (parsed p)))"
        unfolding if_not_P [OF False] by blast
    qed (simp add: bindings_def)
  qed
qed

definition demo_ports_env :: "(nat, unit, unit) container_env" where
  "demo_ports_env = demo_env\<lparr>ce_ParsePortSpecs := (\<lambda>_. Ok \<lparr>ps_ports = [''80/tcp''], ps_bindings = [(''80/tcp'', [('''', '''')])]\<rparr>)\<rparr>"

definition demo_parsed :: port where
  "demo_parsed = \<lparr>po_num = 32768, po_proto = ''tcp''\<rparr>"

text \<open>A container that exposes a port, and has no modifiers.\<close>

definition demo_ports_options :: "(unit, unit) customizer list" where
  "demo_ports_options = [WithImage ''alpine'', WithClient (Some demo_sdk), WithExposedPorts [''80/tcp'']]"

lemma demo_ParsePort: "ce_ParsePort demo_ports_env x = Ok demo_parsed"
  by (simp add: ce_ParsePort_def demo_ports_env_def demo_env_def demo_wait_lib_def demo_host_env_def demo_parsed_def)

lemma demo_ParsePortSpecs: "ce_ParsePortSpecs demo_ports_env ps = Ok \<lparr>ps_ports = [''80/tcp''], ps_bindings = [(''80/tcp'', [('''', '''')])]\<rparr>"
  by (simp add: demo_ports_env_def)

lemma demo_specs: "parsePortSpecs demo_ports_env ps =
    Ok ({demo_parsed}, map_of (rev [(demo_parsed, [\<lparr>pb_HostIP = '''', pb_HostPort = ''''\<rparr>])]))"
  by (simp add: parsePortSpecs_def parse_binding_def demo_ParsePort demo_ParsePortSpecs)

theorem created_ports_witness:
  "\<exists>c s' req bindings t t'. Run demo_ports_env Background demo_ports_options (0, ()) = (Ok (), Some c, s')
     \<and> en_ContainerCreate (ctr_engine c) Background req t = (Ok (container_ID c), t')
     \<and> hc_PortBindings (cr_HostConfig req) = Some bindings
     \<and> bindings demo_parsed = Some [\<lparr>pb_HostIP = '''', pb_HostPort = ''0''\<rparr>]"
proof -
  let ?def = "initial_definition\<lparr>df_image := ''alpine'', df_dockerClient := Some demo_sdk, df_exposedPorts := [''80/tcp'']\<rparr>"
  have options: "customize demo_ports_options initial_definition (0, ()) = (Ok ?def, (0, ()))"
    by (simp add: demo_ports_options_def WithImage_def WithClient_def WithExposedPorts_def initial_definition_def)
  have users: "\<forall>h \<in> set (df_lifecycleHooks ?def). PreCreate \<notin> set (PreCreates h)" by (simp add: initial_definition_def)
  have "\<exists>c s'. Run demo_ports_env Background demo_ports_options (0, ()) = (Ok (), Some c, s')"
    by (simp add: creation_defs demo_ports_options_def demo_ports_env_def demo_env_def demo_sdk_def demo_engine_def discard_logger_def
        WithExposedPorts_def ce_ParsePort_def demo_wait_lib_def demo_host_env_def parse_binding_def)
  then obtain c s' where run: "Run demo_ports_env Background demo_ports_options (0, ()) = (Ok (), Some c, s')" by blast
  have host: "zero_host_config = modified (df_hostConfigModifier ?def) zero_host_config"
    by (simp add: modified_def initial_definition_def)
  have asked: "Map.empty = (case hc_PortBindings zero_host_config of None \<Rightarrow> Map.empty | Some m \<Rightarrow> m)"
    by (simp add: zero_host_config_def)
  have exposed: "df_exposedPorts ?def = [''80/tcp'']" by simp
  from created_ports [OF options users run host asked, unfolded exposed demo_specs]
  obtain req t t' ports parsed bindings where
    req: "en_ContainerCreate (ctr_engine c) Background req t = (Ok (container_ID c), t')" "hc_PortBindings (cr_HostConfig req) = Some bindings"
    and parsed: "Ok ({demo_parsed}, map_of (rev [(demo_parsed, [\<lparr>pb_HostIP = '''', pb_HostPort = ''''\<rparr>])])) = Ok (ports, parsed)"
    and p: "\<forall>p. bindings p = map_option (map random_host_port) (parsed p)"
    by (elim exE conjE) (rule that, assumption+, simp)
  from parsed p have "bindings demo_parsed = Some [\<lparr>pb_HostIP = '''', pb_HostPort = ''0''\<rparr>]"
    by (auto simp: random_host_port_def)
  with run req show ?thesis by blast
qed

text \<open>With no port exposed, a binding that a host configuration modifier asked for is lost.\<close>

lemma modifier_bindings_lost:
  "preCreateContainerHook env ctx (cg, s) = (Ok (), cg', s') \<Longrightarrow> publishes_all env cg
     \<Longrightarrow> parsePortSpecs env [] = Ok ({}, Map.empty) \<Longrightarrow> hc_PortBindings (cg_host cg') = Some Map.empty"
  by (erule preCreateContainerHook_Ok) (simp add: publishes_all_def)

end
