(* ===== verification/Container_Options.thy ===== *)
theory Container_Options
  imports Container_Definition
begin

text \<open>
  What every option of the package keeps of a definition (\<open>options.go\<close>): the options as one predicate, and the
  form of the definitions that they can make.
\<close>


section \<open>The options of the package\<close>

inductive sdk_option :: "('o, 'w) sdk_env \<Rightarrow> ('w, 'h) customizer \<Rightarrow> bool" for env :: "('o, 'w) sdk_env" where
  "sdk_option env (WithClient cli)"
| "sdk_option env (WithConfigModifier cm)"
| "sdk_option env (WithAdditionalConfigModifier cm')"
| "sdk_option env (WithEndpointSettingsModifier em)"
| "sdk_option env (WithAdditionalEndpointSettingsModifier merge em')"
| "sdk_option env (WithEnv envs)"
| "sdk_option env (WithHostConfigModifier hm)"
| "sdk_option env (WithAdditionalHostConfigModifier hm')"
| "sdk_option env (WithName n)"
| "sdk_option env WithNoStart"
| "sdk_option env (WithImage img)"
| "sdk_option env (WithImageSubstitutors subs)"
| "sdk_option env (WithNetworkName aliases n)"
| "sdk_option env (WithNetwork aliases nw)"
| "sdk_option env WithBridgeNetwork"
| "sdk_option env (WithNewNetwork env uuid ctx aliases nopts)"
| "sdk_option env (WithStartupCommand execs)"
| "sdk_option env (WithAfterReadyCommand execs)"
| "sdk_option env (WithWaitStrategyAndDeadline deadline strategies)"
| "sdk_option env (WithWaitStrategy strategies)"
| "sdk_option env (WithAdditionalWaitStrategyAndDeadline deadline strategies)"
| "sdk_option env (WithAdditionalWaitStrategy strategies)"
| "sdk_option env WithAlwaysPull"
| "sdk_option env (WithImagePlatform platform)"
| "sdk_option env (WithEntrypoint words)"
| "sdk_option env (WithEntrypointArgs words)"
| "sdk_option env (WithExposedPorts ports)"
| "sdk_option env (WithCmd words)"
| "sdk_option env (WithCmdArgs words)"
| "sdk_option env (WithLabels labels)"
| "sdk_option env (WithLifecycleHooks hooks)"
| "sdk_option env (WithAdditionalLifecycleHooks hooks)"
| "sdk_option env (WithFiles files)"
| "sdk_option env (WithValidateFuncs checks)"
| "sdk_option env (WithDefinition store)"
| "sdk_option env (Ctr_WithPullHandler handler)"
| "sdk_option env (Ctr_WithCredentialsFn credentials)"
| "sdk_option env (files_option change)"

text \<open>
  The environment is a map, every network for which the container has aliases is one of its networks, and
  waiting for the container has a deadline around all of its strategies.
\<close>

definition deadlined :: "'w strategy option \<Rightarrow> bool" where
  "deadlined waitingFor = (case waitingFor of Some (SMulti None (Some deadline) strategies) \<Rightarrow> True | Some w \<Rightarrow> False | None \<Rightarrow> True)"

definition well_formed_definition :: "('w, 'h) container_definition \<Rightarrow> bool" where
  "well_formed_definition d \<longleftrightarrow>
     keys_ordered (df_env d)
   \<and> dom (nilmap_read (df_networkAliases d)) \<subseteq> set (df_networks d)
   \<and> deadlined (df_waitingFor d)"

lemma initial_well_formed: "well_formed_definition initial_definition"
  by (simp add: well_formed_definition_def initial_definition_def deadlined_def nilmap_read_def)

lemma attach_well_formed: "well_formed_definition d \<Longrightarrow> well_formed_definition (attach aliases n d)"
  by (auto simp: well_formed_definition_def attach_def nilmap_read_def)

lemma put_envs_ordered: "keys_ordered m \<Longrightarrow> keys_ordered (fold (\<lambda>(k, v). put_entry k v) kvs m)"
  by (induction kvs arbitrary: m) (simp_all add: case_prod_unfold put_entry_ordered)

lemma deadlined_group [simp]: "deadlined (Some (WithDeadline deadline (ForAll strategies)))" "deadlined None"
  by (simp_all add: deadlined_def ForAll_def)

lemmas option_defs = WithClient_def WithConfigModifier_def WithAdditionalConfigModifier_def WithEndpointSettingsModifier_def
    WithAdditionalEndpointSettingsModifier_def WithEnv_def WithHostConfigModifier_def
    WithAdditionalHostConfigModifier_def WithName_def WithNoStart_def WithImage_def WithImageSubstitutors_def
    WithNetworkName_def WithNetwork_def WithBridgeNetwork_def WithNewNetwork_def WithStartupCommand_def
    WithAfterReadyCommand_def WithWaitStrategyAndDeadline_def WithWaitStrategy_def
    WithAdditionalWaitStrategyAndDeadline_def WithAdditionalWaitStrategy_def WithAlwaysPull_def
    WithImagePlatform_def WithEntrypoint_def WithEntrypointArgs_def WithExposedPorts_def WithCmd_def
    WithCmdArgs_def WithLabels_def WithLifecycleHooks_def WithAdditionalLifecycleHooks_def WithFiles_def
    WithValidateFuncs_def WithDefinition_def Ctr_WithPullHandler_def Ctr_WithCredentialsFn_def files_option_def
    then_do_Ok_iff

lemma sdk_option_keeps:
  assumes "sdk_option env opt" and "well_formed_definition d" and "opt d s = (Ok d', s')"
  shows "well_formed_definition d'"
  using assms
  by (induction rule: sdk_option.induct;
      (auto simp: option_defs attach_well_formed st_wrap_Ok_iff split: if_splits option.splits;
       auto simp: well_formed_definition_def put_envs_ordered))

text \<open>
  C21: the type of the definitions. Whatever options of the package are applied, in whatever order and as often as one
  likes, to a well-formed definition such as the one that \<open>Run\<close> starts from, and whatever the daemon answers
  meanwhile: when no option fails, the definition is well-formed. In particular no option takes the deadline
  from the wait of the container, however strategies are added, and no alias is for a network that the container
  is not attached to.
\<close>

theorem options_keep_well_formed:
  assumes "customize opts d s = (Ok d', s')" and "\<forall>opt \<in> set opts. sdk_option env opt" and "well_formed_definition d"
  shows "well_formed_definition d'"
  using assms
proof (induction opts arbitrary: d s)
  case (Cons opt opts)
  from Cons.prems(1) obtain d1 s1 where "opt d s = (Ok d1, s1)" and rest: "customize opts d1 s1 = (Ok d', s')"
    by (auto simp: st_wrap_Ok_iff)
  with Cons.prems have "well_formed_definition d1" by (auto intro: sdk_option_keeps [of env opt d s d1 s1])
  with Cons.IH [OF rest] Cons.prems(2) show ?case by simp
qed simp

definition demo_option_list :: "(unit, unit) customizer list" where
  "demo_option_list =
     [WithEnv [(''B'', ''2''), (''A'', ''1'')], WithNetworkName [''db''] ''apps'', WithWaitStrategy [Some (SExit ForExit)],
      WithAdditionalWaitStrategyAndDeadline 5000 [Some (SExit ForExit)], WithEnv [(''B'', ''3'')]]"

theorem options_keep_well_formed_witness:
  "\<exists>d'. customize demo_option_list initial_definition (0, ()) = (Ok d', (0, ()))
     \<and> df_env d' = [(''A'', ''1''), (''B'', ''3'')] \<and> well_formed_definition d'"
proof -
  have opts: "\<forall>opt \<in> set demo_option_list. sdk_option demo_sdk_env opt"
    by (auto simp: demo_option_list_def intro: sdk_option.intros)
  obtain d' where d': "customize demo_option_list initial_definition (0, ()) = (Ok d', (0, ()))"
      "df_env d' = [(''A'', ''1''), (''B'', ''3'')]"
    by (simp add: demo_option_list_def option_defs initial_definition_def attach_def st_wrap_def)
  from options_keep_well_formed [OF d'(1) opts initial_well_formed] d' show ?thesis by blast
qed

end
