(* ===== verification/Container_Returns.thy ===== *)
theory Container_Returns
  imports Container_Lifecycle
begin

text \<open>
  Starting, stopping and terminating a container come back. The calls of the daemon come back, commands in the
  container end, and the hooks of the user come back: that is all that is asked of the outside; the rest is the
  polling of the SDK itself. The rules of the first section are those of a logic of invariants: \<open>comes P m\<close>
  says of the result \<open>m\<close> of a call that it came back in a state with \<open>P\<close>.
\<close>


section \<open>Calls that come back\<close>

definition comes :: "('s \<Rightarrow> bool) \<Rightarrow> 'a outcome \<times> 's \<Rightarrow> bool" where
  "comes P m \<longleftrightarrow> fst m \<noteq> Panic never_returns \<and> P (snd m)"

named_theorems comings \<open>rules for calls that come back\<close>

lemma comes_pair [comings]: "r \<noteq> Panic never_returns \<Longrightarrow> P s \<Longrightarrow> comes P (r, s)"
  by (simp add: comes_def)

lemma comes_st_do [comings]:
  assumes "comes P m" and "\<And>x s. P s \<Longrightarrow> comes P (k x s)"
  shows "comes P (st_do m k)"
proof -
  obtain q s where "m = (q, s)" by (cases m)
  with assms show ?thesis by (cases q) (simp_all add: comes_def)
qed

lemma comes_st_wrap [comings]:
  assumes "comes P m" and "\<And>x s. P s \<Longrightarrow> comes P (k x s)"
  shows "comes P (st_wrap what m k)"
proof -
  obtain q s where "m = (q, s)" by (cases m)
  with assms show ?thesis by (cases q) (simp_all add: comes_def)
qed

lemma comes_keep_err [comings]:
  assumes "comes P m" and "\<And>e s. P s \<Longrightarrow> comes P (k e s)"
  shows "comes P (keep_err m k)"
proof -
  obtain q s where "m = (q, s)" by (cases m)
  with assms show ?thesis by (cases q) (simp_all add: comes_def keep_err_def)
qed

lemma comes_if [comings]: "(b \<Longrightarrow> comes P m) \<Longrightarrow> (\<not> b \<Longrightarrow> comes P n) \<Longrightarrow> comes P (if b then m else n)"
  by simp

lemma comes_option [comings]:
  "(x = None \<Longrightarrow> comes P m) \<Longrightarrow> (\<And>y. x = Some y \<Longrightarrow> comes P (f y)) \<Longrightarrow> comes P (case x of None \<Rightarrow> m | Some y \<Rightarrow> f y)"
  by (cases x) simp_all

lemma comes_run_all [comings]:
  assumes "\<And>x s. x \<in> set xs \<Longrightarrow> P s \<Longrightarrow> comes P (f x s)" and "P s"
  shows "comes P (run_all f xs errs s)"
  using assms
proof (induction xs arbitrary: errs s)
  case (Cons x xs)
  obtain q s1 where q: "f x s = (q, s1)" by (cases "f x s")
  from Cons.prems(1) [of x s] Cons.prems(2) q have "q \<noteq> Panic never_returns" "P s1" by (simp_all add: comes_def)
  with q Cons show ?case by (cases q) (simp_all add: comes_def)
qed (simp add: comes_def)

lemma comes_answers: "answers f \<Longrightarrow> t \<le> fst s \<Longrightarrow> comes (\<lambda>s. t \<le> fst s) (f s)"
  unfolding answers_def comes_def by (meson le_trans)

lemma answersI_comes: "(\<And>t s. t \<le> fst s \<Longrightarrow> comes (\<lambda>s. t \<le> fst s) (f s)) \<Longrightarrow> answers f"
  unfolding answers_def comes_def by blast


section \<open>A daemon that answers\<close>

text \<open>
  The calls come back, creating a process takes some time, and every process ends: while it is seen running,
  what is left of it gets less with every wait of the SDK.
\<close>

definition answering_engine :: "'w engine \<Rightarrow> bool" where
  "answering_engine en \<longleftrightarrow>
     answers (en_Close en)
   \<and> (\<forall>ctx i. answers (en_NetworkInspect en ctx i False) \<and> answers (en_ContainerInspect en ctx i)
        \<and> answers (en_ContainerStart en ctx i) \<and> (\<forall>t. answers (en_ContainerStop en ctx i t)) \<and> answers (en_ContainerRemove en ctx i by_force)
        \<and> answers (en_ContainerLogs en ctx i) \<and> (\<forall>p a. answers (en_CopyToContainer en ctx i p a))
        \<and> (\<forall>p. answers (en_CopyFromContainer en ctx i p)) \<and> answers (en_ExecAttach en ctx i) \<and> answers (en_ExecInspect en ctx i)
        \<and> answers (en_VolumeRemove en ctx i True)
        \<and> (\<forall>cfg. answers (en_ExecCreate en ctx i cfg) \<and> (\<forall>s. fst s < fst (snd (en_ExecCreate en ctx i cfg s)))))
   \<and> (\<exists>left. \<forall>ctx i s n s'. en_ExecInspect en ctx i s = (Ok (True, n), s') \<longrightarrow> left i (sleep 100 s') < (left i s :: nat))"

lemma answering_engineD:
  assumes "answering_engine en"
  shows "answers (en_Close en)" "answers (en_NetworkInspect en ctx i False)" "answers (en_ContainerInspect en ctx i)"
    "answers (en_ContainerStart en ctx i)" "answers (en_ContainerStop en ctx i n)" "answers (en_ContainerRemove en ctx i by_force)"
    "answers (en_ContainerLogs en ctx i)" "answers (en_CopyToContainer en ctx i p a)" "answers (en_CopyFromContainer en ctx i p)"
    "answers (en_ExecAttach en ctx i)" "answers (en_ExecInspect en ctx i)" "answers (en_VolumeRemove en ctx i True)"
    "answers (en_ExecCreate en ctx i cfg)"
  using assms by (simp_all add: answering_engine_def del: split_paired_All split_paired_Ex)

lemma ExecCreate_takes_time: "answering_engine en \<Longrightarrow> fst s < fst (snd (en_ExecCreate en ctx i cfg s))"
  by (simp add: answering_engine_def del: split_paired_All split_paired_Ex)

text \<open>The wait of \<open>Exec\<close> for a process.\<close>

lemma exec_poll_answers:
  assumes "answering_engine en"
  shows "answers (poll (exec_poll_round en ctx i) ())"
proof -
  from assms obtain left where left: "\<And>ctx i s n s'. en_ExecInspect en ctx i s = (Ok (True, n), s') \<Longrightarrow> left i (sleep 100 s') < (left i s :: nat)"
    unfolding answering_engine_def by blast
  have "fst s \<le> fst s' \<and> (case q of Again st' \<Rightarrow> left i s' < left i s | Stop r \<Rightarrow> r \<noteq> Panic never_returns)"
    if q: "exec_poll_round en ctx i st s = (q, s')" for st s q s'
  proof -
    obtain a s1 where a: "en_ExecInspect en ctx i s = (a, s1)" by (cases "en_ExecInspect en ctx i s")
    from answersD [OF answering_engineD(11) [OF assms] a] left [of ctx i s] q a show ?thesis
      by (cases a) (auto simp: exec_poll_round_def split: prod.splits if_splits bool.splits)
  qed
  then show ?thesis by (rule poll_answers [where m = "\<lambda>_. left i"])
qed



section \<open>A container as a target that answers\<close>

text \<open>What is asked of the outside of a container.\<close>

definition responsive :: "('o, 'w, 'h) container_env \<Rightarrow> ('w, 'h) container \<Rightarrow> bool" where
  "responsive env c \<longleftrightarrow>
     answering_engine (ctr_engine c) \<and> answering_host (wl_host (ce_wait env))
   \<and> (\<forall>level msg attrs s. fst s \<le> fst (ct_logger c level msg attrs s))
   \<and> (\<forall>x. ie_abs (ce_image env) x \<noteq> Panic never_returns)
   \<and> (\<forall>h ctx b s r b' s'. ce_container_hook env h ctx (Running b c) s = (r, b', s') \<longrightarrow> r \<noteq> Panic never_returns \<and> fst s \<le> fst s')"

lemma responsiveD:
  assumes "responsive env c"
  shows "answering_engine (ctr_engine c)" "answering_host (wl_host (ce_wait env))" "fst s \<le> fst (ct_logger c level msg attrs s)"
    "ie_abs (ce_image env) x \<noteq> Panic never_returns"
    "ce_container_hook env h ctx (Running b c) s = (r, b', s') \<Longrightarrow> r \<noteq> Panic never_returns \<and> fst s \<le> fst s'"
  using assms unfolding responsive_def by blast+

lemma ParsePort_returns: "answering_host (wl_host (ce_wait env)) \<Longrightarrow> ce_ParsePort env x \<noteq> Panic never_returns"
  by (simp add: answering_host_def ce_ParsePort_def)

lemma Apply_all_returns: "Apply_all os po \<noteq> Panic never_returns"
  by (induction os po rule: Apply_all.induct) (simp_all add: never_returns_def)

lemma Inspect_answers: "answering_engine (ctr_engine c) \<Longrightarrow> answers (Ctr_Inspect c ctx)"
  using answering_engineD(3) by (simp add: Ctr_Inspect_def [abs_def])

lemma Host_answers:
  assumes "answering_engine (ctr_engine c)"
  shows "answers (Ctr_Host env c ctx)"
proof (rule answersI)
  fix s r s' assume r: "Ctr_Host env c ctx s = (r, s')"
  obtain q s1 where q: "en_NetworkInspect (ctr_engine c) ctx ''bridge'' False s = (q, s1)"
    by (cases "en_NetworkInspect (ctr_engine c) ctx ''bridge'' False s")
  from answersD [OF answering_engineD(2) [OF assms] q] r q show "r \<noteq> Panic never_returns \<and> fst s \<le> fst s'"
    by (cases q) (auto simp: Ctr_Host_def DaemonHost_def getGatewayIP_def url_parse_no_panic split: outcome.splits option.splits if_splits)
qed

lemma MappedPort_answers:
  assumes "answering_engine (ctr_engine c)" and "answering_host (wl_host (ce_wait env))"
  shows "answers (MappedPort env c ctx p)"
  by (rule answersI_comes)
    (auto simp: MappedPort_def ParsePort_returns [OF assms(2)] intro!: comings Inspect_answers [OF assms(1), THEN comes_answers])

lemma Logs_answers: "answering_engine (ctr_engine c) \<Longrightarrow> answers (Logs c ctx)"
  by (rule answersI_comes)
    (auto simp: Logs_def split: prod.split intro!: comings Inspect_answers [THEN comes_answers] answering_engineD(7) [THEN comes_answers])

lemma State_answers: "answering_engine (ctr_engine c) \<Longrightarrow> answers (Ctr_State c ctx)"
  by (rule answersI_comes) (auto simp: Ctr_State_def intro!: comings Inspect_answers [THEN comes_answers])

lemma CopyFrom_answers: "answering_engine (ctr_engine c) \<Longrightarrow> answers (Ctr_CopyFromContainer c ctx f)"
  by (rule answersI_comes)
    (auto simp: Ctr_CopyFromContainer_def split: prod.split list.split intro!: comings answering_engineD(9) [THEN comes_answers])

lemma Exec_answers:
  assumes "answering_engine (ctr_engine c)"
  shows "answers (Exec c ctx cmd options)"
  by (rule answersI_comes)
    (auto simp: Exec_def after_options_def Apply_all_returns intro!: comings answering_engineD [OF assms, THEN comes_answers] exec_poll_answers [OF assms, THEN comes_answers])

text \<open>A command that the strategies run takes time: it is created, with options that are never nil.\<close>

lemma Exec_takes_time:
  assumes "answering_engine (ctr_engine c)"
  shows "fst s < fst (snd (Exec c ctx cmd (map Some fs) s))"
proof -
  obtain q s1 where q: "en_ExecCreate (ctr_engine c) ctx (container_ID c) (pr_ExecConfig (fold (\<lambda>f. f) fs (NewProcessOptions cmd))) s = (q, s1)"
    by (cases "en_ExecCreate (ctr_engine c) ctx (container_ID c) (pr_ExecConfig (fold (\<lambda>f. f) fs (NewProcessOptions cmd))) s")
  have s1: "fst s < fst s1" using ExecCreate_takes_time [OF assms] q by (metis snd_conv)
  have "comes (\<lambda>s. fst s1 \<le> fst s) (Exec c ctx cmd (map Some fs) s)"
  proof (cases q)
    case (Ok i)
    have "comes (\<lambda>s. fst s1 \<le> fst s) (st_wrap ''container exec attach'' (en_ExecAttach (ctr_engine c) ctx i s1) (\<lambda>reader s.
        after_options (Apply_all (map Some fs) ((fold (\<lambda>f. f) fs (NewProcessOptions cmd))\<lparr>pr_Reader := Some reader\<rparr>)) s (\<lambda>po s.
        st_do (poll (exec_poll_round (ctr_engine c) ctx i) () s) (\<lambda>exitCode s. (Ok (exitCode, pr_Reader po), s)))))"
      by (auto simp: after_options_def Apply_all_returns intro!: comings answering_engineD [OF assms, THEN comes_answers] exec_poll_answers [OF assms, THEN comes_answers])
    with q Ok show ?thesis by (simp add: Exec_def Apply_all_Ok)
  next
    case (Panic p)
    with answersD [OF answering_engineD(13) [OF assms] q] q show ?thesis
      by (simp add: Exec_def Apply_all_Ok comes_def)
  qed (use q in \<open>simp add: Exec_def Apply_all_Ok comes_def\<close>)
  with s1 show ?thesis by (simp add: comes_def)
qed

lemma target_answers:
  assumes "answering_engine (ctr_engine c)" and "answering_host (wl_host (ce_wait env))"
  shows "answering (target_of env c)"
proof -
  let ?opts = "\<lambda>m. if m then [Some (Multiplexed (ce_StdCopy env))] else []"
  let ?exec = "\<lambda>ctx cmd m s. st_do (Exec c ctx cmd (?opts m) s) (\<lambda>(exitCode, reader) s.
      (Ok (exitCode, case reader of Some (b, e) \<Rightarrow> b | None \<Rightarrow> ''''), s))"
  have exec: "answers (?exec ctx cmd m)" for ctx cmd m
    by (rule answersI_comes) (auto split: prod.split intro!: comings Exec_answers [OF assms(1), THEN comes_answers])
  have "fst s < fst (snd (?exec ctx cmd m s))" for ctx cmd m s
  proof -
    have "?opts m = map Some (if m then [Multiplexed (ce_StdCopy env)] else [])" by simp
    then have "fst s < fst (snd (Exec c ctx cmd (?opts m) s))" using Exec_takes_time [OF assms(1)] by metis
    moreover obtain q s1 where "Exec c ctx cmd (?opts m) s = (q, s1)" by (cases "Exec c ctx cmd (?opts m) s")
    ultimately show ?thesis by (cases q) (auto split: prod.split)
  qed
  then show ?thesis
    using exec Host_answers [OF assms(1), of env] Inspect_answers [OF assms(1)] MappedPort_answers [OF assms] Logs_answers [OF assms(1)]
      State_answers [OF assms(1)] CopyFrom_answers [OF assms(1)]
    by (simp add: answering_def target_of_def del: split_paired_All)
qed


section \<open>The operations come back\<close>

text \<open>The container is the same but for whether it is running, and the clock was not turned back.\<close>

definition still :: "('w, 'h) container \<Rightarrow> nat \<Rightarrow> ('w, 'h) container \<times> 'w clocked \<Rightarrow> bool" where
  "still c t cs \<longleftrightarrow> (\<exists>b s. cs = (Running b c, s) \<and> t \<le> fst s)"

lemma stillI [comings]: "t \<le> fst s \<Longrightarrow> still c t (Running b c, s)"
  by (auto simp: still_def)

lemma still_running [comings]: "still c t cs \<Longrightarrow> still c t (running b cs)"
  by (auto simp: still_def running_def)

lemma comes_reading [comings]:
  assumes "\<And>b. answers (f (Running b c))" and "still c t cs"
  shows "comes (still c t) (reading f cs)"
proof -
  from assms(2) obtain b s where cs: "cs = (Running b c, s)" "t \<le> fst s" by (auto simp: still_def)
  obtain q s1 where q: "f (Running b c) s = (q, s1)" by (cases "f (Running b c) s")
  from answersD [OF assms(1) q] q cs show ?thesis by (auto simp: reading_def comes_def still_def)
qed

lemma comes_closing [comings]:
  assumes "answers (en_Close (ctr_engine c))" and "comes (still c t) m"
  shows "comes (still c t) (closing_client m)"
proof -
  from assms(2) obtain q b s where m: "m = (q, Running b c, s)" "q \<noteq> Panic never_returns" "t \<le> fst s"
    by (cases m) (auto simp: comes_def still_def)
  have "fst s \<le> fst (snd (en_Close (ctr_engine c) s))" using assms(1) by (rule answers_snd)
  with m show ?thesis by (auto simp: closing_client_def comes_def still_def)
qed

lemma then_do_Panic_iff: "then_do r k = Panic p \<longleftrightarrow> r = Panic p \<or> (\<exists>x. r = Ok x \<and> k x = Panic p)"
  by (cases r) simp_all

lemma String_of_returns: "String_of st \<noteq> Panic never_returns"
proof (induction st)
  case (SMulti t dl ss)
  have "collect rs \<noteq> Panic never_returns" if "\<And>r. Some r \<in> set rs \<Longrightarrow> r \<noteq> Panic never_returns" for rs :: "string outcome option list"
    using that by (induction rs rule: collect.induct) (auto simp: then_do_Panic_iff)
  moreover have "r \<noteq> Panic never_returns"
    if "Some r \<in> set (map (map_option (\<lambda>st. if nilable st then String_of st else Panic IsNil_panic)) ss)" for r
  proof -
    from that obtain x where x: "x \<in> set ss" "Some r = map_option (\<lambda>st. if nilable st then String_of st else Panic IsNil_panic) x"
      unfolding set_map by (elim imageE) blast
    from x(2) obtain w where "x = Some w" by (cases x) simp_all
    with x SMulti [OF x(1), of w] show ?thesis by (auto simp: IsNil_panic_def never_returns_def)
  qed
  ultimately have "collect (map (map_option (\<lambda>st. if nilable st then String_of st else Panic IsNil_panic)) ss) \<noteq> Panic never_returns"
    by blast
  then show ?case by (auto simp: then_do_Panic_iff)
qed simp_all

lemma strategy_desc_returns: "strategy_desc st \<noteq> Panic never_returns"
  using String_of_returns [of st] by (cases st) (simp_all add: strategy_desc_def)

lemma copy_files_answers:
  assumes "responsive env c"
  shows "answers (copy_files env (Running b c) ctx fs)"
proof (induction fs)
  case Nil
  then show ?case by (simp add: answers_def)
next
  case (Cons f fs)
  note en = responsiveD(1) [OF assms]
  have content: "file_content env f \<noteq> Panic never_returns"
    by (auto simp: file_content_def isDir_def then_do_Panic_iff split: option.splits sum.splits node.splits)
  have tar: "answers (tarDir env (ct_logger c) h m)" for h m
    by (rule answersI_comes)
      (auto simp: tarDir_def responsiveD(4) [OF assms] Let_def split: sum.splits option.splits
        intro!: comings intro: le_trans responsiveD(3) [OF assms])
  have dir: "answers (CopyDirToContainer env (Running b c) ctx h p m)" for h p m
    by (rule answersI_comes)
      (auto simp: CopyDirToContainer_def isDir_def split: sum.split node.split
        intro!: comings tar [THEN comes_answers] answering_engineD(8) [OF en, THEN comes_answers])
  have file': "answers (CopyToContainer env (Running b c) ctx d p m)" for d p m
    by (rule answersI_comes)
      (auto simp: CopyToContainer_def tarFile_def split: option.split
        intro!: comings answering_engineD(8) [OF en, THEN comes_answers])
  show ?case
    by (rule answersI_comes)
      (auto simp: content split: option.split
        intro!: comings dir [THEN comes_answers] file' [THEN comes_answers] Cons.IH [THEN comes_answers])
qed


text \<open>Every hook of a container whose wait strategy is well configured comes back.\<close>

lemma run_hook_comes:
  assumes resp: "responsive env c" and well: "\<And>w. ct_waitingFor c = Some w \<Longrightarrow> well (ce_wait env) False w"
    and cs: "still c t cs"
  shows "comes (still c t) (run_hook env ctx h cs)"
proof -
  note en = responsiveD(1) [OF resp] and logger = responsiveD(3) [OF resp]
  from cs obtain b s where c: "cs = (Running b c, s)" "t \<le> fst s" by (auto simp: still_def)
  have later: "t \<le> fst s' \<Longrightarrow> t \<le> fst (ct_logger c level msg attrs s')" for s' level msg attrs
    using logger [of s' level msg attrs] by simp
  show ?thesis
  proof (cases h)
    case (LogHook msg)
    with c later [OF c(2)] show ?thesis by (auto intro!: comings)
  next
    case (CopyFiles files)
    then show ?thesis using cs copy_files_answers [OF resp] by (auto intro!: comings)
  next
    case AwaitReady
    show ?thesis
    proof (cases "ct_waitingFor c")
      case None
      with AwaitReady c cs show ?thesis by (simp add: await_ready_def comes_pair still_running [OF cs, of True, unfolded c(1)])
    next
      case (Some w)
      have "answers (WaitUntilReady (ce_wait env) w ctx (target_of env (Running b c)))" for b
        using WaitUntilReady_answers [OF target_answers [OF en responsiveD(2) [OF resp]] responsiveD(2) [OF resp] well [OF Some], of ctx]
        by simp
      then have wait: "comes (still c t) (st_wrap ''wait until ready''
            (reading (\<lambda>c. WaitUntilReady (ce_wait env) w ctx (target_of env c)) cs) (\<lambda>_ cs. (Ok (), running True cs)))"
        if "still c t cs" for cs using that by (auto intro!: comings)
      show ?thesis
        using AwaitReady Some c later [OF c(2)] strategy_desc_returns [of w]
        by (auto simp: await_ready_def Let_def split: outcome.split intro!: comes_pair stillI wait)
    qed
  next
    case (RunExecutable x)
    have "answers (Exec (Running b c) ctx (AsCommand x) (Options x))" for b
      using Exec_answers [of "Running b c"] en by simp
    with RunExecutable cs show ?thesis by (auto intro!: comings)
  next
    case (UserHook u)
    obtain r b' s' where "ce_container_hook env u ctx (Running b c) s = (r, b', s')" by (metis prod_cases3)
    with UserHook c responsiveD(5) [OF resp this] show ?thesis by (auto intro!: comings)
  qed
qed

lemma applyLifecycleHooks_comes:
  assumes resp: "responsive env c" and well: "\<And>w. ct_waitingFor c = Some w \<Longrightarrow> well (ce_wait env) False w"
    and cs: "still c t cs"
  shows "comes (still c t) (applyLifecycleHooks env ctx logError sel cs)"
proof -
  note en = responsiveD(1) [OF resp]
  let ?m = "run_all (\<lambda>h. applyContainerHooks env ctx (sel h)) (ct_lifecycleHooks (fst cs)) [] cs"
  have m: "comes (still c t) ?m"
    unfolding applyContainerHooks_def by (intro comings run_hook_comes resp well cs) assumption+
  have logs: "answers (printLogs (Running b c) ctx' e)" for b ctx' e
  proof (rule answersI)
    fix s r s' assume r: "printLogs (Running b c) ctx' e s = (r, s')"
    obtain q s1 where q: "Logs (Running b c) ctx' s = (q, s1)" by (cases "Logs (Running b c) ctx' s")
    have "answers (Logs (Running b c) ctx')" using Logs_answers [of "Running b c"] en by simp
    from answersD [OF this q] r q show "r \<noteq> Panic never_returns \<and> fst s \<le> fst s'"
      by (cases q) (auto simp: printLogs_def split: prod.splits option.splits intro: le_trans [OF _ responsiveD(3) [OF resp]])
  qed
  obtain q ds where q: "?m = (q, ds)" by (cases ?m)
  with m have came: "q \<noteq> Panic never_returns" "still c t ds" by (simp_all add: comes_def)
  show ?thesis
  proof (cases q)
    case (Err e)
    have "comes (still c t) (st_do (reading (\<lambda>c. printLogs c ctx' e) ds) (\<lambda>_ cs. (Err e, cs)))" for ctx'
      using came logs by (auto intro!: comings)
    with Err q came show ?thesis by (auto simp: applyLifecycleHooks_def Let_def intro: comes_pair)
  qed (use q came in \<open>auto simp: applyLifecycleHooks_def intro: comes_pair\<close>)
qed

lemma Stop_comes:
  assumes resp: "responsive env c" and well: "\<And>w. ct_waitingFor c = Some w \<Longrightarrow> well (ce_wait env) False w"
    and cs: "still c t cs"
  shows "comes (still c t) (Stop_container env ctx opts cs)"
proof -
  have "answers (en_ContainerStop (ctr_engine (Running b c)) ctx' (container_ID (Running b c)) n)" for b ctx' n
    using answering_engineD(5) [OF responsiveD(1) [OF resp]] by simp
  with assms show ?thesis
    unfolding Stop_container_def Let_def stoppingHook_def stoppedHook_def
    by (intro comings applyLifecycleHooks_comes) auto
qed

text \<open>
  C7: the life of a container never hangs. Starting, stopping and terminating a container come back, with
  whatever result, and do not turn back the clock, whenever its wait strategy is well configured and the
  outside is responsive: the calls of the daemon and the hooks of the user come back, whatever they
  answer, and processes in the container end. So no loop of the SDK goes on for ever: not the
  polling of any strategy, and not the wait for the commands of hooks, strategies and options.
\<close>

theorem operations_return:
  assumes resp: "responsive env c" and well: "\<And>w. ct_waitingFor c = Some w \<Longrightarrow> well (ce_wait env) False w"
    and run: "perform env op (c, s) = (r, (c', s'))"
  shows "r \<noteq> Panic never_returns \<and> fst s \<le> fst s'"
proof -
  have start: "still c (fst s) (c, s)"
    unfolding still_def by (intro exI [of _ "ct_isRunning c"] exI [of _ s]) (simp add: Running_def)
  note hooks = applyLifecycleHooks_comes [OF resp well] and en = answering_engineD [OF responsiveD(1) [OF resp]]
  have calls: "answers (en_ContainerStart (ctr_engine (Running b c)) ctx (container_ID (Running b c)))"
    "answers (en_ContainerRemove (ctr_engine (Running b c)) ctx (container_ID (Running b c)) by_force)" for b ctx
    using en by simp_all
  have volumes: "answers (Cleanup_volumes o' (ctr_engine (Running b c)))" for o' b
    by (rule answersI_comes)
      (auto simp: Cleanup_volumes_def remove_volume_def intro!: comings en(12) [THEN comes_answers])
  have "comes (still c (fst s)) (perform env op (c, s))"
  proof (cases op)
    case (DoStart ctx)
    have "comes (still c (fst s)) (Start env ctx (c, s))"
      unfolding Start_def startingHook_def startedHook_def readiedHook_def
      using start by (auto intro!: comings hooks calls en(1))
    with DoStart show ?thesis by simp
  next
    case (DoStop ctx opts)
    then show ?thesis using Stop_comes [OF resp well start] by simp
  next
    case (DoTerminate ctx opts)
    have "of_err e \<noteq> Panic never_returns" for e by (cases e) (simp_all add: of_err_def)
    then have "comes (still c (fst s)) (Terminate env ctx opts (c, s))"
      unfolding Terminate_def Let_def terminatingHook_def terminatedHook_def
      using start by (auto intro!: comings hooks calls volumes Stop_comes [OF resp well])
    with DoTerminate show ?thesis by simp
  qed
  with run show ?thesis by (auto simp: comes_def still_def)
qed

text \<open>
  A daemon on which every container keeps running and every process runs until the second is over, and a host on
  which nothing listens: the container never gets ready, and \<open>Start\<close> gives up in time.
\<close>

definition slow_engine :: "unit engine" where
  "slow_engine = demo_engine
     \<lparr>en_ContainerInspect := (\<lambda>_ _ s. (Ok demo_inspected, s)),
      en_ExecCreate := (\<lambda>_ _ _ s. (Ok ''exec'', sleep 1 s)),
      en_ExecInspect := (\<lambda>_ _ s. (Ok (fst s < 1000, 0), s))\<rparr>"

definition deaf_env :: "(nat, unit, unit) container_env" where
  "deaf_env = demo_env\<lparr>ce_wait := demo_wait_lib\<lparr>wl_host := demo_host_env\<lparr>he_Dial := \<lambda>c _ _ s.
     (if ctx_err c (fst s) = None then Err (Sentinel ECONNREFUSED) else Err DeadlineExceeded, s)\<rparr>\<rparr>\<rparr>"

definition waited_for :: "(unit, unit) container" where
  "waited_for = (demo_container slow_engine)
     \<lparr>ct_waitingFor := Some (WithDeadline 5000 (ForAll [Some (SHostPort (ForListeningPort demo_port)), Some (SExit ForExit)])),
      ct_lifecycleHooks := [no_hooks\<lparr>PostStarts := [RunExecutable (NewRawCommand [''init''] []), AwaitReady]\<rparr>]\<rparr>"

lemma slow_engine_answers: "answering_engine slow_engine"
proof -
  have "1000 - fst (sleep 100 s') < 1000 - fst s"
    if "en_ExecInspect slow_engine ctx i s = (Ok (True, n), s')" for ctx i n and s s' :: "unit clocked"
    using that by (cases s) (auto simp: slow_engine_def demo_engine_def sleep_def)
  then have "\<exists>left. \<forall>ctx i s n s'. en_ExecInspect slow_engine ctx i s = (Ok (True, n), s') \<longrightarrow> left i (sleep 100 s') < (left i s :: nat)"
    by (intro exI [of _ "\<lambda>i s. 1000 - fst s"]) blast
  then show ?thesis
    unfolding answering_engine_def
    by (auto simp: slow_engine_def demo_engine_def answers_def sleep_def never_returns_def simp del: split_paired_Ex)
qed

theorem operations_return_witness:
  "\<exists>r c' s'. perform deaf_env (DoStart Background) (waited_for, (0, ())) = (r, (c', s')) \<and> r \<noteq> Panic never_returns"
proof -
  obtain r c' s' where run: "perform deaf_env (DoStart Background) (waited_for, (0, ())) = (r, (c', s'))"
    by (metis prod_cases3)
  have "ctr_engine waited_for = slow_engine"
    by (simp add: waited_for_def demo_container_def ctr_engine_def)
  then have resp: "responsive deaf_env waited_for"
    using slow_engine_answers answering_demo_host
    by (simp add: responsive_def deaf_env_def demo_env_def waited_for_def demo_container_def discard_logger_def demo_image_env_def)
  have "well (ce_wait deaf_env) False w" if "ct_waitingFor waited_for = Some w" for w
    using that
    by (auto simp: waited_for_def ForAll_def ForListeningPort_def NewHostPortStrategy_def ForExit_def NewExitStrategy_def
        defaultPollInterval_def)
  from operations_return [OF resp this run] run show ?thesis by blast
qed

end
