(* ===== verification/Run_Returns.thy ===== *)
theory Run_Returns
  imports Container_Run Container_Returns
begin

text \<open>
  \<open>Run\<close> as a whole comes back: the options, the hooks before creation with the pull of the image, the substitution
  of the image, the creation, the networks, the hooks after creation, and the start with its wait. The rules are
  those of \<open>Container_Returns\<close>; here they carry the invariant \<open>prepared\<close> of the definition that the hooks before
  creation work on.
\<close>


section \<open>Looking up credentials comes back\<close>

text \<open>What the platform is asked does not hang: looking up programs, parsing, decoding.\<close>

definition quick_platform :: "'w platform \<Rightarrow> bool" where
  "quick_platform pf \<longleftrightarrow>
     (\<forall>x. pf_lookPath pf x \<noteq> Panic never_returns) \<and> (\<forall>x. pf_creds pf x \<noteq> Panic never_returns)
   \<and> (\<forall>x. pf_unmarshal pf x \<noteq> Panic never_returns) \<and> (\<forall>x. pf_decode pf x \<noteq> Panic never_returns)
   \<and> (\<forall>x. pf_parse_ref pf x \<noteq> Panic never_returns)"

lemma then_wrap_Panic_iff: "then_wrap what r k = Panic p \<longleftrightarrow> r = Panic p \<or> (\<exists>x. r = Ok x \<and> k x = Panic p)"
  by (cases r) simp_all

lemma ParseImageRef_returns: "quick_platform pf \<Longrightarrow> ParseImageRef (pf_parse_ref pf) img \<noteq> Panic never_returns"
  by (simp add: ParseImageRef_def then_wrap_Panic_iff quick_platform_def Let_def)

lemma quick_platformD:
  assumes "quick_platform pf"
  shows "pf_lookPath pf x \<noteq> Panic never_returns" "pf_creds pf x \<noteq> Panic never_returns"
    "pf_unmarshal pf x \<noteq> Panic never_returns" "pf_decode pf x \<noteq> Panic never_returns"
  using assms by (simp_all add: quick_platform_def)

lemma run_credential_helper_returns:
  assumes "quick_platform pf"
  shows "fst (run_credential_helper pf name hostname w) \<noteq> Panic never_returns"
proof (cases "pf_lookPath pf (''docker-credential-'' @ name)")
  case (Ok p)
  obtain r v where r: "pf_run pf p hostname w = (r, v)" by (cases "pf_run pf p hostname w")
  from quick_platformD(2) [OF assms, of "run_out r"] Ok r show ?thesis
    by (cases "pf_creds pf (run_out r)") (simp_all add: run_credential_helper_def Let_def split: option.split prod.split)
next
  case (Panic p)
  with quick_platformD(1) [OF assms, of "''docker-credential-'' @ name"] show ?thesis
    by (simp add: run_credential_helper_def)
qed (simp add: run_credential_helper_def)

lemma credentialsFromHelper_returns:
  assumes "quick_platform pf"
  shows "fst (credentialsFromHelper pf helper hostname w) \<noteq> Panic never_returns"
proof -
  have "getCredentialHelper pf \<noteq> Panic never_returns"
    using quick_platformD(1) [OF assms, of "''pass''"]
    by (cases "pf_lookPath pf ''pass''") (simp_all add: getCredentialHelper_def)
  with run_credential_helper_returns [OF assms, of _ hostname w] show ?thesis
    by (cases "getCredentialHelper pf") (simp_all add: credentialsFromHelper_def)
qed

lemma resolveAuthConfigForHostname_returns:
  assumes "quick_platform pf"
  shows "fst (resolveAuthConfigForHostname pf c host w) \<noteq> Panic never_returns"
proof -
  note helper = credentialsFromHelper_returns [OF assms]
  have "decodeBase64Auth a \<noteq> Panic never_returns" for a
    by (auto simp: decodeBase64Auth_def split: option.splits)
  with helper have stored: "fst (resolve_stored pf c h v) \<noteq> Panic never_returns" for h v
    by (auto simp: resolve_stored_def processStoredAuthConfig_def Let_def then_wrap_Panic_iff split: option.split)
  obtain r w' where "credentialsFromHelper pf (cfg_CredentialsStore c) (ResolveRegistryHost host) w = (r, w')" by (cases "credentialsFromHelper pf (cfg_CredentialsStore c) (ResolveRegistryHost host) w")
  with helper stored show ?thesis
    using helper [of "cfg_CredentialsStore c" "ResolveRegistryHost host" w]
    by (cases r) (auto simp: resolveAuthConfigForHostname_def Let_def split: option.split)
qed

lemma AuthConfigForImage_returns:
  assumes "quick_platform pf"
  shows "snd (fst (AuthConfigForImage pf img s)) \<noteq> Panic never_returns"
proof -
  have "fst (AuthConfigForHostname pf h (c, w)) \<noteq> Panic never_returns" for h c w
  proof -
    obtain cache c1 where g: "getCache pf c = (cache, c1)" by (cases "getCache pf c")
    obtain r w' where r: "resolveAuthConfigForHostname pf c1 h w = (r, w')" by (cases "resolveAuthConfigForHostname pf c1 h w")
    from resolveAuthConfigForHostname_returns [OF assms, of c1 h w] r show ?thesis
      by (cases r) (auto simp: AuthConfigForHostname_def g split: option.split)
  qed
  then have host: "fst (AuthConfigForHostname pf h t) \<noteq> Panic never_returns" for h t by (cases t) simp
  show ?thesis
  proof (cases "ParseImageRef (pf_parse_ref pf) img")
    case (Ok ref)
    obtain q t where "AuthConfigForHostname pf (ir_Registry ref) s = (q, t)" by (cases "AuthConfigForHostname pf (ir_Registry ref) s")
    with host [of "ir_Registry ref" s] Ok show ?thesis by (cases q) (simp_all add: AuthConfigForImage_def)
  qed (use ParseImageRef_returns [OF assms, of img] in \<open>simp_all add: AuthConfigForImage_def\<close>)
qed

lemma Load_returns: "quick_platform pf \<Longrightarrow> Load pf disk \<noteq> Panic never_returns"
  by (auto simp: quick_platform_def Load_def loadFromFilepath_def Filepath_def Dir_def getHomeDir_def then_wrap_Panic_iff Let_def
      split: sum.splits if_splits)

lemma credentials_from_config_answers:
  assumes "quick_platform (se_platform (ie_sdk env))"
  shows "answers (credentials_from_config env imageName)"
proof -
  let ?pf = "se_platform (ie_sdk env)"
  have one: "fst (AuthConfigsForImages pf [img] (cfg, ())) \<noteq> Panic never_returns" if "quick_platform pf" for pf img cfg
  proof -
    obtain reg r s where r: "AuthConfigForImage pf img (cfg, ()) = ((reg, r), s)" by (metis prod.collapse)
    with AuthConfigForImage_returns [OF that, of img "(cfg, ())"] show ?thesis
      by (cases r) (simp_all add: AuthConfigsForImages_def)
  qed
  have "fst (AuthConfigs ?pf disk [imageName] ()) \<noteq> Panic never_returns" for disk
    using Load_returns [OF assms, of disk] one [OF assms, of imageName]
    by (auto simp: AuthConfigs_def split: outcome.split prod.split) (metis fst_conv)
  then show ?thesis
    by (intro answersI)
      (auto simp: credentials_from_config_def Let_def split: outcome.splits list.splits option.splits if_splits)
qed


section \<open>Making the default client comes back\<close>

lemma decode_members_no_panic: "(\<And>k j a. step k j a \<noteq> Panic p) \<Longrightarrow> decode_members step ms a \<noteq> Panic p"
proof (induction ms arbitrary: a)
  case (Cons m ms)
  then show ?case by (cases m) (simp add: then_do_Panic_iff)
qed simp

lemma decode_dcontext_no_panic: "decode_dcontext data \<noteq> Panic p"
proof -
  have "endpoint_member k j ep \<noteq> Panic p" for k j ep
    by (auto simp: endpoint_member_def set_string_def then_do_Panic_iff split: json.splits)
  then have "endpoints_member k j eps \<noteq> Panic p" for k j eps
    using decode_members_no_panic [of endpoint_member p]
    by (auto simp: endpoints_member_def then_do_Panic_iff split: json.splits)
  moreover have "Metadata_UnmarshalJSON j m \<noteq> Panic p" for j m
    by (auto simp: Metadata_UnmarshalJSON_def Let_def split: json.split option.split)
  ultimately have "dcontext_member k j c \<noteq> Panic p" for k j c
    using decode_members_no_panic [of endpoints_member p]
    by (auto simp: dcontext_member_def set_string_def then_do_Panic_iff split: json.splits)
  then show ?thesis
    using decode_members_no_panic [of dcontext_member p] by (auto simp: decode_dcontext_def split: option.splits json.splits)
qed

lemma load_no_panic: "load disk dir \<noteq> Panic p"
  using decode_dcontext_no_panic by (auto simp: load_def then_wrap_Panic_iff split: sum.split)

lemma load_all_no_panic: "load_all disk ds \<noteq> Panic p"
  by (induction ds) (auto simp: load_no_panic then_do_Panic_iff split: outcome.split)

lemma Inspect_returns:
  assumes "quick_platform pf"
  shows "Inspect pf dg disk name \<noteq> Panic never_returns"
proof -
  have root: "metaRoot pf disk \<noteq> Panic p" for p
    by (auto simp: metaRoot_def Dir_def getHomeDir_def then_wrap_Panic_iff Let_def split: if_splits)
  have "store_list disk r \<noteq> Panic p" for r p
    using load_all_no_panic by (auto simp: store_list_def findMetadataDirs_def then_wrap_Panic_iff split: sum.split)
  with root Load_returns [OF assms, of disk] show ?thesis
    by (auto simp: Inspect_def store_inspect_def then_wrap_Panic_iff split: option.split)
qed

lemma defaultValues_returns:
  assumes "quick_platform (se_platform env)"
  shows "defaultValues env c \<noteq> Panic never_returns"
proof -
  note inspect = Inspect_returns [OF assms]
  have "parseURL (se_platform env) h \<noteq> Panic p" for h p
    by (auto simp: parseURL_def then_do_Panic_iff url_parse_no_panic)
  moreover have current: "Current (se_platform env) disk \<noteq> Panic never_returns" for disk
    using Load_returns [OF assms, of disk] by (auto simp: Current_def split: outcome.split)
  ultimately have "CurrentDockerHost (se_platform env) dg disk \<noteq> Panic never_returns" for dg disk
    using inspect by (auto simp: CurrentDockerHost_def then_wrap_Panic_iff never_returns_def split: outcome.splits option.splits)
  with current inspect show ?thesis
    by (auto simp: defaultValues_def DockerHostFromContext_def Let_def then_wrap_Panic_iff never_returns_def split: option.splits)
qed

text \<open>
  The constructor of the Moby client and the parser of the environment do not hang, every client that is made has the
  engine of \<open>cli\<close>, and its pings come back. The health check is the one of the SDK.
\<close>

definition makes_client :: "('o, 'w) sdk_env \<Rightarrow> 'w sdk \<Rightarrow> bool" where
  "makes_client env cli \<longleftrightarrow>
     sk_log cli = discard_logger \<and> (\<forall>ctx. answers (en_Ping (sk_engine cli) ctx))
   \<and> (\<forall>c. se_env_parse env c \<noteq> Panic never_returns)
   \<and> (\<forall>opts. se_api_new env opts \<noteq> Panic never_returns \<and> (\<forall>en. se_api_new env opts = Ok en \<longrightarrow> en = sk_engine cli))"

lemma defaultHealthCheck_answers:
  assumes "\<And>ctx. answers (en_Ping en ctx)"
  shows "answers (defaultHealthCheck ctx en)"
proof -
  have "ping_loop ctx en i n e s = (r, s') \<Longrightarrow> r \<noteq> Panic never_returns \<and> fst s \<le> fst s'" for i n e s r s'
  proof (induction n arbitrary: i e s)
    case 0
    then show ?case by auto
  next
    case (Suc n)
    obtain q t1 w1 where q: "en_Ping en ctx s = (q, (t1, w1))" by (metis prod.exhaust)
    note came = answersD [OF assms q]
    show ?case
    proof (cases q)
      case (Err x)
      obtain ce t2 where sel: "select_after ctx ((i + 1) * 100) t1 = (ce, t2)" by fastforce
      then have "t1 \<le> t2" by (auto simp: select_after_def split: option.splits if_splits)
      then show ?thesis
        using Suc.prems Suc.IH [of "i + 1" x "(t2, w1)"] q Err sel came by (cases ce) auto
    qed (use Suc.prems q came in auto)
  qed
  then show ?thesis unfolding defaultHealthCheck_def by (intro answersI) blast
qed

lemma sdk_or_default_comes:
  assumes made: "makes_client env cli" and pf: "quick_platform (se_platform env)"
  shows "t \<le> fst s \<Longrightarrow> comes (\<lambda>s. t \<le> fst s) (sdk_or_default env ctx None s)"
    and "sdk_or_default env ctx None s = (Ok cli', s') \<Longrightarrow> cli' = cli"
proof -
  from made have parse: "se_env_parse env c \<noteq> Panic never_returns" and new: "se_api_new env os \<noteq> Panic never_returns"
    and same: "se_api_new env os = Ok en \<Longrightarrow> en = sk_engine cli" and ping: "answers (en_Ping (sk_engine cli) ctx)"
    and log: "sk_log cli = discard_logger" for c os en ctx
    by (simp_all add: makes_client_def)
  have config: "newConfig env h \<noteq> Panic never_returns" for h
    using parse by (auto simp: newConfig_def validate_def then_wrap_Panic_iff)
  obtain q c where q: "init env zero_client = (q, c)" by (cases "init env zero_client")
  have q_came: "q \<noteq> Panic never_returns"
    using q defaultValues_returns [OF pf] config new
    by (auto simp: init_def zero_client_def Let_def split: outcome.splits)
  have kept: "cl_healthCheck c1 = cl_healthCheck c0" if "defaultValues env c0 = Ok c1" for c0 c1
    using that by (auto simp: defaultValues_def Let_def then_wrap_Ok_iff split: if_splits)
  have engine: "cl_engine c = Some (sk_engine cli) \<and> cl_healthCheck c = defaultHealthCheck" if "q = Ok u" for u
    using q that kept [of zero_client] same
    by (auto simp: init_def zero_client_def Let_def split: outcome.splits)
  note check = comes_answers [OF defaultHealthCheck_answers [OF ping]]
  have client: "comes (\<lambda>s. t \<le> fst s) (New_client env ctx [] s)" if "t \<le> fst s" for t s
    using that q q_came engine
    by (cases q) (auto simp: New_client_def comes_def [of _ "(_, _)"] intro!: comings check)
  then show "t \<le> fst s \<Longrightarrow> comes (\<lambda>s. t \<le> fst s) (sdk_or_default env ctx None s)"
    unfolding sdk_or_default_def default_engine_def option.case by (auto simp: never_returns_def intro!: comings client)
  show "sdk_or_default env ctx None s = (Ok cli', s') \<Longrightarrow> cli' = cli"
    using q engine log
    by (cases q) (auto simp: sdk_or_default_def default_engine_def New_client_def st_do_Ok_iff st_wrap_Ok_iff)
qed


section \<open>Pulling comes back\<close>

text \<open>
  The settings of a pull: the client, a handler that comes back from any stream, credentials that come back; and an
  option that keeps them so. The options that the container package makes are of this kind.
\<close>

definition settled :: "'w sdk \<Rightarrow> 'w pull_options \<Rightarrow> bool" where
  "settled cli o1 \<longleftrightarrow> pu_client o1 = Some cli \<and> (\<forall>r. answers (pu_handler o1 r))
     \<and> (case pu_credentials o1 of None \<Rightarrow> True | Some f \<Rightarrow> \<forall>img. answers (f img))"

definition keeps_settled :: "'w sdk \<Rightarrow> 'w pull_option \<Rightarrow> bool" where
  "keeps_settled cli opt \<longleftrightarrow>
     (\<forall>o1. settled cli o1 \<longrightarrow> opt o1 \<noteq> Panic never_returns \<and> (\<forall>o2. opt o1 = Ok o2 \<longrightarrow> settled cli o2))"

lemma keeps_settledI:
  "(\<And>o1. settled cli o1 \<Longrightarrow> opt o1 \<noteq> Panic never_returns) \<Longrightarrow> (\<And>o1 o2. settled cli o1 \<Longrightarrow> opt o1 = Ok o2 \<Longrightarrow> settled cli o2)
     \<Longrightarrow> keeps_settled cli opt"
  unfolding keeps_settled_def by blast

lemma WithPullHandler_settled:
  "(case h of None \<Rightarrow> True | Some f \<Rightarrow> \<forall>r. answers (f r)) \<Longrightarrow> keeps_settled cli (WithPullHandler h)"
  by (rule keeps_settledI; cases h) (auto simp: settled_def WithPullHandler_def)

lemma WithCredentialsFn_settled:
  "(case c of None \<Rightarrow> True | Some f \<Rightarrow> \<forall>img. answers (f img)) \<Longrightarrow> keeps_settled cli (WithCredentialsFn c)"
  by (rule keeps_settledI) (auto simp: settled_def WithCredentialsFn_def)

lemma WithPullOptions_settled: "keeps_settled cli (WithPullOptions po)"
  by (rule keeps_settledI) (auto simp: settled_def WithPullOptions_def)

lemma apply_with_settled:
  assumes "\<forall>opt \<in> set opts. keeps_settled cli opt" and "settled cli o1"
  shows "apply_with what opts o1 \<noteq> Panic never_returns" and "apply_with what opts o1 = Ok o2 \<Longrightarrow> settled cli o2"
proof -
  have "apply_with what opts o1 \<noteq> Panic never_returns \<and> (\<forall>o2. apply_with what opts o1 = Ok o2 \<longrightarrow> settled cli o2)"
    using assms
  proof (induction opts arbitrary: o1)
    case (Cons opt opts)
    from Cons.prems have "keeps_settled cli opt" by simp
    then have opt: "opt o1 \<noteq> Panic never_returns" "\<And>o2. opt o1 = Ok o2 \<Longrightarrow> settled cli o2"
      using Cons.prems(2) unfolding keeps_settled_def by blast+
    show ?case
    proof (cases "opt o1")
      case (Ok o2)
      with opt(2) Cons.IH [of o2] Cons.prems(1) show ?thesis by simp
    qed (use opt(1) in simp_all)
  qed simp
  then show "apply_with what opts o1 \<noteq> Panic never_returns" and "apply_with what opts o1 = Ok o2 \<Longrightarrow> settled cli o2" by blast+
qed

text \<open>What package backoff does with attempts that come back: it gives up in the end.\<close>

definition patient_retry :: "('a, 'w) retry \<Rightarrow> bool" where
  "patient_retry retry \<longleftrightarrow>
     (\<forall>ctx f notify. (\<forall>s. fst (f s) \<noteq> Crash never_returns \<and> fst s \<le> fst (snd (f s))) \<longrightarrow> (\<forall>e s. fst s \<le> fst (notify e s))
        \<longrightarrow> answers (retry ctx f notify))"

lemma patient_retry_patient: "patient_retry (patient :: ('a, 'w) retry)"
proof -
  have "fst (retry_from n d start ctx f notify s) \<noteq> Panic never_returns \<and> fst s \<le> fst (snd (retry_from n d start ctx f notify s))"
    if f: "\<forall>s. fst (f s) \<noteq> Crash never_returns \<and> fst s \<le> fst (snd (f s))" and notify: "\<forall>e s. fst s \<le> fst (notify e s)"
    for n d start ctx and f :: "('a, 'w) attempts" and notify s
  proof (induction n arbitrary: s)
    case 0
    obtain a s1 where a: "f s = (a, s1)" by (cases "f s")
    with f [rule_format, of s] show ?case by (cases a) (auto simp: retry_from.simps [of 0] split: option.split)
  next
    case (Suc n)
    obtain a s1 where a: "f s = (a, s1)" by (cases "f s")
    note came = f [rule_format, of s, unfolded a, simplified]
    show ?case
    proof (cases a)
      case (Temporary e)
      obtain t w where n: "notify e s1 = (t, w)" by (cases "notify e s1")
      obtain ce t' where sel: "select_after ctx d (max (fst s) t) = (ce, t')" by fastforce
      then have "fst s \<le> t'"
        using select_after_None [of ctx d _ t'] select_after_Some [of ctx d _ _ t'] by (cases ce) fastforce+
      with Suc.IH [of "(t', w)"] came show ?thesis
        by (cases ce) (auto simp: retry_from.simps [of "Suc n"] a Temporary n sel split: option.split)
    qed (use a came in \<open>simp_all add: retry_from_ends\<close>)
  qed
  note ends = this
  show ?thesis
    unfolding patient_retry_def answers_def patient_def retry_n_def by (intro allI impI) (rule ends)
qed

lemma comes_or_warn [comings]:
  assumes "r \<noteq> Panic never_returns" and "P s" and "\<And>level msg attrs s. P s \<Longrightarrow> P (sk_log cli level msg attrs s)"
  shows "comes P (or_warn cli what img zero r s)"
  using assms by (cases r) (simp_all add: or_warn_def comes_def)

lemma Pull_answers:
  fixes cli :: "'w sdk"
  assumes settings: "\<forall>opt \<in> set opts. keeps_settled cli opt"
    and platform: "quick_platform (se_platform (ie_sdk env))"
    and display: "\<And>r. answers (ie_display env (ie_stdout env) r)" and encode: "\<And>a. ie_encode env a \<noteq> Panic never_returns"
    and retry: "patient_retry (ie_retry env)" and pull: "\<And>po. answers (en_ImagePull (sk_engine cli) ctx imageName po)"
    and logger: "\<And>level msg attrs s. fst s \<le> fst (sk_log cli level msg attrs s)"
  shows "answers (Pull env ctx imageName (WithPullClient (Some cli) # opts))"
proof -
  let ?o1 = "(initial_pull_options env)\<lparr>pu_client := Some cli\<rparr>"
  have start: "settled cli ?o1" using display by (simp add: settled_def initial_pull_options_def DisplayProgress_def [abs_def])
  have first: "apply_with ''apply pull option'' (WithPullClient (Some cli) # opts)
      \<lparr>pu_client = None, pu_options = \<lparr>ip_RegistryAuth = '''', ip_Platforms = []\<rparr>,
       pu_handler = DisplayProgress env (ie_stdout env), pu_credentials = None\<rparr> = apply_with ''apply pull option'' opts ?o1"
    by (simp add: WithPullClient_def initial_pull_options_def)
  have later: "t \<le> fst s \<Longrightarrow> t \<le> fst (sk_log cli level msg attrs s)" for t s level msg attrs using logger le_trans by blast
  have once: "fst (pull_once ctx cli imageName po s) \<noteq> Crash never_returns \<and> fst s \<le> fst (snd (pull_once ctx cli imageName po s))" for po s
  proof -
    obtain r s1 where r: "en_ImagePull (sk_engine cli) ctx imageName po s = (r, s1)" by (cases "en_ImagePull (sk_engine cli) ctx imageName po s")
    with answersD [OF pull r] show ?thesis by (cases r) (simp_all add: pull_once_def)
  qed
  have tried: "answers (ie_retry env ctx (pull_once ctx cli imageName po) (\<lambda>e. sk_log cli Warn what (attrs e)))" for po what attrs
    by (rule retry [unfolded patient_retry_def, rule_format]) (use once logger in blast)+
  show ?thesis
  proof (rule answersI_comes)
    fix t and s :: "'w clocked" assume s: "t \<le> fst s"
    show "comes (\<lambda>s. t \<le> fst s) (Pull env ctx imageName (WithPullClient (Some cli) # opts) s)"
    proof (cases "apply_with ''apply pull option'' opts ?o1")
      case (Ok o1)
      from apply_with_settled(2) [OF settings start Ok] have o1: "settled cli o1" .
      then have o1: "pu_client o1 = Some cli" "\<And>r. answers (pu_handler o1 r)"
        "\<And>img. answers ((case pu_credentials o1 of Some f \<Rightarrow> f | None \<Rightarrow> credentials_from_config env) img)"
        using credentials_from_config_answers [OF platform] by (auto simp: settled_def split: option.splits)
      show ?thesis
        unfolding Pull_def first Ok after_options_simps o1(1) sdk_or_default_Some st_do_simps Let_def
        using s
        by (auto intro!: comings o1(2,3) [THEN comes_answers] tried [THEN comes_answers] encode ParseImageRef_returns [OF platform]
            intro: later)
    next
      case (Panic p)
      with apply_with_settled(1) [OF settings start, of "''apply pull option''"] s show ?thesis
        unfolding Pull_def first by (simp add: comes_def)
    next
      case (Err e)
      with s show ?thesis unfolding Pull_def first by (simp add: comes_def)
    qed
  qed
qed


section \<open>Creating comes back\<close>

text \<open>
  A definition from which \<open>Run\<close> gets on: it has a client, its wait strategy is well configured, its substitutors come
  back and its options for the pull are settled ones.
\<close>

definition patient_definition :: "('o, 'w, 'h) container_env \<Rightarrow> 'w sdk \<Rightarrow> ('w, 'h) container_definition \<Rightarrow> bool" where
  "patient_definition env cli d \<longleftrightarrow>
     df_dockerClient d = Some cli \<and> (\<forall>w. df_waitingFor d = Some w \<longrightarrow> well (ce_wait env) False w)
   \<and> (\<forall>is \<in> set (df_imageSubstitutors d). \<forall>img.
        Substitute (pf_parse_ref (se_platform (ce_sdk env))) (ce_JoinPath env) is img \<noteq> Panic never_returns)
   \<and> (\<forall>opt \<in> set (df_pullOptions d). keeps_settled cli opt)"

text \<open>
  Nothing outside hangs: the calls of the daemon, the host, the loggers, the parsers, package backoff, and the hooks
  of the user, of which those before creation leave a definition from which \<open>Run\<close> gets on.
\<close>

definition responsive_world :: "('o, 'w, 'h) container_env \<Rightarrow> 'w sdk \<Rightarrow> bool" where
  "responsive_world env cli \<longleftrightarrow>
     answering_engine (sk_engine cli)
   \<and> (\<forall>ctx n. answers (en_NetworkInspect (sk_engine cli) ctx n True))
   \<and> (\<forall>ctx n i es. answers (en_NetworkConnect (sk_engine cli) ctx n i es))
   \<and> (\<forall>ctx req. answers (en_ContainerCreate (sk_engine cli) ctx req))
   \<and> (\<forall>ctx img. answers (en_ImageInspect (sk_engine cli) ctx img) \<and> (\<forall>po. answers (en_ImagePull (sk_engine cli) ctx img po)))
   \<and> answering_host (wl_host (ce_wait env)) \<and> quick_platform (se_platform (ce_sdk env))
   \<and> (\<forall>level msg attrs s. fst s \<le> fst (sk_log cli level msg attrs s))
   \<and> (\<forall>x. ie_abs (ce_image env) x \<noteq> Panic never_returns) \<and> (\<forall>a. ie_encode (ce_image env) a \<noteq> Panic never_returns)
   \<and> (\<forall>r. answers (ie_display (ce_image env) (ie_stdout (ce_image env)) r)) \<and> patient_retry (ie_retry (ce_image env))
   \<and> (\<forall>x. ce_ParsePortSpecs env x \<noteq> Panic never_returns) \<and> (\<forall>x. ce_ParseAddr env x \<noteq> Panic never_returns)
   \<and> (\<forall>x. ce_platforms_Parse env x \<noteq> Panic never_returns)
   \<and> (\<forall>h ctx c s r b' s'. ce_container_hook env h ctx c s = (r, b', s') \<longrightarrow> r \<noteq> Panic never_returns \<and> fst s \<le> fst s')
   \<and> (\<forall>h ctx d s r d' s'. patient_definition env cli d \<longrightarrow> ce_definition_hook env h ctx d s = (r, d', s') \<longrightarrow>
        r \<noteq> Panic never_returns \<and> fst s \<le> fst s' \<and> patient_definition env cli d')"

lemma responsive_worldD:
  assumes "responsive_world env cli"
  shows "answering_engine (sk_engine cli)" "answers (en_NetworkInspect (sk_engine cli) ctx n True)"
    "answers (en_NetworkConnect (sk_engine cli) ctx n i es)" "answers (en_ContainerCreate (sk_engine cli) ctx req)"
    "answers (en_ImageInspect (sk_engine cli) ctx img)" "answers (en_ImagePull (sk_engine cli) ctx img po)"
    "answering_host (wl_host (ce_wait env))" "quick_platform (se_platform (ce_sdk env))"
    "fst s \<le> fst (sk_log cli level msg attrs s)" "ie_encode (ce_image env) a \<noteq> Panic never_returns"
    "answers (ie_display (ce_image env) (ie_stdout (ce_image env)) r)" "patient_retry (ie_retry (ce_image env))"
    "ce_ParsePortSpecs env x \<noteq> Panic never_returns" "ce_ParseAddr env y \<noteq> Panic never_returns"
    "ce_platforms_Parse env y \<noteq> Panic never_returns"
    "patient_definition env cli d \<Longrightarrow> ce_definition_hook env h ctx d s = (q, d', s') \<Longrightarrow>
        q \<noteq> Panic never_returns \<and> fst s \<le> fst s' \<and> patient_definition env cli d'"
  using assms unfolding responsive_world_def by (elim conjE; (simp del: split_paired_All split_paired_Ex; fail | blast))+

lemma responsive_created:
  assumes "responsive_world env cli"
  shows "responsive env (container_of cli def i)"
  using assms unfolding responsive_def responsive_world_def by (simp add: container_of_def ctr_engine_def del: split_paired_All)

definition prepared :: "('o, 'w, 'h) container_env \<Rightarrow> 'w sdk \<Rightarrow> nat \<Rightarrow> ('w, 'h) creating \<times> 'w clocked \<Rightarrow> bool" where
  "prepared env cli t gs \<longleftrightarrow> patient_definition env cli (cg_def (fst gs)) \<and> cg_client (fst gs) = cli \<and> t \<le> fst (snd gs)"

lemma outcomes_returns: "(\<And>r. r \<in> set rs \<Longrightarrow> r \<noteq> Panic never_returns) \<Longrightarrow> outcomes rs \<noteq> Panic never_returns"
  by (induction rs) (auto simp: then_do_Panic_iff)

lemma parsePortSpecs_returns:
  assumes "responsive_world env cli"
  shows "parsePortSpecs env ps \<noteq> Panic never_returns"
proof -
  note parse = responsive_worldD(13,14) [OF assms] ParsePort_returns [OF responsive_worldD(7) [OF assms]]
  have "parse_binding env nb \<noteq> Panic never_returns" for nb
    using parse(2) by (cases nb) (simp add: parse_binding_def then_do_Panic_iff)
  then have "outcomes (map (parse_binding env) bs) \<noteq> Panic never_returns" for bs
    by (intro outcomes_returns) auto
  then have "outcomes (map (\<lambda>(portStr, natBs). then_do (ce_ParsePort env portStr) (\<lambda>port.
      then_do (outcomes (map (parse_binding env) natBs)) (\<lambda>bs. Ok (port, bs)))) pbs) \<noteq> Panic never_returns" for pbs
    using parse(3) by (intro outcomes_returns) (auto simp: then_do_Panic_iff)
  moreover have "outcomes (map (ce_ParsePort env) qs) \<noteq> Panic never_returns" for qs
    using parse(3) by (intro outcomes_returns) auto
  ultimately show ?thesis using parse(1) by (simp add: parsePortSpecs_def then_do_Panic_iff)
qed

lemma preCreateContainerHook_comes:
  assumes world: "responsive_world env cli" and gs: "prepared env cli t gs"
  shows "comes (prepared env cli t) (preCreateContainerHook env ctx gs)"
proof -
  obtain cg s where cg: "gs = (cg, s)" by (cases gs)
  with gs have client: "cg_client cg = cli" "patient_definition env cli (cg_def cg)" "t \<le> fst s" by (simp_all add: prepared_def)
  obtain r s1 where r: "first_endpoint cg ctx s = (r, s1)" by (cases "first_endpoint cg ctx s")
  have "comes (\<lambda>s. t \<le> fst s) (first_endpoint cg ctx s)"
    using client(3) by (auto simp: first_endpoint_def Let_def client(1) split: list.split
        intro!: comings responsive_worldD(2) [OF world, THEN comes_answers])
  with r have came: "r \<noteq> Panic never_returns" "t \<le> fst s1" by (simp_all add: comes_def)
  show ?thesis
  proof (cases r)
    case (Ok nets)
    then show ?thesis
      using r came client parsePortSpecs_returns [OF world, of "df_exposedPorts (cg_def cg)"]
      by (cases "parsePortSpecs env (df_exposedPorts (cg_def cg))")
        (auto simp: preCreateContainerHook_def cg Let_def comes_def prepared_def)
  qed (use r came client in \<open>simp_all add: preCreateContainerHook_def cg comes_def prepared_def\<close>)
qed

lemma pull_hook_comes:
  assumes world: "responsive_world env cli" and gs: "prepared env cli t gs"
  shows "comes (prepared env cli t) (pull_hook env ctx gs)"
proof -
  obtain cg s where cg: "gs = (cg, s)" by (cases gs)
  let ?d = "cg_def cg"
  from gs have client: "cg_client cg = cli" and patient: "patient_definition env cli ?d" and s: "t \<le> fst s" by (simp_all add: prepared_def cg)
  then have d: "df_dockerClient ?d = Some cli" "\<forall>opt \<in> set (df_pullOptions ?d). keeps_settled cli opt" by (simp_all add: patient_definition_def)
  have sdk: "ie_sdk (ce_image env) = ce_sdk env" by (simp add: ce_sdk_def)
  have still: "patient_definition env cli (?d\<lparr>df_platform := p\<rparr>)" for p using patient by (simp add: patient_definition_def)
  have pulled: "comes (\<lambda>s. t \<le> fst s) (Pull (ce_image env) ctx (df_image ?d)
      (WithPullClient (Some cli) # df_pullOptions ?d @ [WithPullOptions po]) s')" if "t \<le> fst s'" for po s'
    by (rule comes_answers [OF Pull_answers that])
      (use d(2) WithPullOptions_settled responsive_worldD [OF world] sdk in \<open>auto\<close>)
  define inspected where "inspected = (if df_alwaysPullImage ?d then (Err (Class ErrNotFound ''''), s)
      else en_ImageInspect (sk_engine cli) ctx (df_image ?d) s)"
  have "comes (\<lambda>s. t \<le> fst s) inspected"
    using s by (auto simp: inspected_def intro!: comings responsive_worldD(5) [OF world, THEN comes_answers])
  then obtain q s1 where q: "inspected = (q, s1)" "q \<noteq> Panic never_returns" "t \<le> fst s1" by (cases inspected) (auto simp: comes_def)
  have should: "should_pull ?d platform q \<noteq> Panic never_returns" for platform
    using q(2) by (cases q) (auto simp: should_pull_def)
  have rest: "comes (prepared env cli t)
      (case (should_pull ?d platform q, s1) of
         (Err e, s) \<Rightarrow> (Err e, cg', s) | (Panic p, s) \<Rightarrow> (Panic p, cg', s) | (Ok False, s) \<Rightarrow> (Ok (), cg', s)
       | (Ok True, s) \<Rightarrow> (case Pull (ce_image env) ctx (df_image ?d)
            ([WithPullClient (Some cli)] @ df_pullOptions ?d @ [WithPullOptions po]) s of (r, s) \<Rightarrow> (r, cg', s)))"
    if "patient_definition env cli (cg_def cg')" "cg_client cg' = cli" for platform cg' po
    using should [of platform] that q(3) pulled [OF q(3), of po]
    by (cases "should_pull ?d platform q") (auto simp: comes_def prepared_def split: prod.split bool.split)
  note hook = pull_hook_def [of env ctx gs, unfolded cg prod.case Let_def d(1) option.case inspected_def [symmetric], unfolded q(1) fst_conv snd_conv, folded cg]
  show ?thesis
  proof (cases "df_imagePlatform ?d = ''''")
    case True
    with rest [where platform = None and cg' = cg] patient client show ?thesis
      unfolding hook by simp
  next
    case False
    show ?thesis
    proof (cases "ce_platforms_Parse env (df_imagePlatform ?d)")
      case (Ok p)
      with False rest [where platform = "Some p" and cg' = "cg\<lparr>cg_def := ?d\<lparr>df_platform := Some p\<rparr>\<rparr>"] still client show ?thesis
        unfolding hook by simp
    next
      case (Err e)
      with False gs show ?thesis unfolding hook by (simp add: comes_def)
    next
      case (Panic p)
      with False gs responsive_worldD(15) [OF world, of "df_imagePlatform ?d"] show ?thesis
        unfolding hook by (simp add: comes_def)
    qed
  qed
qed

lemma run_definition_hook_comes:
  assumes world: "responsive_world env cli" and gs: "prepared env cli t gs"
  shows "comes (prepared env cli t) (run_definition_hook env ctx h gs)"
proof (cases h)
  case LogCreating
  with gs responsive_worldD(9) [OF world] show ?thesis
    by (cases gs) (auto simp: prepared_def patient_definition_def comes_def intro: le_trans)
next
  case (UserDefinitionHook u)
  obtain cg s where cg: "gs = (cg, s)" by (cases gs)
  obtain r d' s' where r: "ce_definition_hook env u ctx (cg_def cg) s = (r, d', s')" by (metis prod_cases3)
  with responsive_worldD(16) [OF world _ r] gs UserDefinitionHook show ?thesis
    by (auto simp: cg prepared_def comes_def)
qed (use preCreateContainerHook_comes [OF assms] pull_hook_comes [OF assms] in simp_all)

lemma applyDefinitionHooks_comes:
  assumes world: "responsive_world env cli"
  shows "prepared env cli t gs \<Longrightarrow> comes (prepared env cli t) (applyDefinitionHooks env ctx hs gs)"
proof (induction hs arbitrary: gs)
  case (Cons h hs)
  then show ?case using run_definition_hook_comes [OF world Cons.prems] by (auto intro!: comings)
qed (simp add: comes_def)

lemma creatingHook_comes:
  assumes "responsive_world env cli" and "prepared env cli t gs"
  shows "comes (prepared env cli t) (creatingHook env ctx gs)"
  unfolding creatingHook_def applyLifecycleHooks_definition_def by (intro comings applyDefinitionHooks_comes assms)

lemma substitute_image_comes:
  assumes world: "responsive_world env cli"
    and subs: "\<forall>is \<in> set iss. \<forall>img. Substitute (pf_parse_ref (se_platform (ce_sdk env))) (ce_JoinPath env) is img \<noteq> Panic never_returns"
  shows "t \<le> fst s \<Longrightarrow> comes (\<lambda>s. t \<le> fst s) (substitute_image env cli iss img s)"
  using subs
proof (induction iss arbitrary: img s)
  case (Cons x iss)
  have later: "t \<le> fst s \<Longrightarrow> t \<le> fst (sk_log cli level msg attrs s)" for s level msg attrs
    using responsive_worldD(9) [OF world] le_trans by blast
  show ?case using Cons.prems by (auto intro!: comings Cons.IH later)
qed (simp add: comes_def)

text \<open>
  Options that leave \<open>Run\<close> with a definition from which it gets on: they come back, the client is the given one or,
  when none is given, the one that is made; the rest is \<open>patient_definition\<close>.
\<close>

definition patient_options ::
    "('o, 'w, 'h) container_env \<Rightarrow> 'w sdk \<Rightarrow> ('w, 'h) customizer list \<Rightarrow> 'w clocked \<Rightarrow> bool" where
  "patient_options env cli opts s \<longleftrightarrow>
     (case customize opts initial_definition s of (q, s1) \<Rightarrow>
        q \<noteq> Panic never_returns \<and> fst s \<le> fst s1
      \<and> (\<forall>d. q = Ok d \<longrightarrow> patient_definition env cli (d\<lparr>df_dockerClient := Some cli\<rparr>)
           \<and> (df_dockerClient d = Some cli \<or> df_dockerClient d = None \<and> makes_client (ce_sdk env) cli)))"

lemma client_comes:
  assumes world: "responsive_world env cli" and "fst s \<le> fst s1"
    and client: "dc = Some cli \<or> dc = None \<and> makes_client (ce_sdk env) cli"
  obtains q s2 where "sdk_or_default (ce_sdk env) ctx dc s1 = (q, s2)" and "q \<noteq> Panic never_returns" and "fst s \<le> fst s2"
    and "\<And>c. q = Ok c \<Longrightarrow> c = cli"
proof -
  obtain q s2 where q: "sdk_or_default (ce_sdk env) ctx dc s1 = (q, s2)" by (cases "sdk_or_default (ce_sdk env) ctx dc s1")
  have "q \<noteq> Panic never_returns \<and> fst s \<le> fst s2 \<and> (\<forall>c. q = Ok c \<longrightarrow> c = cli)"
  proof (cases dc)
    case None
    with client have made: "makes_client (ce_sdk env) cli" by simp
    note default = sdk_or_default_comes [OF made responsive_worldD(8) [OF world]]
    from default(1) [OF assms(2), of ctx] default(2) [of ctx s1 _ s2] q None show ?thesis by (auto simp: comes_def)
  qed (use client q assms(2) in auto)
  with q that show thesis by blast
qed

text \<open>The request, with the client and the definition that the rest of \<open>Run\<close> goes on with.\<close>

lemma run_request_comes:
  assumes world: "responsive_world env cli" and options: "patient_options env cli opts s"
  shows "comes (\<lambda>s'. fst s \<le> fst s') (run_request env ctx opts s)"
    and "run_request env ctx opts s = (Ok (cli', def', req), s') \<Longrightarrow> cli' = cli \<and> patient_definition env cli def'"
proof -
  obtain o1 s1 where o1: "customize opts initial_definition s = (o1, s1)" by (cases "customize opts initial_definition s")
  note patient = options [unfolded patient_options_def o1 prod.case]
  have "comes (\<lambda>s'. fst s \<le> fst s') (run_request env ctx opts s)
      \<and> (\<forall>cli' def' req s'. run_request env ctx opts s = (Ok (cli', def', req), s') \<longrightarrow> cli' = cli \<and> patient_definition env cli def')"
  proof (cases o1)
    case (Ok d)
    with patient have d: "patient_definition env cli (d\<lparr>df_dockerClient := Some cli\<rparr>)"
      and client: "df_dockerClient d = Some cli \<or> df_dockerClient d = None \<and> makes_client (ce_sdk env) cli" by simp_all
    from client_comes [OF world _ client, of s s1 ctx] patient obtain q s2
      where q: "sdk_or_default (ce_sdk env) ctx (df_dockerClient d) s1 = (q, s2)" "q \<noteq> Panic never_returns" "fst s \<le> fst s2"
      and made: "\<And>c. q = Ok c \<Longrightarrow> c = cli" by blast
    obtain r cg s3 where r: "creatingHook env ctx (initial_creating cli d, s2) = (r, cg, s3)" by (metis prod_cases3)
    have "prepared env cli (fst s) (initial_creating cli d, s2)"
      using d q(3) by (simp add: prepared_def initial_creating_def patient_definition_def)
    from creatingHook_comes [OF world this, of ctx] r
    have came: "r \<noteq> Panic never_returns" "patient_definition env cli (cg_def cg)" "fst s \<le> fst s3"
      by (simp_all add: comes_def prepared_def)
    then have cg: "df_dockerClient (cg_def cg) = Some cli"
      and subs: "comes (\<lambda>s'. fst s \<le> fst s') (substitute_image env cli (df_imageSubstitutors (cg_def cg)) (df_image (cg_def cg)) s3)"
      by (auto simp: patient_definition_def intro: substitute_image_comes [OF world])
    have requested: "comes (\<lambda>s'. fst s \<le> fst s') (requested env ctx cg s3)"
      using subs cg by (auto simp: requested_def Let_def intro!: comings)
    have kept: "cli' = cli \<and> patient_definition env cli def'" if "requested env ctx cg s3 = (Ok (cli', def', req), s')" for cli' def' req s'
      using that came(2) cg by (auto simp: requested_def st_do_Ok_iff Let_def patient_definition_def)
    have req: "run_request env ctx opts s =
        (case validate_definition d of
           Some e \<Rightarrow> (Err (wrapf ''validate'' e), s1)
         | None \<Rightarrow> (case q of Err e \<Rightarrow> (Err e, s2) | Panic p \<Rightarrow> (Panic p, s2)
             | Ok _ \<Rightarrow> (case r of Err e \<Rightarrow> (Err e, s3) | Panic p \<Rightarrow> (Panic p, s3) | Ok _ \<Rightarrow> requested env ctx cg s3)))"
      using made by (cases r; cases q) (auto simp: run_request_def o1 Ok q(1) r split: option.split)
    show ?thesis
      unfolding req using requested kept came q patient
      by (auto simp: comes_def split: option.split outcome.split)
  qed (use patient o1 in \<open>simp_all add: run_request_def comes_def\<close>)
  then show "comes (\<lambda>s'. fst s \<le> fst s') (run_request env ctx opts s)"
    and "run_request env ctx opts s = (Ok (cli', def', req), s') \<Longrightarrow> cli' = cli \<and> patient_definition env cli def'" by blast+
qed

lemma connect_networks_comes:
  assumes "responsive_world env cli"
  shows "answers (connect_networks (sk_engine cli) ctx i aliases ns)"
proof (induction ns)
  case (Cons n ns)
  show ?case
    by (rule answersI_comes)
      (auto intro!: comings Cons.IH [THEN comes_answers] responsive_worldD(2,3) [OF assms, THEN comes_answers])
qed (simp add: answers_def)

lemma run_created_comes:
  assumes world: "responsive_world env cli" and def: "patient_definition env cli def" and t: "t \<le> fst s"
  shows "comes (still (container_of cli def i) t) (run_created env ctx def (container_of cli def i, s))"
proof -
  let ?c = "container_of cli def i"
  note resp = responsive_created [OF world, of def i] and en = answering_engineD [OF responsive_worldD(1) [OF world]]
  have c: "ctr_engine (Running b ?c) = sk_engine cli" for b by simp
  have well: "\<And>w. ct_waitingFor ?c = Some w \<Longrightarrow> well (ce_wait env) False w"
    using def by (simp add: patient_definition_def container_of_def)
  have start: "still ?c t (?c, s)"
    unfolding still_def by (rule exI [of _ False], rule exI [of _ s]) (simp add: t Running_def container_of_def)
  have connect: "answers (connect_networks (ctr_engine (Running b ?c)) ctx (container_ID (Running b ?c)) aliases ns)" for b aliases ns
    using connect_networks_comes [OF world] by simp
  have calls: "answers (en_ContainerStart (ctr_engine (Running b ?c)) ctx (container_ID (Running b ?c)))" for b using en(4) by simp
  have close: "answers (en_Close (ctr_engine ?c))" using en(1) by simp
  note hooks = applyLifecycleHooks_comes [OF resp well]
  show ?thesis
    unfolding run_created_def createdHook_def Start_def startingHook_def startedHook_def readiedHook_def
    using start by (auto intro!: comings hooks connect calls close)
qed

text \<open>
  C6: \<open>Run\<close> never hangs. Let nothing outside hang (the daemon, the host, the registry retries, the hooks of the user,
  whatever they answer), and let the options come back with a well-configured wait strategy, with substitutors that
  come back and with pull options of this package; the client is the one that the options give, or the one that
  \<open>client.New\<close> makes when they give none. Then \<open>Run\<close> comes back: neither the health check of a new client nor the
  pull of the image nor the networks nor the copies of files nor waiting for the container go on for ever. It comes
  back with its container, with an error, or with a panic (of something it called, or of its own when the daemon gives
  an ID shorter than 12 bytes), and the clock is not turned back.
\<close>

theorem Run_returns:
  assumes world: "responsive_world env cli" and options: "patient_options env cli opts s"
    and run: "Run env ctx opts s = (r, c, s')"
  shows "r \<noteq> Panic never_returns \<and> fst s \<le> fst s' \<and> (r = Ok () \<longrightarrow> c \<noteq> None)"
proof -
  note req = run_request_comes [OF world options, of ctx]
  obtain q s2 where q: "run_request env ctx opts s = (q, s2)" by (cases "run_request env ctx opts s")
  with req(1) have q_came: "q \<noteq> Panic never_returns" "fst s \<le> fst s2" by (simp_all add: comes_def)
  show ?thesis
  proof (cases q)
    case (Ok x)
    obtain cli' def' rq where x: "x = (cli', def', rq)" by (cases x)
    with req(2) q Ok have same: "cli' = cli" and def': "patient_definition env cli def'" by blast+
    obtain a s3 where a: "ContainerCreate (se_version (ce_sdk env)) (sk_engine cli) ctx rq s2 = (a, s3)"
      by (cases "ContainerCreate (se_version (ce_sdk env)) (sk_engine cli) ctx rq s2")
    have "answers (ContainerCreate (se_version (ce_sdk env)) (sk_engine cli) ctx rq)"
      by (rule answersI_comes)
        (auto simp: ContainerCreate_def intro!: comings responsive_worldD(4) [OF world, THEN comes_answers])
    from answersD [OF this a] q_came have a_came: "a \<noteq> Panic never_returns" "fst s \<le> fst s3" by auto
    show ?thesis
    proof (cases a)
      case (Ok i)
      from run_created_comes [OF world def' a_came(2), of i ctx] run q \<open>q = Ok x\<close> x a Ok same a_came(2) show ?thesis
        by (cases "run_created env ctx def' (container_of cli def' i, s3)")
          (auto simp: Run_def comes_def still_def never_returns_def split: if_splits)
    qed (use run q \<open>q = Ok x\<close> x a same a_came in \<open>auto simp: Run_def\<close>)
  qed (use run q q_came in \<open>auto simp: Run_def\<close>)
qed

text \<open>On the daemon and the host of \<open>operations_return\<close>, where no container ever gets ready; with the client given, and without.\<close>

definition slow_sdk :: "unit sdk" where
  "slow_sdk = \<lparr>sk_engine = slow_engine, sk_log = discard_logger\<rparr>"

definition hosted_env :: "(nat, unit, unit) container_env" where
  "hosted_env = deaf_env\<lparr>ce_image := demo_image_env\<lparr>ie_sdk := demo_sdk_env\<lparr>se_api_new := (\<lambda>_. Ok slow_engine)\<rparr>\<rparr>\<rparr>"

definition waiting_options :: "(unit, unit) customizer list" where
  "waiting_options = [WithImage ''alpine'',
     WithWaitStrategyAndDeadline 5000 [Some (SHostPort (ForListeningPort demo_port)), Some (SExit ForExit)]]"

lemma deaf_world: "responsive_world hosted_env slow_sdk"
proof -
  have "quick_platform demo_platform" by (simp add: quick_platform_def demo_platform_def zero_config_def)
  then show ?thesis
    using slow_engine_answers answering_demo_host patient_retry_patient
    by (simp add: responsive_world_def slow_sdk_def hosted_env_def deaf_env_def demo_env_def discard_logger_def
        demo_image_env_def demo_sdk_env_def ce_sdk_def answers_def)
      (simp add: slow_engine_def demo_engine_def never_returns_def)
qed

lemma made_slow: "makes_client (ce_sdk hosted_env) slow_sdk"
  by (simp add: makes_client_def hosted_env_def ce_sdk_def demo_sdk_env_def slow_sdk_def slow_engine_def demo_engine_def
      answers_def)

theorem Run_returns_witness:
  "(\<exists>r c s'. Run hosted_env Background waiting_options (0, ()) = (r, c, s') \<and> r \<noteq> Panic never_returns)
   \<and> (\<exists>r c s'. Run hosted_env Background (WithClient (Some slow_sdk) # waiting_options) (0, ()) = (r, c, s') \<and> r \<noteq> Panic never_returns)"
proof -
  have options: "patient_options hosted_env slow_sdk waiting_options (0, ())"
    "patient_options hosted_env slow_sdk (WithClient (Some slow_sdk) # waiting_options) (0, ())"
    using made_slow
    by (simp_all add: patient_options_def waiting_options_def WithImage_def WithClient_def WithWaitStrategyAndDeadline_def
        patient_definition_def initial_definition_def ForAll_def ForListeningPort_def NewHostPortStrategy_def ForExit_def
        NewExitStrategy_def defaultPollInterval_def)
  have "\<exists>r c s'. Run hosted_env Background opts (0, ()) = (r, c, s') \<and> r \<noteq> Panic never_returns"
    if "patient_options hosted_env slow_sdk opts (0, ())" for opts
    using Run_returns [OF deaf_world that] by (metis prod_cases3)
  with options show ?thesis by blast
qed

end
