(* ===== verification/Pull_Credentials.thy ===== *)
theory Pull_Credentials
  imports Docker_Image
begin

text \<open>
  Where the packages \<open>config\<close> and \<open>image\<close> meet: an image that is pulled with the credentials that the Docker
  configuration holds for its registry. The first section follows one image through \<open>AuthConfigs\<close>, the second
  joins this with \<open>Pull\<close>.
\<close>


section \<open>The credentials of one image\<close>

text \<open>
  What a stored entry means when it has no identity token: its user and password when it has both, else those in its
  base64 form.
\<close>

definition stored_login :: "auth_config \<Rightarrow> string \<Rightarrow> string \<Rightarrow> bool" where
  "stored_login entry user pass \<longleftrightarrow> ac_IdentityToken entry = '''' \<and>
     (if ac_Username entry \<noteq> '''' \<and> ac_Password entry \<noteq> '''' then user = ac_Username entry \<and> pass = ac_Password entry
      else ac_Auth entry = b64_encode (user @ '':'' @ pass) \<and> CHR '':'' \<notin> set user)"

text \<open>What \<open>resolveAuthConfigForHostname\<close> makes of a stored entry: the user and the password of the result.\<close>

definition resolved_login :: "unit platform \<Rightarrow> auth_config \<Rightarrow> string \<Rightarrow> string \<Rightarrow> bool" where
  "resolved_login pf entry user pass \<longleftrightarrow>
     (\<forall>hostname. \<exists>a. processStoredAuthConfig pf entry hostname () = (Ok a, ()) \<and> ac_Username a = user \<and> ac_Password a = pass)"

lemma stored_login_resolved: "stored_login entry user pass \<Longrightarrow> resolved_login pf entry user pass"
  by (auto simp: stored_login_def resolved_login_def processStoredAuthConfig_def Let_def decodeBase64Auth_def b64_decode_encode
      split: if_splits)

lemma identity_token_resolved: "ac_IdentityToken entry \<noteq> '''' \<Longrightarrow> resolved_login pf entry '''' (ac_IdentityToken entry)"
  by (simp add: resolved_login_def processStoredAuthConfig_def)

text \<open>Without a helper for the host and without a credential store, the stored entry decides.\<close>

definition plainly_stored :: "config \<Rightarrow> string \<Rightarrow> auth_config \<Rightarrow> bool" where
  "plainly_stored cfg host entry \<longleftrightarrow>
     cfg_CredentialHelpers cfg (ResolveRegistryHost host) = None \<and> cfg_CredentialsStore cfg = ''''
   \<and> map_of (cfg_AuthConfigs cfg) (ResolveRegistryHost host) = Some entry \<and> cfg_cache cfg = None"

lemma AuthConfigForHostname_login:
  assumes "plainly_stored cfg host entry" and "resolved_login pf entry user pass"
  shows "\<exists>a c'. AuthConfigForHostname pf host (cfg, ()) = (Ok a, c', ()) \<and> ac_Username a = user \<and> ac_Password a = pass"
proof -
  from assms(2) obtain a
    where a: "processStoredAuthConfig pf entry (ResolveRegistryHost host) () = (Ok a, ())" "ac_Username a = user" "ac_Password a = pass"
    unfolding resolved_login_def by blast
  with assms(1) have "resolveAuthConfigForHostname pf cfg host () = (Ok a, ())"
    by (simp add: plainly_stored_def resolveAuthConfigForHostname_def resolve_stored_def Let_def)
  then have "resolveAuthConfigForHostname pf (snd (getCache pf cfg)) host () = (Ok a, ())" by (simp add: getCache_resolve)
  moreover have "cached cfg host = None" using assms(1) by (simp add: plainly_stored_def cached_def)
  ultimately show ?thesis
    using a(2-3) by (cases "getCache pf cfg") (auto simp: AuthConfigForHostname_miss)
qed

text \<open>The map that \<open>AuthConfigs\<close> makes for one image has one entry, under the registry of the image.\<close>

lemma AuthConfigs_one:
  assumes load: "Load pf disk = Ok cfg" and ref: "ParseImageRef (pf_parse_ref pf) img = Ok ref"
    and stored: "plainly_stored cfg (ir_Registry ref) entry" "resolved_login pf entry user pass"
  shows "\<exists>a. AuthConfigs pf disk [img] () = (Ok [ir_Registry ref \<mapsto> a], ()) \<and> ac_Username a = user \<and> ac_Password a = pass"
proof -
  from AuthConfigForHostname_login [OF stored] obtain a c'
    where a: "AuthConfigForHostname pf (ir_Registry ref) (cfg, ()) = (Ok a, c', ())" "ac_Username a = user" "ac_Password a = pass"
    by blast
  with load ref have "AuthConfigs pf disk [img] () = (Ok [ir_Registry ref \<mapsto> a\<lparr>ac_ServerAddress := ir_Registry ref\<rparr>], ())"
    by (simp add: AuthConfigs_def AuthConfigsForImages_def AuthConfigForImage_def)
  with a(2-3) show ?thesis by (intro exI [of _ "a\<lparr>ac_ServerAddress := ir_Registry ref\<rparr>"]) simp
qed


section \<open>Pulling with them\<close>

text \<open>What is documented of a range over a map: every key once.\<close>

definition ranges :: "('a smap \<Rightarrow> string list) \<Rightarrow> bool" where
  "ranges walk \<longleftrightarrow> (\<forall>m. finite (dom m) \<longrightarrow> distinct (walk m) \<and> set (walk m) = dom m)"

lemma ranges_one: "ranges walk \<Longrightarrow> walk [k \<mapsto> v] = [k]"
proof -
  assume "ranges walk"
  then have "distinct (walk [k \<mapsto> v])" "set (walk [k \<mapsto> v]) = {k}" by (simp_all add: ranges_def)
  then show ?thesis by (cases "walk [k \<mapsto> v]") (auto simp: subset_singleton_iff)
qed

lemma credentials_from_config_login:
  assumes load: "Load (se_platform (ie_sdk env)) (se_disk (ie_sdk env)) = Ok cfg"
    and ref: "ParseImageRef (pf_parse_ref (se_platform (ie_sdk env))) imageName = Ok ref"
    and stored: "plainly_stored cfg (ir_Registry ref) entry" "resolved_login (se_platform (ie_sdk env)) entry user pass"
    and walk: "ranges (ie_range env)"
  shows "credentials_from_config env imageName s = (Ok (user, pass), s)"
proof -
  from AuthConfigs_one [OF load ref stored] obtain a
    where "AuthConfigs (se_platform (ie_sdk env)) (se_disk (ie_sdk env)) [imageName] () = (Ok [ir_Registry ref \<mapsto> a], ())"
      "ac_Username a = user" "ac_Password a = pass"
    by blast
  then show ?thesis by (simp add: credentials_from_config_def ranges_one [OF walk])
qed

lemma pull_sends_resolved:
  assumes load: "Load (se_platform (ie_sdk env)) (se_disk (ie_sdk env)) = Ok cfg"
    and ref: "ParseImageRef (pf_parse_ref (se_platform (ie_sdk env))) imageName = Ok ref" and name: "imageName \<noteq> ''''"
    and stored: "plainly_stored cfg (ir_Registry ref) entry" "resolved_login (se_platform (ie_sdk env)) entry user pass"
    and walk: "ranges (ie_range env)" and law: "retries (ie_retry env)"
    and opts: "apply_with ''apply pull option'' opts (initial_pull_options env) = Ok o1"
    and cli: "pu_client o1 = Some cli" and cred: "pu_credentials o1 = None"
    and auth: "ie_encode env (pull_auth_config user pass ref) = Ok a"
    and pull: "Pull env ctx imageName opts s = (Ok (), s')"
  shows "\<exists>t r t'. en_ImagePull (sk_engine cli) ctx imageName ((pu_options o1)\<lparr>ip_RegistryAuth := a\<rparr>) t = (Ok r, t')
     \<and> pu_handler o1 r t' = (Ok (), s')"
proof -
  let ?once = "pull_once ctx cli imageName ((pu_options o1)\<lparr>ip_RegistryAuth := a\<rparr>)"
  have "st_do (ie_retry env ctx ?once (\<lambda>e. sk_log cli Warn ''failed to pull image, will retry'' [(''error'', err_text e)]) s)
      (\<lambda>r s. st_wrap ''pull handler'' (pu_handler o1 r s) (\<lambda>_ s. (Ok (), s))) = (Ok (), s')"
    using pull opts cli cred name ref auth credentials_from_config_login [OF load ref stored walk]
    by (simp add: Pull_def initial_pull_options_def Let_def)
  then show ?thesis
    using retries_Ok [OF law, of ctx ?once _ s] by (auto simp: st_do_Ok_iff st_wrap_Ok_iff simp del: split_paired_Ex) blast
qed

text \<open>
  C22: the login of the configuration reaches the daemon. When the configuration on disk stores a user and a password for
  the registry of an image, in plain text or in their base64 form, under whatever alias of Docker Hub, and no helper,
  credential store or identity token is in the way, a \<open>Pull\<close> of that image without credentials of its own asks the
  daemon with the encoding of exactly that user and that password, for that registry (with the password as an identity
  token when the user is \<open><token>\<close>); it succeeds only if the daemon accepted this.
\<close>

theorem pull_sends_stored_credentials:
  assumes load: "Load (se_platform (ie_sdk env)) (se_disk (ie_sdk env)) = Ok cfg"
    and ref: "ParseImageRef (pf_parse_ref (se_platform (ie_sdk env))) imageName = Ok ref" and name: "imageName \<noteq> ''''"
    and stored: "plainly_stored cfg (ir_Registry ref) entry" "stored_login entry user pass"
    and walk: "ranges (ie_range env)" and law: "retries (ie_retry env)"
    and opts: "apply_with ''apply pull option'' opts (initial_pull_options env) = Ok o1"
    and cli: "pu_client o1 = Some cli" and cred: "pu_credentials o1 = None"
    and auth: 
      "ie_encode env ((if user = tokenUsername then empty_auth\<lparr>ac_IdentityToken := pass\<rparr>
                       else empty_auth\<lparr>ac_Username := user, ac_Password := pass\<rparr>)\<lparr>ac_ServerAddress := ir_Registry ref\<rparr>) = Ok a"
    and pull: "Pull env ctx imageName opts s = (Ok (), s')"
  shows "\<exists>t r t'. en_ImagePull (sk_engine cli) ctx imageName ((pu_options o1)\<lparr>ip_RegistryAuth := a\<rparr>) t = (Ok r, t')
     \<and> pu_handler o1 r t' = (Ok (), s')"
proof -
  have "ie_encode env (pull_auth_config user pass ref) = Ok a"
    using auth by (simp add: pull_auth_config_def tokenUsername_def split: if_splits)
  from pull_sends_resolved [OF load ref name stored(1) stored_login_resolved [OF stored(2)] walk law opts cli cred this pull]
  show ?thesis .
qed

text \<open>But a stored identity token is sent as the password of an empty user, and not as an identity token.\<close>

lemma identity_token_sent_as_password:
  assumes load: "Load (se_platform (ie_sdk env)) (se_disk (ie_sdk env)) = Ok cfg"
    and ref: "ParseImageRef (pf_parse_ref (se_platform (ie_sdk env))) imageName = Ok ref" and name: "imageName \<noteq> ''''"
    and stored: "plainly_stored cfg (ir_Registry ref) entry" "ac_IdentityToken entry \<noteq> ''''"
    and walk: "ranges (ie_range env)" and law: "retries (ie_retry env)"
    and opts: "apply_with ''apply pull option'' opts (initial_pull_options env) = Ok o1"
    and cli: "pu_client o1 = Some cli" and cred: "pu_credentials o1 = None"
    and auth: 
      "ie_encode env (empty_auth\<lparr>ac_Password := ac_IdentityToken entry, ac_ServerAddress := ir_Registry ref\<rparr>) = Ok a"
    and pull: "Pull env ctx imageName opts s = (Ok (), s')"
  shows "\<exists>t r t'. en_ImagePull (sk_engine cli) ctx imageName ((pu_options o1)\<lparr>ip_RegistryAuth := a\<rparr>) t = (Ok r, t')
     \<and> pu_handler o1 r t' = (Ok (), s')"
proof -
  have "pull_auth_config '''' (ac_IdentityToken entry) ref
      = empty_auth\<lparr>ac_Password := ac_IdentityToken entry, ac_ServerAddress := ir_Registry ref\<rparr>"
    by (simp add: pull_auth_config_def empty_auth_def)
  with auth have "ie_encode env (pull_auth_config '''' (ac_IdentityToken entry) ref) = Ok a" by simp
  from pull_sends_resolved [OF load ref name stored(1) identity_token_resolved [OF stored(2)] walk law opts cli cred this pull]
  show ?thesis .
qed

definition keyring :: config where
  "keyring = zero_config\<lparr>cfg_AuthConfigs := [(IndexDockerIO, empty_auth\<lparr>ac_Auth := b64_encode ''me:pa:ss''\<rparr>)]\<rparr>"

definition keyring_env :: "(nat, unit) image_env" where
  "keyring_env = demo_image_env\<lparr>ie_sdk := demo_sdk_env\<lparr>se_platform := demo_platform\<lparr>pf_decode := (\<lambda>_. Ok keyring)\<rparr>\<rparr>,
     ie_range := (\<lambda>m. sorted_list_of_set (dom m))\<rparr>"

text \<open>The registry is that of Docker Hub; a daemon that accepts nothing but these credentials.\<close>

definition keyring_sdk :: "unit sdk" where
  "keyring_sdk = demo_sdk\<lparr>sk_engine := demo_engine\<lparr>en_ImagePull := (\<lambda>_ _ po s.
     (if ip_RegistryAuth po = ''me:pa:ss'' then Ok ('''', None) else Err refused, s))\<rparr>\<rparr>"

theorem pull_sends_stored_credentials_witness:
  "Pull keyring_env Background ''alpine'' [WithPullClient (Some keyring_sdk)] (0, ()) = (Ok (), (0, ()))
   \<and> (\<exists>t r t'. en_ImagePull (sk_engine keyring_sdk) Background ''alpine''
        \<lparr>ip_RegistryAuth = ''me:pa:ss'', ip_Platforms = []\<rparr> t = (Ok r, t' :: unit clocked))"
proof -
  let ?ref = "\<lparr>ir_Registry = ''docker.io'', ir_Repository = ''alpine'', ir_Tag = '''', ir_Digest = ''''\<rparr>"
  let ?cfg = "keyring\<lparr>cfg_filepath := Some [''root'', ''.docker'', FileName]\<rparr>"
  let ?o1 = "(initial_pull_options keyring_env)\<lparr>pu_client := Some keyring_sdk\<rparr>"
  let ?entry = "empty_auth\<lparr>ac_Auth := b64_encode (''me'' @ '':'' @ ''pa:ss'')\<rparr>"
  have load: "Load (se_platform (ie_sdk keyring_env)) (se_disk (ie_sdk keyring_env)) = Ok ?cfg"
    by (simp add: keyring_env_def demo_image_env_def demo_sdk_env_def demo_platform_def Load_def getenv_def Filepath_def
        Dir_def EnvOverrideDir_def getHomeDir_def Let_def path_of_def demo_disk_def file_exists_def loadFromFilepath_def
        read_file_def FileName_def configFileDir_def)
  have ref: "ParseImageRef (pf_parse_ref (se_platform (ie_sdk keyring_env))) ''alpine'' = Ok ?ref"
    by (simp add: ParseImageRef_def keyring_env_def demo_image_env_def demo_sdk_env_def demo_platform_def empty_ref_def)
  have hub: "ResolveRegistryHost ''docker.io'' = IndexDockerIO" by (simp add: ResolveRegistryHost_def hub_aliases_def)
  have plain: "plainly_stored ?cfg (ir_Registry ?ref) ?entry"
    by (simp add: plainly_stored_def hub keyring_def zero_config_def)
  have login: "stored_login ?entry ''me'' ''pa:ss''" by (simp add: stored_login_def empty_auth_def)
  have walk: "ranges (ie_range keyring_env)" by (simp add: ranges_def keyring_env_def)
  have law: "retries (ie_retry keyring_env)" by (simp add: keyring_env_def demo_image_env_def retries_patient)
  have opts: "apply_with ''apply pull option'' [WithPullClient (Some keyring_sdk)] (initial_pull_options keyring_env) = Ok ?o1"
    by (simp add: WithPullClient_def)
  have enc: "ie_encode keyring_env ((if ''me'' = tokenUsername then empty_auth\<lparr>ac_IdentityToken := ''pa:ss''\<rparr>
      else empty_auth\<lparr>ac_Username := ''me'', ac_Password := ''pa:ss''\<rparr>)\<lparr>ac_ServerAddress := ir_Registry ?ref\<rparr>) = Ok ''me:pa:ss''"
    by (simp add: keyring_env_def demo_image_env_def tokenUsername_def)
  have pull: "Pull keyring_env Background ''alpine'' [WithPullClient (Some keyring_sdk)] (0, ()) = (Ok (), (0, ()))"
    using credentials_from_config_login [OF load ref plain stored_login_resolved [OF login] walk, of "(0, ())"]
    by (simp add: Pull_def WithPullClient_def ref)
      (simp add: keyring_env_def demo_image_env_def patient_def retry_n_def retry_from.simps [of 10] pull_once_def keyring_sdk_def demo_sdk_def demo_engine_def
        DisplayProgress_def pull_auth_config_def empty_auth_def)
  from pull_sends_stored_credentials [OF load ref _ plain login walk law opts _ _ enc pull] pull show ?thesis
    by (simp add: tokenUsername_def initial_pull_options_def) blast
qed

end
