(* ===== verification/Config_Concurrency.thy ===== *)
theory Config_Concurrency
  imports Docker_Config
begin

text \<open>
  The cache of package \<open>config\<close> when goroutines share one \<open>Config\<close>: the steps of \<open>AuthConfigForHostname\<close>,
  \<open>clearAuthCache\<close> and \<open>cacheStats\<close> between which others may run, with the atomic pointer to the cache, the
  mutex under which it is made and the read-write mutex of its entries. What a goroutine does next is a
  function of where it is and of what is shared; it is \<open>None\<close> when the goroutine is blocked or has ended.
  Any goroutine that is not blocked may be the next one to run.
\<close>

section \<open>Goroutines\<close>

datatype request = Lookup string | Clear | Stats

datatype answer = Credentials "auth_config outcome" | Cleared | Statistics cache_stats | Nil_cache

datatype pc =
    Check request | Lock_init request | Check_again request | Make request | Unlock_init request | Load request
  | RLock string nat | Read string nat | RUnlock string nat "auth_config option" | Resolve string nat
  | WLock string nat auth_config | Write string nat auth_config | WUnlock nat auth_config
  | Clear_lock nat | Clear_write nat | Clear_unlock nat
  | Stats_lock nat | Stats_read nat | Stats_unlock nat cache_stats
  | Done answer

text \<open>
  What is shared: the pointer \<open>cache\<close> of the configuration, the caches that were made (a pointer is an
  index), who holds \<open>cacheInitMutex\<close>, who holds the mutex of every cache, and the world of the helpers.
\<close>

record 'w shared =
  sh_cache :: "nat option"
  sh_caches :: "auth_cache list"
  sh_init :: "nat option"
  sh_writer :: "nat \<Rightarrow> nat option"
  sh_readers :: "nat \<Rightarrow> nat set"
  sh_world :: 'w

definition lock_read :: "nat \<Rightarrow> nat \<Rightarrow> 'w shared \<Rightarrow> 'w shared option" where
  "lock_read t i s = (if sh_writer s i \<noteq> None then None
     else Some (s\<lparr>sh_readers := (sh_readers s)(i := insert t (sh_readers s i))\<rparr>))"

definition unlock_read :: "nat \<Rightarrow> nat \<Rightarrow> 'w shared \<Rightarrow> 'w shared" where
  "unlock_read t i s = s\<lparr>sh_readers := (sh_readers s)(i := sh_readers s i - {t})\<rparr>"

definition lock_write :: "nat \<Rightarrow> nat \<Rightarrow> 'w shared \<Rightarrow> 'w shared option" where
  "lock_write t i s = (if sh_writer s i \<noteq> None \<or> sh_readers s i \<noteq> {} then None
     else Some (s\<lparr>sh_writer := (sh_writer s)(i := Some t)\<rparr>))"

definition unlock_write :: "nat \<Rightarrow> 'w shared \<Rightarrow> 'w shared" where
  "unlock_write i s = s\<lparr>sh_writer := (sh_writer s)(i := None)\<rparr>"

definition set_entries :: "nat \<Rightarrow> auth_config smap \<Rightarrow> 'w shared \<Rightarrow> 'w shared" where
  "set_entries i m s = s\<lparr>sh_caches := (sh_caches s)[i := (sh_caches s ! i)\<lparr>ca_entries := m\<rparr>]\<rparr>"

text \<open>
  One step of goroutine \<open>t\<close>. The first six places are \<open>initCache\<close> and the load in \<open>getCache\<close>, where a nil
  pointer would be a panic; then the request goes on with the cache it got.
\<close>

fun go_step :: "'w platform \<Rightarrow> config \<Rightarrow> nat \<Rightarrow> pc \<Rightarrow> 'w shared \<Rightarrow> (pc \<times> 'w shared) option" where
  "go_step pf c t (Check q) s = Some (if sh_cache s \<noteq> None then Load q else Lock_init q, s)"
| "go_step pf c t (Lock_init q) s =
     (if sh_init s \<noteq> None then None else Some (Check_again q, s\<lparr>sh_init := Some t\<rparr>))"
| "go_step pf c t (Check_again q) s = Some (if sh_cache s \<noteq> None then Unlock_init q else Make q, s)"
| "go_step pf c t (Make q) s =
     Some (Unlock_init q, s\<lparr>sh_cache := Some (length (sh_caches s)),
       sh_caches := sh_caches s @ [\<lparr>ca_entries = Map.empty, ca_key = generateCacheKey pf c\<rparr>]\<rparr>)"
| "go_step pf c t (Unlock_init q) s = Some (Load q, s\<lparr>sh_init := None\<rparr>)"
| "go_step pf c t (Load q) s =
     Some (case sh_cache s of
             None \<Rightarrow> Done Nil_cache
           | Some i \<Rightarrow> (case q of Lookup h \<Rightarrow> RLock h i | Clear \<Rightarrow> Clear_lock i | Stats \<Rightarrow> Stats_lock i), s)"
| "go_step pf c t (RLock h i) s = map_option (Pair (Read h i)) (lock_read t i s)"
| "go_step pf c t (Read h i) s = Some (RUnlock h i (ca_entries (sh_caches s ! i) h), s)"
| "go_step pf c t (RUnlock h i found) s =
     Some (case found of Some a \<Rightarrow> Done (Credentials (Ok a)) | None \<Rightarrow> Resolve h i, unlock_read t i s)"
| "go_step pf c t (Resolve h i) s =
     (case resolveAuthConfigForHostname pf c h (sh_world s) of
        (r, w) \<Rightarrow> Some (case r of Ok a \<Rightarrow> WLock h i a | _ \<Rightarrow> Done (Credentials r), s\<lparr>sh_world := w\<rparr>))"
| "go_step pf c t (WLock h i a) s = map_option (Pair (Write h i a)) (lock_write t i s)"
| "go_step pf c t (Write h i a) s =
     Some (WUnlock i a, set_entries i ((ca_entries (sh_caches s ! i))(h \<mapsto> a)) s)"
| "go_step pf c t (WUnlock i a) s = Some (Done (Credentials (Ok a)), unlock_write i s)"
| "go_step pf c t (Clear_lock i) s = map_option (Pair (Clear_write i)) (lock_write t i s)"
| "go_step pf c t (Clear_write i) s = Some (Clear_unlock i, set_entries i Map.empty s)"
| "go_step pf c t (Clear_unlock i) s = Some (Done Cleared, unlock_write i s)"
| "go_step pf c t (Stats_lock i) s = map_option (Pair (Stats_read i)) (lock_read t i s)"
| "go_step pf c t (Stats_read i) s =
     Some (Stats_unlock i \<lparr>cs_Size = card (dom (ca_entries (sh_caches s ! i))), cs_CacheKey = ca_key (sh_caches s ! i)\<rparr>, s)"
| "go_step pf c t (Stats_unlock i st) s = Some (Done (Statistics st), unlock_read t i s)"
| "go_step pf c t (Done a) s = None"

text \<open>A machine is the places of all goroutines and what they share; \<open>ran k\<close> are the runs of \<open>k\<close> steps.\<close>

type_synonym 'w machine = "pc list \<times> 'w shared"

inductive step :: "'w platform \<Rightarrow> config \<Rightarrow> 'w machine \<Rightarrow> 'w machine \<Rightarrow> bool" for pf c where
  steps: "t < length pcs \<Longrightarrow> go_step pf c t (pcs ! t) s = Some (pc', s')
    \<Longrightarrow> step pf c (pcs, s) (pcs[t := pc'], s')"

inductive ran :: "'w platform \<Rightarrow> config \<Rightarrow> 'w machine \<Rightarrow> nat \<Rightarrow> 'w machine \<Rightarrow> bool" for pf c m where
  ran_0: "ran pf c m 0 m"
| ran_Suc: "ran pf c m k n \<Longrightarrow> step pf c n n' \<Longrightarrow> ran pf c m (Suc k) n'"

inductive_cases stepE: "step pf c (pcs, s) m"

definition fresh :: "'w \<Rightarrow> 'w shared" where
  "fresh w = \<lparr>sh_cache = None, sh_caches = [], sh_init = None, sh_writer = (\<lambda>_. None), sh_readers = (\<lambda>_. {}), sh_world = w\<rparr>"

definition started :: "request list \<Rightarrow> 'w \<Rightarrow> 'w machine" where
  "started reqs w = (map Check reqs, fresh w)"


section \<open>The invariant\<close>

text \<open>What a goroutine may be carrying when it serves request \<open>q\<close>, \<open>ok\<close> being what was resolved for a host.\<close>

fun serves :: "(string \<Rightarrow> auth_config \<Rightarrow> bool) \<Rightarrow> request \<Rightarrow> pc \<Rightarrow> bool" where
  "serves ok r (Check q) = (q = r)"
| "serves ok r (Lock_init q) = (q = r)"
| "serves ok r (Check_again q) = (q = r)"
| "serves ok r (Make q) = (q = r)"
| "serves ok r (Unlock_init q) = (q = r)"
| "serves ok r (Load q) = (q = r)"
| "serves ok r (RLock h i) = (r = Lookup h)"
| "serves ok r (Read h i) = (r = Lookup h)"
| "serves ok r (RUnlock h i found) = (r = Lookup h \<and> (\<forall>a. found = Some a \<longrightarrow> ok h a))"
| "serves ok r (Resolve h i) = (r = Lookup h)"
| "serves ok r (WLock h i a) = (r = Lookup h \<and> ok h a)"
| "serves ok r (Write h i a) = (r = Lookup h \<and> ok h a)"
| "serves ok r (WUnlock i a) = (\<exists>h. r = Lookup h \<and> ok h a)"
| "serves ok r (Clear_lock i) = (r = Clear)"
| "serves ok r (Clear_write i) = (r = Clear)"
| "serves ok r (Clear_unlock i) = (r = Clear)"
| "serves ok r (Stats_lock i) = (r = Stats)"
| "serves ok r (Stats_read i) = (r = Stats)"
| "serves ok r (Stats_unlock i st) = (r = Stats)"
| "serves ok r (Done a) =
     (case a of
        Credentials res \<Rightarrow> (\<exists>h. r = Lookup h \<and> (\<forall>x. res = Ok x \<longrightarrow> ok h x))
      | Cleared \<Rightarrow> r = Clear
      | Statistics st \<Rightarrow> r = Stats
      | Nil_cache \<Rightarrow> False)"

text \<open>Which locks a goroutine holds, and which cache it has got.\<close>

fun holds_init :: "pc \<Rightarrow> bool" where
  "holds_init (Check_again q) = True"
| "holds_init (Make q) = True"
| "holds_init (Unlock_init q) = True"
| "holds_init _ = False"

fun reading_from :: "pc \<Rightarrow> nat option" where
  "reading_from (Read h i) = Some i"
| "reading_from (RUnlock h i found) = Some i"
| "reading_from (Stats_read i) = Some i"
| "reading_from (Stats_unlock i st) = Some i"
| "reading_from _ = None"

fun writing_to :: "pc \<Rightarrow> nat option" where
  "writing_to (Write h i a) = Some i"
| "writing_to (WUnlock i a) = Some i"
| "writing_to (Clear_write i) = Some i"
| "writing_to (Clear_unlock i) = Some i"
| "writing_to _ = None"

fun got :: "pc \<Rightarrow> nat option" where
  "got (RLock h i) = Some i"
| "got (Read h i) = Some i"
| "got (RUnlock h i found) = Some i"
| "got (Resolve h i) = Some i"
| "got (WLock h i a) = Some i"
| "got (Write h i a) = Some i"
| "got (WUnlock i a) = Some i"
| "got (Clear_lock i) = Some i"
| "got (Clear_write i) = Some i"
| "got (Clear_unlock i) = Some i"
| "got (Stats_lock i) = Some i"
| "got (Stats_read i) = Some i"
| "got (Stats_unlock i st) = Some i"
| "got _ = None"

fun past_init :: "pc \<Rightarrow> bool" where
  "past_init (Unlock_init q) = True"
| "past_init (Load q) = True"
| "past_init _ = False"

fun making :: "pc \<Rightarrow> bool" where
  "making (Make q) = True"
| "making _ = False"


definition resolves_to :: "'w platform \<Rightarrow> config \<Rightarrow> string \<Rightarrow> auth_config \<Rightarrow> bool" where
  "resolves_to pf c h a \<longleftrightarrow> (\<exists>w w'. resolveAuthConfigForHostname pf c h w = (Ok a, w'))"

lemma resolves_toI: "resolveAuthConfigForHostname pf c h w = (Ok a, w') \<Longrightarrow> resolves_to pf c h a"
  by (auto simp: resolves_to_def)

text \<open>The locks are held by the goroutines that are at such places, and a writer is alone.\<close>

definition locked :: "'w machine \<Rightarrow> bool" where
  "locked m \<longleftrightarrow> (case m of (pcs, s) \<Rightarrow>
     (\<forall>t. sh_init s = Some t \<longleftrightarrow> t < length pcs \<and> holds_init (pcs ! t))
     \<and> (\<forall>i t. sh_writer s i = Some t \<longleftrightarrow> t < length pcs \<and> writing_to (pcs ! t) = Some i)
     \<and> (\<forall>i t. t \<in> sh_readers s i \<longleftrightarrow> t < length pcs \<and> reading_from (pcs ! t) = Some i)
     \<and> (\<forall>i. sh_writer s i \<noteq> None \<longrightarrow> sh_readers s i = {}))"

text \<open>At most one cache is ever made, and it is the one that everybody got.\<close>

definition single :: "'w machine \<Rightarrow> bool" where
  "single m \<longleftrightarrow> (case m of (pcs, s) \<Rightarrow>
     (sh_cache s = None \<and> sh_caches s = [] \<or> sh_cache s = Some 0 \<and> length (sh_caches s) = 1)
     \<and> (\<forall>t < length pcs. (got (pcs ! t) = None \<or> got (pcs ! t) = Some 0 \<and> sh_cache s \<noteq> None)
          \<and> (past_init (pcs ! t) \<longrightarrow> sh_cache s \<noteq> None)
          \<and> (making (pcs ! t) \<longrightarrow> sh_cache s = None)))"

definition answering :: "(string \<Rightarrow> auth_config \<Rightarrow> bool) \<Rightarrow> request list \<Rightarrow> 'w machine \<Rightarrow> bool" where
  "answering ok reqs m \<longleftrightarrow> (case m of (pcs, s) \<Rightarrow>
     length pcs = length reqs
     \<and> (\<forall>t < length pcs. serves ok (reqs ! t) (pcs ! t))
     \<and> (\<forall>cache \<in> set (sh_caches s). \<forall>h a. ca_entries cache h = Some a \<longrightarrow> ok h a))"

lemmas lock_defs = lock_read_def unlock_read_def lock_write_def unlock_write_def set_entries_def

text \<open>What a step does to the locks, told by where the goroutine was and where it is now.\<close>

lemma go_init:
  assumes "go_step pf c t pc s = Some (pc', s')"
  shows "sh_init s' = (if holds_init pc' then if holds_init pc then sh_init s else Some t
                       else if holds_init pc then None else sh_init s)
     \<and> (holds_init pc' \<and> \<not> holds_init pc \<longrightarrow> sh_init s = None)"
  using assms by (cases pc) (auto simp: lock_defs split: if_splits option.splits prod.splits request.splits outcome.splits)

lemma go_writer:
  assumes "go_step pf c t pc s = Some (pc', s')" and "sh_cache s = None \<or> sh_cache s = Some 0"
  shows "sh_writer s' i = (if writing_to pc' = Some i then if writing_to pc = Some i then sh_writer s i else Some t
                           else if writing_to pc = Some i then None else sh_writer s i)
     \<and> (writing_to pc' = Some i \<and> writing_to pc \<noteq> Some i \<longrightarrow> sh_writer s i = None \<and> sh_readers s i = {})"
  using assms by (cases pc) (auto simp: lock_defs split: if_splits option.splits prod.splits request.splits outcome.splits)

lemma go_readers:
  assumes "go_step pf c t pc s = Some (pc', s')"
  shows "sh_readers s' i = (if reading_from pc' = Some i then if reading_from pc = Some i then sh_readers s i else insert t (sh_readers s i)
                            else if reading_from pc = Some i then sh_readers s i - {t} else sh_readers s i)
     \<and> (reading_from pc' = Some i \<and> reading_from pc \<noteq> Some i \<longrightarrow> sh_writer s i = None)"
  using assms by (cases pc) (auto simp: lock_defs split: if_splits option.splits prod.splits request.splits outcome.splits)

text \<open>An owner, and a set of owners, that follow the places.\<close>

lemma owner_follows:
  assumes "\<forall>u. own = Some u \<longleftrightarrow> u < length pcs \<and> P (pcs ! u)" and "t < length pcs"
    and "own' = (if P pc' then if P (pcs ! t) then own else Some t else if P (pcs ! t) then None else own)"
    and "P pc' \<and> \<not> P (pcs ! t) \<longrightarrow> own = None"
  shows "\<forall>u. own' = Some u \<longleftrightarrow> u < length (pcs[t := pc']) \<and> P (pcs[t := pc'] ! u)"
proof
  fix u
  show "own' = Some u \<longleftrightarrow> u < length (pcs[t := pc']) \<and> P (pcs[t := pc'] ! u)"
    using assms(1) [rule_format, of u] assms(1) [rule_format, of t] assms(2-)
    by (cases "u = t"; cases "P pc'"; cases "P (pcs ! t)"; cases own) simp_all
qed

lemma owners_follow:
  assumes "\<forall>u. u \<in> own \<longleftrightarrow> u < length pcs \<and> P (pcs ! u)" and "t < length pcs"
    and "own' = (if P pc' then if P (pcs ! t) then own else insert t own else if P (pcs ! t) then own - {t} else own)"
  shows "\<forall>u. u \<in> own' \<longleftrightarrow> u < length (pcs[t := pc']) \<and> P (pcs[t := pc'] ! u)"
proof
  fix u
  show "u \<in> own' \<longleftrightarrow> u < length (pcs[t := pc']) \<and> P (pcs[t := pc'] ! u)"
    using assms(1) [rule_format, of u] assms(2,3) by (cases "u = t"; cases "P pc'"; cases "P (pcs ! t)") simp_all
qed

definition settled :: "pc \<Rightarrow> 'w shared \<Rightarrow> bool" where
  "settled pc s \<longleftrightarrow> (got pc = None \<or> got pc = Some 0 \<and> sh_cache s \<noteq> None)
     \<and> (past_init pc \<longrightarrow> sh_cache s \<noteq> None) \<and> (making pc \<longrightarrow> sh_cache s = None)"

definition one_cache :: "'w shared \<Rightarrow> bool" where
  "one_cache s \<longleftrightarrow> sh_cache s = None \<and> sh_caches s = [] \<or> sh_cache s = Some 0 \<and> length (sh_caches s) = 1"

lemma single_iff: "single (pcs, s) \<longleftrightarrow> one_cache s \<and> (\<forall>t < length pcs. settled (pcs ! t) s)"
  by (auto simp: single_def settled_def one_cache_def)

lemma go_cache:
  assumes "go_step pf c t pc s = Some (pc', s')" and "one_cache s" and "settled pc s"
  shows "one_cache s' \<and> settled pc' s' \<and> (sh_cache s \<noteq> None \<longrightarrow> sh_cache s' = sh_cache s)
     \<and> (sh_cache s' \<noteq> sh_cache s \<longrightarrow> making pc)"
  using assms by (cases pc) (auto simp: settled_def one_cache_def lock_defs split: if_splits option.splits prod.splits request.splits outcome.splits)

lemma making_holds_init: "making pc \<Longrightarrow> holds_init pc"
  by (cases pc) auto

lemma not_both: "reading_from pc = Some i \<Longrightarrow> writing_to pc \<noteq> Some i"
  by (cases pc) auto

lemma locked_init: "locked (pcs, s) \<Longrightarrow> sh_init s = Some t \<longleftrightarrow> t < length pcs \<and> holds_init (pcs ! t)"
  by (simp add: locked_def)

lemma single_step:
  assumes "step pf c m m'" and "locked m" and "single m"
  shows "single m'"
  using assms(1)
proof (cases rule: step.cases)
  case (steps t pcs s p s')
  from assms(3) have one: "one_cache s" and each: "\<And>u. u < length pcs \<Longrightarrow> settled (pcs ! u) s"
    by (auto simp: steps(1) single_iff)
  note new = go_cache [OF steps(4) one each [OF steps(3)]]
  have "settled (pcs ! u) s'" if u: "u < length pcs" "u \<noteq> t" for u
  proof (cases "sh_cache s' = sh_cache s")
    case True
    with each [OF u(1)] show ?thesis by (simp add: settled_def)
  next
    case False
    with new have t: "making (pcs ! t)" and s: "sh_cache s = None" "sh_cache s' \<noteq> None" by auto
    have "\<not> making (pcs ! u)"
      using locked_init [of pcs s t] locked_init [of pcs s u] assms(2) steps(1,3) t u making_holds_init by fastforce
    with each [OF u(1)] s show ?thesis by (auto simp: settled_def)
  qed
  with new steps(3) show ?thesis by (auto simp: steps(2) single_iff nth_list_update)
qed

lemma locked_step:
  assumes "step pf c m m'" and "locked m" and "single m"
  shows "locked m'"
  using assms(1)
proof (cases rule: step.cases)
  case (steps t pcs s p s')
  have cache: "sh_cache s = None \<or> sh_cache s = Some 0" using assms(3) by (auto simp: steps(1) single_iff one_cache_def)
  from assms(2) have l: "\<forall>u. sh_init s = Some u \<longleftrightarrow> u < length pcs \<and> holds_init (pcs ! u)"
    "\<And>i. \<forall>u. sh_writer s i = Some u \<longleftrightarrow> u < length pcs \<and> writing_to (pcs ! u) = Some i"
    "\<And>i. \<forall>u. u \<in> sh_readers s i \<longleftrightarrow> u < length pcs \<and> reading_from (pcs ! u) = Some i"
    "\<And>i. sh_writer s i \<noteq> None \<Longrightarrow> sh_readers s i = {}"
    by (simp_all add: locked_def steps(1))
  note go = steps(4) and lt = steps(3)
  have a: "\<forall>u. sh_init s' = Some u \<longleftrightarrow> u < length (pcs[t := p]) \<and> holds_init (pcs[t := p] ! u)"
    using go_init [OF go] by (intro owner_follows [OF l(1) lt]) auto
  have b: "\<forall>u. sh_writer s' i = Some u \<longleftrightarrow> u < length (pcs[t := p]) \<and> writing_to (pcs[t := p] ! u) = Some i" for i
    using go_writer [OF go cache, of i] by (intro owner_follows [where P = "\<lambda>q. writing_to q = Some i", OF l(2) lt]) auto
  have d: "\<forall>u. u \<in> sh_readers s' i \<longleftrightarrow> u < length (pcs[t := p]) \<and> reading_from (pcs[t := p] ! u) = Some i" for i
    using go_readers [OF go, of i] by (intro owners_follow [where P = "\<lambda>q. reading_from q = Some i", OF l(3) lt]) auto
  have "sh_readers s' i = {}" if "sh_writer s' i \<noteq> None" for i
    using that go_writer [OF go cache, of i] go_readers [OF go, of i] l(4) [of i] l(2) [of i] l(3) [of i] lt
      not_both [of p]
    by (auto split: if_splits)
  with a b d show ?thesis by (simp add: locked_def steps(2))
qed

lemma go_serves:
  assumes "go_step pf c t pc s = Some (pc', s')" and "one_cache s" and "settled pc s" and "serves (resolves_to pf c) q pc"
    and "\<forall>cache \<in> set (sh_caches s). \<forall>h a. ca_entries cache h = Some a \<longrightarrow> resolves_to pf c h a"
  shows "serves (resolves_to pf c) q pc'
     \<and> (\<forall>cache \<in> set (sh_caches s'). \<forall>h a. ca_entries cache h = Some a \<longrightarrow> resolves_to pf c h a)"
  using assms(1)
proof (cases pc)
  case (Read h i)
  with assms have "i = 0" "sh_caches s \<noteq> []" by (auto simp: settled_def one_cache_def)
  then obtain x xs where "sh_caches s = x # xs" by (cases "sh_caches s") auto
  with Read assms \<open>i = 0\<close> show ?thesis by auto
next
  case (Write h i a)
  with assms have "i = 0" "sh_caches s \<noteq> []" by (auto simp: settled_def one_cache_def)
  then obtain x xs where "sh_caches s = x # xs" by (cases "sh_caches s") auto
  with Write assms \<open>i = 0\<close> show ?thesis by (auto simp: set_entries_def split: if_splits)
next
  case (Clear_write i)
  with assms have "i = 0" "sh_caches s \<noteq> []" by (auto simp: settled_def one_cache_def)
  then obtain x xs where "sh_caches s = x # xs" by (cases "sh_caches s") auto
  with Clear_write assms \<open>i = 0\<close> show ?thesis by (auto simp: set_entries_def split: if_splits)
next
  case (Resolve h i)
  with assms show ?thesis by (auto intro: resolves_toI split: prod.splits outcome.splits)
next
  case (Load r)
  with assms show ?thesis by (auto simp: settled_def split: request.splits)
qed (use assms in \<open>auto simp: lock_defs split: if_splits option.splits\<close>)

lemma answering_step:
  assumes "step pf c m m'" and "single m" and "answering (resolves_to pf c) reqs m"
  shows "answering (resolves_to pf c) reqs m'"
  using assms(1)
proof (cases rule: step.cases)
  case (steps t pcs s p s')
  from assms(2) have one: "one_cache s" "settled (pcs ! t) s"
    using steps(3) by (auto simp: steps(1) single_iff)
  from assms(3) have now: "length pcs = length reqs" "\<And>u. u < length pcs \<Longrightarrow> serves (resolves_to pf c) (reqs ! u) (pcs ! u)"
    and entries: "\<forall>cache \<in> set (sh_caches s). \<forall>h a. ca_entries cache h = Some a \<longrightarrow> resolves_to pf c h a"
    by (auto simp: answering_def steps(1))
  from go_serves [OF steps(4) one now(2) [OF steps(3)] entries] now steps(3)
  show ?thesis by (simp add: answering_def steps(2) nth_list_update)
qed

lemma ran_invariant:
  assumes "ran pf c (started reqs w) k m"
  shows "locked m \<and> single m \<and> answering (resolves_to pf c) reqs m"
  using assms
proof induction
  case ran_0
  show ?case by (simp add: started_def fresh_def locked_def single_def answering_def)
next
  case (ran_Suc k n n')
  then show ?case using locked_step single_step answering_step by blast
qed


section \<open>Progress\<close>

text \<open>How many steps a goroutine has before it at most.\<close>

fun steps_left :: "pc \<Rightarrow> nat" where
  "steps_left (Check q) = 13"
| "steps_left (Lock_init q) = 12"
| "steps_left (Check_again q) = 11"
| "steps_left (Make q) = 10"
| "steps_left (Unlock_init q) = 9"
| "steps_left (Load q) = 8"
| "steps_left (RLock h i) = 7"
| "steps_left (Read h i) = 6"
| "steps_left (RUnlock h i found) = 5"
| "steps_left (Resolve h i) = 4"
| "steps_left (WLock h i a) = 3"
| "steps_left (Write h i a) = 2"
| "steps_left (WUnlock i a) = 1"
| "steps_left (Clear_lock i) = 3"
| "steps_left (Clear_write i) = 2"
| "steps_left (Clear_unlock i) = 1"
| "steps_left (Stats_lock i) = 3"
| "steps_left (Stats_read i) = 2"
| "steps_left (Stats_unlock i st) = 1"
| "steps_left (Done a) = 0"

lemma go_decreases: "go_step pf c t pc s = Some (pc', s') \<Longrightarrow> steps_left pc' < steps_left pc"
  by (cases pc) (auto simp: lock_defs split: if_splits option.splits prod.splits request.splits outcome.splits)

lemma sum_list_update_less:
  "t < length xs \<Longrightarrow> f y < f (xs ! t) \<Longrightarrow> sum_list (map f (xs[t := y])) < (sum_list (map f xs) :: nat)"
  by (induction xs arbitrary: t) (auto split: nat.splits)

lemma step_decreases: "step pf c m m' \<Longrightarrow> sum_list (map steps_left (fst m')) < sum_list (map steps_left (fst m))"
  by (cases rule: step.cases) (auto intro!: sum_list_update_less dest: go_decreases)

lemma ran_bounded: "ran pf c m k n \<Longrightarrow> k + sum_list (map steps_left (fst n)) \<le> sum_list (map steps_left (fst m))"
proof (induction rule: ran.induct)
  case (ran_Suc k n n')
  with step_decreases [of pf c n n'] show ?case by linarith
qed simp

lemma goes_on: "holds_init pc \<or> reading_from pc \<noteq> None \<or> writing_to pc \<noteq> None \<Longrightarrow> \<exists>r. go_step pf c t pc s = Some r"
  by (cases pc) auto

lemma goes_on_unlocked:
  "(\<forall>a. pc \<noteq> Done a) \<Longrightarrow> sh_init s = None \<Longrightarrow> sh_writer s 0 = None \<Longrightarrow> sh_readers s 0 = {} \<Longrightarrow> got pc = None \<or> got pc = Some 0
     \<Longrightarrow> \<exists>r. go_step pf c t pc s = Some r"
  by (cases pc) (auto simp: lock_defs split: prod.splits)

lemma never_stuck:
  assumes "locked (pcs, s)" and "single (pcs, s)" and "t < length pcs" and "\<forall>a. pcs ! t \<noteq> Done a"
  shows "\<exists>m. step pf c (pcs, s) m"
proof -
  have ok: "\<exists>m. step pf c (pcs, s) m" if "u < length pcs" "\<exists>r. go_step pf c u (pcs ! u) s = Some r" for u
    using that steps [of u pcs pf c s] by fastforce
  show ?thesis
  proof (cases "sh_init s = None \<and> sh_writer s 0 = None \<and> sh_readers s 0 = {}")
    case True
    with assms show ?thesis by (intro ok [OF assms(3)] goes_on_unlocked) (auto simp: single_iff settled_def)
  next
    case False
    then obtain u where "sh_init s = Some u \<or> sh_writer s 0 = Some u \<or> u \<in> sh_readers s 0" by auto
    with assms(1) have "u < length pcs \<and> (holds_init (pcs ! u) \<or> reading_from (pcs ! u) \<noteq> None \<or> writing_to (pcs ! u) \<noteq> None)"
      by (auto simp: locked_def)
    then show ?thesis by (blast intro: ok goes_on)
  qed
qed

section \<open>Properties\<close>

text \<open>The answer that a request is to get: credentials are ones that the configuration resolved for that host.\<close>

definition proper_answer :: "'w platform \<Rightarrow> config \<Rightarrow> request \<Rightarrow> answer \<Rightarrow> bool" where
  "proper_answer pf c q a \<longleftrightarrow>
     (case q of
        Lookup h \<Rightarrow> \<exists>r. a = Credentials r \<and> (\<forall>x. r = Ok x \<longrightarrow> resolves_to pf c h x)
      | Clear \<Rightarrow> a = Cleared
      | Stats \<Rightarrow> \<exists>st. a = Statistics st)"

lemma serves_Done: "serves (resolves_to pf c) q (Done a) \<Longrightarrow> proper_answer pf c q a"
  by (auto simp: proper_answer_def split: answer.splits request.splits)

text \<open>
  C8: goroutines that share a configuration do not disturb each other: in every state of every run, the
  requests that were answered got what the configuration resolves for their host, never that of another
  one and never a nil cache; no more than one cache was made; its entries are what was resolved; and
  while a goroutine writes the entries, no other one reads or writes them.
\<close>

theorem concurrent_requests_safe:
  assumes "ran pf c (started reqs w) k (pcs, s)"
  shows "length pcs = length reqs
     \<and> (\<forall>t < length reqs. \<forall>a. pcs ! t = Done a \<longrightarrow> proper_answer pf c (reqs ! t) a)
     \<and> length (sh_caches s) \<le> 1
     \<and> (\<forall>cache \<in> set (sh_caches s). \<forall>h a. ca_entries cache h = Some a \<longrightarrow> resolves_to pf c h a)
     \<and> (\<forall>t < length reqs. \<forall>u < length reqs. \<forall>i. writing_to (pcs ! t) = Some i \<and> u \<noteq> t
          \<longrightarrow> writing_to (pcs ! u) \<noteq> Some i \<and> reading_from (pcs ! u) \<noteq> Some i)"
proof -
  note inv = ran_invariant [OF assms]
  from inv have n: "length pcs = length reqs" by (simp add: answering_def)
  have answers: "proper_answer pf c (reqs ! t) a" if "t < length reqs" "pcs ! t = Done a" for t a
  proof (rule serves_Done)
    from inv n have "\<forall>t < length reqs. serves (resolves_to pf c) (reqs ! t) (pcs ! t)"
      by (simp add: answering_def del: serves.simps)
    from this [rule_format, OF that(1)] show "serves (resolves_to pf c) (reqs ! t) (Done a)" unfolding that(2) .
  qed
  have one: "length (sh_caches s) \<le> 1" using inv by (auto simp: single_def)
  have entries: "\<forall>cache \<in> set (sh_caches s). \<forall>h a. ca_entries cache h = Some a \<longrightarrow> resolves_to pf c h a"
    using inv by (simp add: answering_def)
  have excluded: "writing_to (pcs ! u) \<noteq> Some i \<and> reading_from (pcs ! u) \<noteq> Some i"
    if "t < length reqs" "u < length reqs" "writing_to (pcs ! t) = Some i" "u \<noteq> t" for t u i
  proof -
    from inv have l: "\<And>v. sh_writer s i = Some v \<longleftrightarrow> v < length pcs \<and> writing_to (pcs ! v) = Some i"
      "\<And>v. v \<in> sh_readers s i \<longleftrightarrow> v < length pcs \<and> reading_from (pcs ! v) = Some i"
      "sh_writer s i \<noteq> None \<Longrightarrow> sh_readers s i = {}" by (simp_all add: locked_def)
    from l(1) [of t] that n have t: "sh_writer s i = Some t" by simp
    with l(1) [of u] l(2) [of u] l(3) that n show ?thesis by auto
  qed
  from n one entries show ?thesis by (intro conjI allI impI) (use answers excluded in blast)+
qed

text \<open>A schedule names the goroutine that takes the next step.\<close>

fun scheduled :: "'w platform \<Rightarrow> config \<Rightarrow> nat list \<Rightarrow> 'w machine \<Rightarrow> 'w machine option" where
  "scheduled pf c [] m = Some m"
| "scheduled pf c (t # ts) m =
     (if t < length (fst m) then
        (case go_step pf c t (fst m ! t) (snd m) of
           None \<Rightarrow> None
         | Some (p, s) \<Rightarrow> scheduled pf c ts ((fst m)[t := p], s))
      else None)"

lemma ran_first: "ran pf c m' k n \<Longrightarrow> step pf c m m' \<Longrightarrow> ran pf c m (Suc k) n"
  by (induction rule: ran.induct) (auto intro: ran.intros)

lemma scheduled_ran: "scheduled pf c ts m = Some n \<Longrightarrow> ran pf c m (length ts) n"
proof (induction ts arbitrary: m)
  case (Cons t ts)
  then obtain p s where "t < length (fst m)" "go_step pf c t (fst m ! t) (snd m) = Some (p, s)"
    "scheduled pf c ts ((fst m)[t := p], s) = Some n"
    by (auto split: if_splits option.splits)
  with Cons.IH [of "((fst m)[t := p], s)"] steps [of t "fst m" pf c "snd m" p s] show ?case
    by (auto intro: ran_first)
qed (simp add: ran_0)

lemma scheduled_append:
  "scheduled pf c (ts @ us) m = (case scheduled pf c ts m of None \<Rightarrow> None | Some m' \<Rightarrow> scheduled pf c us m')"
  by (induction ts arbitrary: m) (auto split: option.split)

text \<open>Every run has a schedule.\<close>

lemma ran_scheduled: "ran pf c m k n \<Longrightarrow> \<exists>ts. length ts = k \<and> scheduled pf c ts m = Some n"
proof (induction rule: ran.induct)
  case (ran_Suc k n n')
  then obtain ts where ts: "length ts = k" "scheduled pf c ts m = Some n" by blast
  from ran_Suc.hyps(2) show ?case
  proof cases
    case (steps t pcs s p s')
    with ts show ?thesis by (intro exI [of _ "ts @ [t]"]) (simp add: scheduled_append)
  qed
qed simp

lemma scheduled_own_steps:
  "scheduled pf c ts m = Some n \<Longrightarrow> count_list ts t + (if t < length (fst n) then steps_left (fst n ! t) else 0)
     \<le> (if t < length (fst m) then steps_left (fst m ! t) else 0)"
proof (induction ts arbitrary: m)
  case (Cons u ts)
  then obtain p s where u: "u < length (fst m)" "go_step pf c u (fst m ! u) (snd m) = Some (p, s)"
    and rest: "scheduled pf c ts ((fst m)[u := p], s) = Some n"
    by (auto split: if_splits option.splits)
  from Cons.IH [OF rest] go_decreases [OF u(2)] u(1) show ?case by (cases "u = t") (auto split: if_splits)
qed simp

text \<open>
  C9: every request is answered within 13 steps of its own, whatever the others do in between: in the run of any
  schedule no goroutine takes more than 13 steps, and one that took 13 has its answer. So a run of \<open>n\<close> requests is over
  after at most \<open>13 * n\<close> steps; and as long as some request has no answer, some goroutine can take a step, so the
  locks never block all of them.
\<close>

theorem requests_all_answered:
  assumes "scheduled pf c ts (started reqs w) = Some (pcs, s)"
  shows "(\<forall>t. count_list ts t \<le> 13 \<and> (count_list ts t = 13 \<longrightarrow> (\<exists>a. pcs ! t = Done a)))
     \<and> length ts \<le> 13 * length reqs
     \<and> ((\<exists>t < length reqs. \<forall>a. pcs ! t \<noteq> Done a) \<longrightarrow> (\<exists>m. step pf c (pcs, s) m))"
proof -
  note run = scheduled_ran [OF assms]
  note inv = ran_invariant [OF run]
  have own: "count_list ts t + (if t < length pcs then steps_left (pcs ! t) else 0) \<le> (if t < length reqs then 13 else 0)" for t
    using scheduled_own_steps [OF assms, of t] by (simp add: started_def split: if_splits)
  have n: "length pcs = length reqs" using inv by (simp add: answering_def)
  have answered: "\<exists>a. pc = Done a" if "steps_left pc = 0" for pc using that by (cases pc) auto
  have "count_list ts t \<le> 13 \<and> (count_list ts t = 13 \<longrightarrow> (\<exists>a. pcs ! t = Done a))" for t
  proof (cases "t < length reqs")
    case True
    with own [of t] n have "count_list ts t + steps_left (pcs ! t) \<le> 13" by simp
    with answered [of "pcs ! t"] show ?thesis by auto
  next
    case False
    with own [of t] n show ?thesis by simp
  qed
  moreover have "sum_list (map steps_left (map Check reqs)) = 13 * length reqs"
    by (induction reqs) simp_all
  with ran_bounded [OF run] have "length ts \<le> 13 * length reqs" by (simp add: started_def)
  ultimately show ?thesis using inv never_stuck [of pcs s _ pf c] n by (auto simp: answering_def)
qed

text \<open>A goroutine that runs alone, and the shared state of a configuration that nobody else uses.\<close>

fun alone :: "'w platform \<Rightarrow> config \<Rightarrow> nat \<Rightarrow> nat \<Rightarrow> pc \<times> 'w shared \<Rightarrow> pc \<times> 'w shared" where
  "alone pf c t 0 m = m"
| "alone pf c t (Suc n) m = (case go_step pf c t (fst m) (snd m) of None \<Rightarrow> m | Some m' \<Rightarrow> alone pf c t n m')"

definition unshared :: "config \<Rightarrow> 'w \<Rightarrow> 'w shared" where
  "unshared c w = (fresh w)\<lparr>sh_cache := map_option (\<lambda>_. 0) (cfg_cache c),
     sh_caches := (case cfg_cache c of None \<Rightarrow> [] | Some cache \<Rightarrow> [cache])\<rparr>"

lemma alone_done [simp]: "alone pf c t n (Done a, s) = (Done a, s)"
  by (cases n) simp_all

lemma upd_same: "f x = y \<Longrightarrow> f(x := y) = f"
  by auto

definition with_cache :: "auth_cache \<Rightarrow> 'w \<Rightarrow> 'w shared" where
  "with_cache cache w = (fresh w)\<lparr>sh_cache := Some 0, sh_caches := [cache]\<rparr>"

lemma unshared_Some: "cfg_cache c = Some cache \<Longrightarrow> unshared c w = with_cache cache w"
  by (simp add: unshared_def with_cache_def)

lemma alone_finds:
  "cfg_cache c = Some cache \<Longrightarrow> alone pf c t (Suc n) (Check q, unshared c w) = alone pf c t n (Load q, with_cache cache w)"
  by (simp add: unshared_Some with_cache_def)

lemma alone_makes:
  "cfg_cache c = None \<Longrightarrow> alone pf c t (Suc (Suc (Suc (Suc (Suc n))))) (Check q, unshared c w) =
     alone pf c t n (Load q, with_cache \<lparr>ca_entries = Map.empty, ca_key = generateCacheKey pf c\<rparr> w)"
  by (simp add: unshared_def with_cache_def fresh_def)

lemma alone_starts:
  "\<exists>n \<ge> 8. alone pf c t 13 (Check q, unshared c w) = alone pf c t n (Load q, with_cache (fst (getCache pf c)) w)"
proof (cases "cfg_cache c")
  case None
  from alone_makes [OF None, of pf t 8 q w] None
  have "alone pf c t 13 (Check q, unshared c w) = alone pf c t 8 (Load q, with_cache (fst (getCache pf c)) w)"
    by (simp add: getCache_def initCache_def Let_def)
  moreover have "(8::nat) \<le> 8" by simp
  ultimately show ?thesis by blast
next
  case (Some cache)
  from alone_finds [OF Some, of pf t 12 q w] Some
  have "alone pf c t 13 (Check q, unshared c w) = alone pf c t 12 (Load q, with_cache (fst (getCache pf c)) w)"
    by (simp add: getCache_def initCache_def Let_def)
  moreover have "(8::nat) \<le> 12" by simp
  ultimately show ?thesis by blast
qed

lemma alone_lookup:
  "8 \<le> n \<Longrightarrow> alone pf c t n (Load (Lookup h), with_cache cache w) =
     (case ca_entries cache h of
        Some a \<Rightarrow> (Done (Credentials (Ok a)), with_cache cache w)
      | None \<Rightarrow> (case resolveAuthConfigForHostname pf c h w of
          (Ok a, w') \<Rightarrow> (Done (Credentials (Ok a)), with_cache (cache\<lparr>ca_entries := (ca_entries cache)(h \<mapsto> a)\<rparr>) w')
        | (r, w') \<Rightarrow> (Done (Credentials r), with_cache cache w')))"
proof -
  assume "8 \<le> n"
  then obtain k where "n = 8 + k" using le_Suc_ex by blast
  then have n: "n = Suc (Suc (Suc (Suc (Suc (Suc (Suc (Suc k)))))))" by simp
  obtain r w' where r: "resolveAuthConfigForHostname pf c h w = (r, w')" by (cases "resolveAuthConfigForHostname pf c h w")
  show ?thesis unfolding n
    by (cases "ca_entries cache h"; cases r)
      (simp_all add: r with_cache_def fresh_def lock_read_def unlock_read_def lock_write_def unlock_write_def set_entries_def upd_same)
qed

lemma alone_other:
  assumes "8 \<le> n"
  shows "alone pf c t n (Load Clear, with_cache cache w) = (Done Cleared, with_cache (cache\<lparr>ca_entries := Map.empty\<rparr>) w)"
    and "alone pf c t n (Load Stats, with_cache cache w) =
      (Done (Statistics \<lparr>cs_Size = card (dom (ca_entries cache)), cs_CacheKey = ca_key cache\<rparr>), with_cache cache w)"
proof -
  from assms obtain k where "n = 8 + k" using le_Suc_ex by blast
  then have n: "n = Suc (Suc (Suc (Suc (Suc (Suc (Suc (Suc k)))))))" by simp
  show "alone pf c t n (Load Clear, with_cache cache w) = (Done Cleared, with_cache (cache\<lparr>ca_entries := Map.empty\<rparr>) w)"
    unfolding n by (simp add: with_cache_def fresh_def lock_write_def unlock_write_def set_entries_def upd_same)
  show "alone pf c t n (Load Stats, with_cache cache w) =
      (Done (Statistics \<lparr>cs_Size = card (dom (ca_entries cache)), cs_CacheKey = ca_key cache\<rparr>), with_cache cache w)"
    unfolding n by (simp add: with_cache_def fresh_def lock_read_def unlock_read_def upd_same)
qed

text \<open>
  C29: the steps of a goroutine are those of the sequential operations: run alone, a request does to the
  cache and to the world what \<open>AuthConfigForHostname\<close>, \<open>clearAuthCache\<close> and \<open>cacheStats\<close> do, and gives
  their results.
\<close>

theorem alone_is_sequential:
  "alone pf c t 13 (Check q, unshared c w) =
     (case q of
        Lookup h \<Rightarrow> (case AuthConfigForHostname pf h (c, w) of (r, c', w') \<Rightarrow> (Done (Credentials r), unshared c' w'))
      | Clear \<Rightarrow> (Done Cleared, unshared (clearAuthCache pf c) w)
      | Stats \<Rightarrow> (case cacheStats pf c of (st, c') \<Rightarrow> (Done (Statistics st), unshared c' w)))"
proof -
  obtain cache c1 where g: "getCache pf c = (cache, c1)" by (cases "getCache pf c")
  have c1: "cfg_cache c1 = Some cache" using g by (auto simp: getCache_def initCache_def Let_def split: if_splits)
  have same: "resolveAuthConfigForHostname pf c1 h w = resolveAuthConfigForHostname pf c h w" for h
    using getCache_cache_only [of pf c] g by auto
  obtain n where "8 \<le> n" "alone pf c t 13 (Check q, unshared c w) = alone pf c t n (Load q, with_cache cache w)"
    using alone_starts [of pf c t q w] g by auto
  then show ?thesis
    using c1 by (cases q) (simp_all add: alone_lookup alone_other AuthConfigForHostname_def clearAuthCache_def cacheStats_def
      g same unshared_Some split: option.split prod.split outcome.split)
qed

text \<open>A lookup and a reader of the statistics: the second one finds the cache that the first one has just made.\<close>

definition demo_answers :: "pc list" where
  "demo_answers = [Done (Credentials (Ok (demo_auth\<lparr>ac_ServerAddress := ''r''\<rparr>))),
     Done (Statistics \<lparr>cs_Size = 0, cs_CacheKey = generateCacheKey demo_platform demo_config\<rparr>)]"

lemma demo_resolve:
  "resolveAuthConfigForHostname demo_platform demo_config ''r'' w = (Ok (demo_auth\<lparr>ac_ServerAddress := ''r''\<rparr>), w)"
  by (simp add: demo_lookup_simps)

definition demo_schedule :: "nat list" where
  "demo_schedule = [0, 0, 0, 0, 1, 0, 0, 1, 0, 1, 1, 1, 0, 0, 0, 0, 0, 0]"

lemma demo_scheduled:
  "\<exists>s. scheduled demo_platform demo_config demo_schedule (started [Lookup ''r'', Stats] ()) = Some (demo_answers, s)"
  by (simp add: demo_schedule_def started_def fresh_def demo_resolve demo_answers_def lock_defs)

lemma demo_run: "\<exists>s. ran demo_platform demo_config (started [Lookup ''r'', Stats] ()) 18 (demo_answers, s)"
proof -
  have "length demo_schedule = 18" by (simp add: demo_schedule_def)
  with demo_scheduled scheduled_ran show ?thesis by metis
qed

theorem concurrent_requests_safe_witness:
  "\<exists>s. ran demo_platform demo_config (started [Lookup ''r'', Stats] ()) 18 (demo_answers, s)
     \<and> proper_answer demo_platform demo_config (Lookup ''r'') (Credentials (Ok (demo_auth\<lparr>ac_ServerAddress := ''r''\<rparr>)))
     \<and> length (sh_caches s) \<le> 1"
proof -
  obtain s where s: "ran demo_platform demo_config (started [Lookup ''r'', Stats] ()) 18 (demo_answers, s)"
    using demo_run by blast
  from concurrent_requests_safe [OF s] have all: "\<forall>t < 2. \<forall>a. demo_answers ! t = Done a \<longrightarrow> proper_answer demo_platform demo_config ([Lookup ''r'', Stats] ! t) a"
    and one: "length (sh_caches s) \<le> 1" by (simp_all add: numeral_2_eq_2)
  from all have "\<forall>a. demo_answers ! 0 = Done a \<longrightarrow> proper_answer demo_platform demo_config (Lookup ''r'') a" by fastforce
  with s one show ?thesis by (auto simp: demo_answers_def)
qed

theorem requests_all_answered_witness:
  "\<exists>s. scheduled demo_platform demo_config demo_schedule (started [Lookup ''r'', Stats] ()) = Some (demo_answers, s)
     \<and> count_list demo_schedule 0 = 13 \<and> demo_answers ! 0 = Done (Credentials (Ok (demo_auth\<lparr>ac_ServerAddress := ''r''\<rparr>)))
     \<and> length demo_schedule \<le> 13 * 2
     \<and> (\<exists>m. step demo_platform demo_config (started [Lookup ''r'', Stats] ()) m)"
proof -
  obtain s where s: "scheduled demo_platform demo_config demo_schedule (started [Lookup ''r'', Stats] ()) = Some (demo_answers, s)"
    using demo_scheduled by blast
  have "scheduled demo_platform demo_config [] (started [Lookup ''r'', Stats] ()) = Some (map Check [Lookup ''r'', Stats], fresh ())"
    by (simp add: started_def)
  from requests_all_answered [OF this]
  have "\<exists>m. step demo_platform demo_config (map Check [Lookup ''r'', Stats], fresh ()) m" by auto
  moreover have "length demo_schedule \<le> 13 * 2" using requests_all_answered [OF s] by simp
  moreover have "count_list demo_schedule 0 = 13" by (simp add: demo_schedule_def)
  ultimately show ?thesis using s by (auto simp: started_def demo_answers_def)
qed

end
