(* ===== verification/Client_Concurrency.thy ===== *)
theory Client_Concurrency
  imports Sdk_Client
begin

text \<open>
  \<open>Info\<close> of package \<open>client\<close> (\<open>types.go\<close>) when goroutines share one client: the steps of the method between which
  others may run, with the mutex \<open>mtx\<close> and the fields \<open>dockerInfo\<close> and \<open>dockerInfoSet\<close>. Reads and writes of a field
  are taken to be atomic; the last section shows that two of them can meet. The logging before the return and the
  other methods that take the mutex are left out.
\<close>

section \<open>The steps of Info\<close>

datatype info_pc =
    I_lock | I_check | I_read | I_unlock_with string | I_unlock | I_call | I_write string | I_set | I_return
  | I_done "string outcome"

record 'w info_shared =
  is_mtx :: "nat option"
  is_info :: string
  is_set :: bool
  is_world :: "'w clocked"

fun info_step :: "gctx \<Rightarrow> 'w engine \<Rightarrow> nat \<Rightarrow> info_pc \<Rightarrow> 'w info_shared \<Rightarrow> (info_pc \<times> 'w info_shared) option" where
  "info_step ctx en t I_lock s = (if is_mtx s \<noteq> None then None else Some (I_check, s\<lparr>is_mtx := Some t\<rparr>))"
| "info_step ctx en t I_check s = Some (if is_set s then I_read else I_unlock, s)"
| "info_step ctx en t I_read s = Some (I_unlock_with (is_info s), s)"
| "info_step ctx en t (I_unlock_with i) s = Some (I_done (Ok i), s\<lparr>is_mtx := None\<rparr>)"
| "info_step ctx en t I_unlock s = Some (I_call, s\<lparr>is_mtx := None\<rparr>)"
| "info_step ctx en t I_call s =
     (case en_Info en ctx (is_world s) of
        (r, w) \<Rightarrow> Some (case r of Ok i \<Rightarrow> I_write i | Err e \<Rightarrow> I_done (Err (wrapf ''docker info'' e)) | Panic p \<Rightarrow> I_done (Panic p),
                        s\<lparr>is_world := w\<rparr>))"
| "info_step ctx en t (I_write i) s = Some (I_set, s\<lparr>is_info := i\<rparr>)"
| "info_step ctx en t I_set s = Some (I_return, s\<lparr>is_set := True\<rparr>)"
| "info_step ctx en t I_return s = Some (I_done (Ok (is_info s)), s)"
| "info_step ctx en t (I_done r) s = None"

inductive info_ran :: "gctx \<Rightarrow> 'w engine \<Rightarrow> nat \<Rightarrow> 'w info_shared \<Rightarrow> info_pc list \<times> 'w info_shared \<Rightarrow> bool" for ctx en n s0 where
  info_start: "info_ran ctx en n s0 (replicate n I_lock, s0)"
| info_next: "info_ran ctx en n s0 (pcs, s) \<Longrightarrow> t < length pcs \<Longrightarrow> info_step ctx en t (pcs ! t) s = Some (pc, s')
    \<Longrightarrow> info_ran ctx en n s0 (pcs[t := pc], s')"

definition info_fresh :: "'w clocked \<Rightarrow> 'w info_shared" where
  "info_fresh w = \<lparr>is_mtx = None, is_info = '''', is_set = False, is_world = w\<rparr>"


section \<open>What the callers get\<close>

definition info_given :: "gctx \<Rightarrow> 'w engine \<Rightarrow> string \<Rightarrow> bool" where
  "info_given ctx en i \<longleftrightarrow> (\<exists>w w'. en_Info en ctx w = (Ok i, w'))"

fun holds_mtx :: "info_pc \<Rightarrow> bool" where
  "holds_mtx I_check = True"
| "holds_mtx I_read = True"
| "holds_mtx (I_unlock_with i) = True"
| "holds_mtx I_unlock = True"
| "holds_mtx _ = False"

text \<open>What a goroutine relies on: what it carries comes from the daemon, and so does the field once it is written.\<close>

fun info_ok :: "gctx \<Rightarrow> 'w engine \<Rightarrow> 'w info_shared \<Rightarrow> info_pc \<Rightarrow> bool" where
  "info_ok ctx en s I_read = info_given ctx en (is_info s)"
| "info_ok ctx en s (I_unlock_with i) = info_given ctx en i"
| "info_ok ctx en s (I_write i) = info_given ctx en i"
| "info_ok ctx en s I_set = info_given ctx en (is_info s)"
| "info_ok ctx en s I_return = info_given ctx en (is_info s)"
| "info_ok ctx en s (I_done r) = (\<forall>i. r = Ok i \<longrightarrow> info_given ctx en i)"
| "info_ok ctx en s _ = True"

definition info_inv :: "gctx \<Rightarrow> 'w engine \<Rightarrow> info_pc list \<times> 'w info_shared \<Rightarrow> bool" where
  "info_inv ctx en m \<longleftrightarrow> (case m of (pcs, s) \<Rightarrow>
     (is_set s \<longrightarrow> info_given ctx en (is_info s))
     \<and> (\<forall>t < length pcs. info_ok ctx en s (pcs ! t) \<and> (holds_mtx (pcs ! t) \<longleftrightarrow> is_mtx s = Some t)))"

lemma info_given_call: "en_Info en ctx w = (Ok i, w') \<Longrightarrow> info_given ctx en i"
  unfolding info_given_def by blast

lemma info_ok_keep:
  assumes "info_ok ctx en s qc" and "info_given ctx en (is_info s) \<longrightarrow> info_given ctx en (is_info s')"
  shows "info_ok ctx en s' qc"
  using assms by (cases qc) auto

lemma info_step_ok:
  assumes "info_step ctx en t pc s = Some (pc', s')" and "info_ok ctx en s pc" and "is_set s \<longrightarrow> info_given ctx en (is_info s)"
  shows "info_ok ctx en s' pc'"
    and "is_set s' \<longrightarrow> info_given ctx en (is_info s')"
    and "info_ok ctx en s qc \<Longrightarrow> info_ok ctx en s' qc"
proof -
  have "info_ok ctx en s' pc' \<and> (is_set s' \<longrightarrow> info_given ctx en (is_info s'))
     \<and> (info_given ctx en (is_info s) \<longrightarrow> info_given ctx en (is_info s'))"
    using assms by (cases pc) (auto split: if_splits outcome.splits prod.splits dest: info_given_call)
  then show "info_ok ctx en s' pc'" and "is_set s' \<longrightarrow> info_given ctx en (is_info s')"
    and "info_ok ctx en s qc \<Longrightarrow> info_ok ctx en s' qc"
    using info_ok_keep [of ctx en s qc s'] by blast+
qed

lemma info_step_mtx:
  assumes "info_step ctx en t pc s = Some (pc', s')" and "holds_mtx pc \<longleftrightarrow> is_mtx s = Some t"
  shows "(holds_mtx pc' \<longleftrightarrow> is_mtx s' = Some t) \<and> (\<forall>u. u \<noteq> t \<longrightarrow> (is_mtx s' = Some u \<longleftrightarrow> is_mtx s = Some u))"
proof (cases pc)
  case I_call
  with assms obtain r w where "en_Info en ctx (is_world s) = (r, w)" by (cases "en_Info en ctx (is_world s)")
  with I_call assms show ?thesis by (cases r) auto
qed (use assms in \<open>auto split: if_splits\<close>)

lemma info_invariant:
  assumes "info_ran ctx en n (info_fresh w) m"
  shows "length (fst m) = n \<and> info_inv ctx en m"
  using assms
proof induction
  case info_start
  show ?case by (simp add: info_inv_def info_fresh_def)
next
  case (info_next pcs s t pc s')
  then have inv: "is_set s \<longrightarrow> info_given ctx en (is_info s)"
    and each: "\<And>u. u < length pcs \<Longrightarrow> info_ok ctx en s (pcs ! u) \<and> (holds_mtx (pcs ! u) \<longleftrightarrow> is_mtx s = Some u)"
    by (auto simp: info_inv_def)
  have len: "length pcs = n" using info_next(4) by simp
  have here: "info_ok ctx en s (pcs ! t)" "holds_mtx (pcs ! t) \<longleftrightarrow> is_mtx s = Some t"
    using each [OF info_next(2)] by blast+
  note ok = info_step_ok [OF info_next(3) here(1) inv]
  note mtx = info_step_mtx [OF info_next(3) here(2)]
  have "info_ok ctx en s' (pcs[t := pc] ! u) \<and> (holds_mtx (pcs[t := pc] ! u) \<longleftrightarrow> is_mtx s' = Some u)"
    if "u < length pcs" for u
    using that ok mtx each [OF that] by (cases "u = t") auto
  with len ok(2) show ?case by (simp add: info_inv_def)
qed

text \<open>
  Goroutines that share a client get from \<open>Info\<close> only what the daemon answered to one of them, never the empty field,
  and no two of them are in a part that the mutex protects.
\<close>

theorem Info_shared:
  assumes "info_ran ctx en n (info_fresh w) (pcs, s)"
  shows "length pcs = n
     \<and> (\<forall>t < n. \<forall>i. pcs ! t = I_done (Ok i) \<longrightarrow> info_given ctx en i)
     \<and> (\<forall>t < n. \<forall>u < n. holds_mtx (pcs ! t) \<and> holds_mtx (pcs ! u) \<longrightarrow> t = u)"
  using info_invariant [OF assms] by (fastforce simp: info_inv_def)

text \<open>Alone, the steps are the method.\<close>

fun info_alone :: "gctx \<Rightarrow> 'w engine \<Rightarrow> nat \<Rightarrow> info_pc \<Rightarrow> 'w info_shared \<Rightarrow> info_pc \<times> 'w info_shared" where
  "info_alone ctx en 0 pc s = (pc, s)"
| "info_alone ctx en (Suc k) pc s =
     (case info_step ctx en 0 pc s of None \<Rightarrow> (pc, s) | Some (pc', s') \<Rightarrow> info_alone ctx en k pc' s')"

lemma Info_alone:
  assumes "Info ctx en (c, s) = (r, c', s')"
  shows "info_alone ctx en 7 I_lock
       \<lparr>is_mtx = None, is_info = (case cl_dockerInfo c of None \<Rightarrow> '''' | Some i \<Rightarrow> i), is_set = cl_dockerInfo c \<noteq> None, is_world = s\<rparr>
     = (I_done r, \<lparr>is_mtx = None, is_info = (case cl_dockerInfo c' of None \<Rightarrow> '''' | Some i \<Rightarrow> i),
          is_set = cl_dockerInfo c' \<noteq> None, is_world = s'\<rparr>)"
  using assms
  by (auto simp: Info_def numeral_eq_Suc split: option.splits outcome.splits prod.splits)


section \<open>The race\<close>

text \<open>
  The fields are written without the mutex. Two goroutines are enough: one is about to write \<open>dockerInfoSet\<close>
  while the other, holding the mutex, is about to read it.
\<close>

lemma Info_race:
  assumes "en_Info en ctx w = (Ok i, w')"
  shows "\<exists>s. info_ran ctx en 2 (info_fresh w) ([I_set, I_check], s) \<and> is_mtx s = Some 1"
proof -
  let ?s = "\<lparr>is_mtx = None, is_info = i, is_set = False, is_world = w'\<rparr>"
  have go: "info_ran ctx en 2 s0 ([a', b], s')"
    if "info_ran ctx en 2 s0 ([a, b], s)" "info_step ctx en 0 a s = Some (a', s')" for s0 s s' a a' b
    using info_next [OF that(1), of 0 a' s'] that(2) by simp
  have go1: "info_ran ctx en 2 s0 ([a, b'], s')"
    if "info_ran ctx en 2 s0 ([a, b], s)" "info_step ctx en 1 b s = Some (b', s')" for s0 s s' a b b'
    using info_next [OF that(1), of 1 b' s'] that(2) by simp
  have "info_ran ctx en 2 (info_fresh w) ([I_lock, I_lock], info_fresh w)"
    using info_start [of ctx en 2 "info_fresh w"] by (simp add: numeral_2_eq_2)
  from go [OF this, of I_check] have "info_ran ctx en 2 (info_fresh w) ([I_check, I_lock], (info_fresh w)\<lparr>is_mtx := Some 0\<rparr>)"
    by (simp add: info_fresh_def)
  from go [OF this, of I_unlock] have "info_ran ctx en 2 (info_fresh w) ([I_unlock, I_lock], (info_fresh w)\<lparr>is_mtx := Some 0\<rparr>)"
    by (simp add: info_fresh_def)
  from go [OF this, of I_call] have "info_ran ctx en 2 (info_fresh w) ([I_call, I_lock], info_fresh w)"
    by (simp add: info_fresh_def)
  from go [OF this, of "I_write i"] have "info_ran ctx en 2 (info_fresh w) ([I_write i, I_lock], (info_fresh w)\<lparr>is_world := w'\<rparr>)"
    using assms by (simp add: info_fresh_def)
  from go [OF this, of I_set] have "info_ran ctx en 2 (info_fresh w) ([I_set, I_lock], ?s)"
    by (simp add: info_fresh_def)
  from go1 [OF this, of I_check] have "info_ran ctx en 2 (info_fresh w) ([I_set, I_check], ?s\<lparr>is_mtx := Some 1\<rparr>)"
    by simp
  then show ?thesis by (intro exI [of _ "?s\<lparr>is_mtx := Some 1\<rparr>"]) simp
qed

end
