(* ===== verification/Legacy_Adapters.thy ===== *)
theory Legacy_Adapters
  imports Docker_Config
begin

text \<open>
  The deprecated package \<open>legacyadapters/config\<close> (\<open>auth.go\<close>): a configuration of the SDK as one of the Docker
  CLI. The records of the CLI have the fields that the adapters set.
\<close>

record cli_auth_config =
  la_Username :: string
  la_Password :: string
  la_Auth :: string
  la_Email :: string
  la_ServerAddress :: string
  la_IdentityToken :: string
  la_RegistryToken :: string

record cli_proxy_config =
  lp_HTTPProxy :: string
  lp_HTTPSProxy :: string
  lp_FTPProxy :: string
  lp_NoProxy :: string

record config_file =
  cf_AuthConfigs :: "(string \<times> cli_auth_config) list"
  cf_HTTPHeaders :: "string smap"
  cf_PsFormat :: string
  cf_ImagesFormat :: string
  cf_NetworksFormat :: string
  cf_PluginsFormat :: string
  cf_VolumesFormat :: string
  cf_StatsFormat :: string
  cf_DetachKeys :: string
  cf_CredentialsStore :: string
  cf_CredentialHelpers :: "string smap"
  cf_Filename :: string
  cf_ServiceInspectFormat :: string
  cf_ServicesFormat :: string
  cf_TasksFormat :: string
  cf_SecretFormat :: string
  cf_ConfigFormat :: string
  cf_NodesFormat :: string
  cf_PruneFilters :: "string list"
  cf_Proxies :: "(string \<times> cli_proxy_config) list"
  cf_CurrentContext :: string
  cf_CLIPluginsExtraDirs :: "string list"
  cf_Plugins :: "string smap smap"
  cf_Aliases :: "string smap"
  cf_Features :: "string smap"
  cf_Experimental :: string

definition ToRegistryAuthConfig :: "auth_config \<Rightarrow> auth_config" where
  "ToRegistryAuthConfig authConfig = authConfig"

definition ToCLIAuthConfig :: "auth_config \<Rightarrow> cli_auth_config" where
  "ToCLIAuthConfig authConfig =
     \<lparr>la_Username = ac_Username authConfig, la_Password = ac_Password authConfig, la_Auth = ac_Auth authConfig,
      la_Email = '''', la_ServerAddress = ac_ServerAddress authConfig, la_IdentityToken = ac_IdentityToken authConfig,
      la_RegistryToken = ac_RegistryToken authConfig\<rparr>"

definition ToCLIAuthConfigs :: "(string \<times> auth_config) list \<Rightarrow> (string \<times> cli_auth_config) list" where
  "ToCLIAuthConfigs authConfigs = map (\<lambda>(name, authConfig). (name, ToCLIAuthConfig authConfig)) authConfigs"

definition ToCLIProxyConfig :: "proxy_config \<Rightarrow> cli_proxy_config" where
  "ToCLIProxyConfig proxy =
     \<lparr>lp_HTTPProxy = px_HTTPProxy proxy, lp_HTTPSProxy = px_HTTPSProxy proxy, lp_FTPProxy = px_FTPProxy proxy,
      lp_NoProxy = px_NoProxy proxy\<rparr>"

definition ToCLIProxyConfigs :: "(string \<times> proxy_config) list \<Rightarrow> (string \<times> cli_proxy_config) list" where
  "ToCLIProxyConfigs proxies = map (\<lambda>(name, proxy). (name, ToCLIProxyConfig proxy)) proxies"

definition ToConfigFile :: "config \<Rightarrow> config_file" where
  "ToConfigFile cfg =
     \<lparr>cf_AuthConfigs = ToCLIAuthConfigs (cfg_AuthConfigs cfg), cf_HTTPHeaders = cfg_HTTPHeaders cfg,
      cf_PsFormat = cfg_PsFormat cfg, cf_ImagesFormat = cfg_ImagesFormat cfg, cf_NetworksFormat = cfg_NetworksFormat cfg,
      cf_PluginsFormat = cfg_PluginsFormat cfg, cf_VolumesFormat = cfg_VolumesFormat cfg, cf_StatsFormat = cfg_StatsFormat cfg,
      cf_DetachKeys = cfg_DetachKeys cfg, cf_CredentialsStore = cfg_CredentialsStore cfg,
      cf_CredentialHelpers = cfg_CredentialHelpers cfg, cf_Filename = cfg_Filename cfg,
      cf_ServiceInspectFormat = cfg_ServiceInspectFormat cfg, cf_ServicesFormat = cfg_ServicesFormat cfg,
      cf_TasksFormat = cfg_TasksFormat cfg, cf_SecretFormat = cfg_SecretFormat cfg, cf_ConfigFormat = cfg_ConfigFormat cfg,
      cf_NodesFormat = cfg_NodesFormat cfg, cf_PruneFilters = cfg_PruneFilters cfg,
      cf_Proxies = ToCLIProxyConfigs (cfg_Proxies cfg), cf_CurrentContext = cfg_CurrentContext cfg,
      cf_CLIPluginsExtraDirs = cfg_CLIPluginsExtraDirs cfg, cf_Plugins = Map.empty, cf_Aliases = cfg_Aliases cfg,
      cf_Features = Map.empty, cf_Experimental = cfg_Experimental cfg\<rparr>"

text \<open>The credentials that the CLI finds under a name are those of the SDK.\<close>

lemma ToConfigFile_credentials:
  "map_of (cf_AuthConfigs (ToConfigFile cfg)) name = map_option ToCLIAuthConfig (map_of (cfg_AuthConfigs cfg) name)"
proof -
  have "map_of (ToCLIAuthConfigs acs) name = map_option ToCLIAuthConfig (map_of acs name)" for acs
    unfolding ToCLIAuthConfigs_def by (induction acs) auto
  then show ?thesis by (simp add: ToConfigFile_def)
qed

lemma ToCLIAuthConfig_inj: "ToCLIAuthConfig a = ToCLIAuthConfig b \<Longrightarrow> a = b"
  by (simp add: ToCLIAuthConfig_def)

text \<open>Two configurations that differ only in a proxy for all protocols become the same one.\<close>

lemma ToCLIProxyConfig_drops_AllProxy: "ToCLIProxyConfig (p\<lparr>px_AllProxy := x\<rparr>) = ToCLIProxyConfig p"
  by (simp add: ToCLIProxyConfig_def)

end
