(* ===== verification/Context_Testing.thy ===== *)
theory Context_Testing
  imports Docker_Context Wait_Core
begin

text \<open>
  \<open>context/testing.go\<close>: the directory of Docker contexts that tests work on. \<open>tb.TempDir\<close> is the argument
  \<open>tmpDir\<close>, \<open>tb.Setenv\<close> changes the platform, and \<open>require.NoError\<close> ends the test: its error is the outcome.
\<close>


section \<open>Writing the contexts\<close>

definition tempMkdirAll :: "path \<Rightarrow> node \<Rightarrow> unit outcome \<times> node" where
  "tempMkdirAll dir disk = (case mkdir_all disk dir of Inl e \<Rightarrow> (Err (os_error e), disk) | Inr disk' \<Rightarrow> (Ok (), disk'))"

definition test_write :: "path \<Rightarrow> string \<Rightarrow> node \<Rightarrow> unit outcome \<times> node" where
  "test_write f bytes disk = (case write_file disk f bytes of Inl e \<Rightarrow> (Err (os_error e), disk) | Inr disk' \<Rightarrow> (Ok (), disk'))"

text \<open>\<open>fmt.Sprintf\<close> with an index at the end: the names and the addresses.\<close>

definition with_index :: "string \<Rightarrow> int \<Rightarrow> string" where
  "with_index s index = s @ show_int index"

text \<open>A text between double quotes, as the formats have it.\<close>

definition in_quotes :: "string \<Rightarrow> string" where
  "in_quotes s = CHR 0x22 # s @ [CHR 0x22]"

definition context_text :: "string \<Rightarrow> int \<Rightarrow> string \<Rightarrow> string \<Rightarrow> string" where
  "context_text baseContextName index endpointName host =
     ''{'' @ in_quotes ''Name'' @ '':'' @ in_quotes (with_index baseContextName index)
     @ '','' @ in_quotes ''Metadata'' @ '':{'' @ in_quotes ''Description'' @ '':'' @ in_quotes (with_index ''Docker Go SDK '' index)
     @ ''},'' @ in_quotes ''Endpoints'' @ '':{'' @ in_quotes endpointName @ '':{'' @ in_quotes ''Host'' @ '':'' @ in_quotes host
     @ '','' @ in_quotes ''SkipTLSVerify'' @ '':false}}}''"

definition createDockerContextWithCustomEndpoint ::
    "path \<Rightarrow> string \<Rightarrow> int \<Rightarrow> string \<Rightarrow> string \<Rightarrow> node \<Rightarrow> unit outcome \<times> node" where
  "createDockerContextWithCustomEndpoint metaDir baseContextName index endpointName host disk =
     (let contextDir = metaDir @ [with_index ''context'' index] in
      st_do (tempMkdirAll contextDir disk) (\<lambda>_ disk.
        test_write (contextDir @ [''meta.json'']) (context_text baseContextName index endpointName host) disk))"

definition createDockerContext :: "path \<Rightarrow> string \<Rightarrow> int \<Rightarrow> string \<Rightarrow> node \<Rightarrow> unit outcome \<times> node" where
  "createDockerContext metaDir baseContextName index host disk =
     createDockerContextWithCustomEndpoint metaDir baseContextName index ''docker'' host disk"

text \<open>The loop of \<open>SetupTestDockerContexts\<close>, over the indexes that are left.\<close>

fun create_contexts :: "path \<Rightarrow> string \<Rightarrow> int list \<Rightarrow> node \<Rightarrow> unit outcome \<times> node" where
  "create_contexts metaDir baseContextName [] disk = (Ok (), disk)"
| "create_contexts metaDir baseContextName (i # is) disk =
     st_do (createDockerContext metaDir baseContextName i (with_index ''tcp://127.0.0.1:'' i) disk)
       (\<lambda>_ disk. create_contexts metaDir baseContextName is disk)"

definition config_text :: "int \<Rightarrow> int \<Rightarrow> string" where
  "config_text currentContextIndex contextsCount =
     (if currentContextIndex \<le> contextsCount
      then ''{'' @ [CHR 0x0A, CHR 0x09] @ in_quotes ''currentContext'' @ '': '' @ in_quotes (with_index ''context'' currentContextIndex) @ [CHR 0x0A] @ ''}''
      else ''{'' @ in_quotes ''currentContext'' @ '': '' @ in_quotes '''' @ ''}'')"

definition test_home :: "string \<Rightarrow> 'w platform \<Rightarrow> 'w platform" where
  "test_home tmpDir pf =
     pf\<lparr>pf_getenv := (pf_getenv pf)(''HOME'' \<mapsto> tmpDir, ''USERPROFILE'' \<mapsto> tmpDir), pf_home := tmpDir\<rparr>"

definition SetupTestDockerContexts ::
    "string \<Rightarrow> 'w platform \<Rightarrow> int \<Rightarrow> int \<Rightarrow> node \<Rightarrow> 'w platform outcome \<times> node" where
  "SetupTestDockerContexts tmpDir pf0 currentContextIndex contextsCount disk =
     (let pf = test_home tmpDir pf0 in
      st_do (tempMkdirAll (path_of tmpDir @ [''.docker'']) disk) (\<lambda>_ disk.
      st_do (Dir pf disk, disk) (\<lambda>configDir disk.
      st_do (test_write (configDir @ [FileName]) (config_text currentContextIndex contextsCount) disk) (\<lambda>_ disk.
      st_do (metaRoot pf disk, disk) (\<lambda>metaDir disk.
      st_do (tempMkdirAll metaDir disk) (\<lambda>_ disk.
      st_do (create_contexts metaDir ''context'' [1..contextsCount] disk) (\<lambda>_ disk.
      st_do (createDockerContext metaDir ''context'' (contextsCount + 1) '''' disk) (\<lambda>_ disk.
      st_do (createDockerContextWithCustomEndpoint metaDir ''context'' (contextsCount + 2) ''foo'' '''' disk) (\<lambda>_ disk.
        (Ok pf, disk))))))))))"


section \<open>What is read back\<close>

text \<open>The context with an index, as it is read back.\<close>

definition test_context :: "int \<Rightarrow> string \<Rightarrow> string \<Rightarrow> dcontext" where
  "test_context i endpointName host =
     \<lparr>dc_Name = with_index ''context'' i, dc_encodedName = '''', dc_isCurrent = False,
      dc_Metadata = Some \<lparr>md_Description = with_index ''Docker Go SDK '' i, md_additionalFields = Some []\<rparr>,
      dc_Endpoints = [(endpointName, Some \<lparr>ep_Host = host, ep_SkipTLSVerify = False\<rparr>)]\<rparr>"

definition plain :: "string \<Rightarrow> bool" where
  "plain s \<longleftrightarrow> list_all (\<lambda>c. escape_char c = [c]) s"

lemma plain_append [simp]: "plain (s @ t) \<longleftrightarrow> plain s \<and> plain t"
  by (simp add: plain_def)

lemma print_plain: "plain s \<Longrightarrow> print_string s = in_quotes s"
proof -
  have "plain s \<Longrightarrow> concat (map escape_char s) = s" by (induction s) (auto simp: plain_def)
  then show "plain s \<Longrightarrow> print_string s = in_quotes s" by (simp add: print_string_def in_quotes_def)
qed

lemma plain_digit: "d < 10 \<Longrightarrow> plain [digit_char d]"
proof -
  have "list_all (\<lambda>d. plain [digit_char d]) [0..<10]" by (simp add: upt_rec plain_def escape_char_def)
  then show "d < 10 \<Longrightarrow> plain [digit_char d]" by (simp add: list_all_iff)
qed

lemma plain_show_nat: "plain (show_nat n)"
proof (induction n rule: show_nat.induct)
  case (1 n)
  then show ?case using plain_digit [of n] plain_digit [of "n mod 10"] by (subst show_nat.simps) simp
qed

lemma plain_show_int [simp]: "plain (show_int i)"
proof -
  have "plain (CHR ''-'' # s) \<longleftrightarrow> plain s" for s by (simp add: plain_def escape_char_def)
  then show ?thesis by (simp add: show_int_def plain_show_nat)
qed

lemma plain_with_index [simp]: "plain (with_index s i) \<longleftrightarrow> plain s"
  by (simp add: with_index_def)

lemma plain_texts [simp]:
  "plain ''Name''" "plain ''Metadata''" "plain ''Description''" "plain ''Docker Go SDK ''" "plain ''Endpoints''"
  "plain ''Host''" "plain ''SkipTLSVerify''" "plain ''context''" "plain ''tcp://127.0.0.1:''" "plain ''docker''" "plain ''foo''" "plain ''''"
  by (simp_all add: plain_def escape_char_def)

text \<open>The text is a JSON value.\<close>

definition context_json :: "int \<Rightarrow> string \<Rightarrow> string \<Rightarrow> json" where
  "context_json i endpointName host = JObj
     [(''Name'', JStr (with_index ''context'' i)),
      (''Metadata'', JObj [(''Description'', JStr (with_index ''Docker Go SDK '' i))]),
      (''Endpoints'', JObj [(endpointName, JObj [(''Host'', JStr host), (''SkipTLSVerify'', JBool False)])])]"

lemma context_text_json:
  assumes "plain endpointName" and "plain host"
  shows "context_text ''context'' i endpointName host = jprint (context_json i endpointName host)"
  using assms by (simp add: context_text_def context_json_def print_plain)

lemma decode_context_text:
  assumes "plain endpointName" and "plain host"
  shows "decode_dcontext (context_text ''context'' i endpointName host) = Ok (test_context i endpointName host)"
proof -
  have "jparse (jprint (context_json i endpointName host)) = Some (context_json i endpointName host)"
    by (rule jparse_jprint) (simp add: context_json_def)
  then show ?thesis
    unfolding context_text_json [OF assms] decode_dcontext_def
    by (simp add: context_json_def dcontext_member_def member_names set_string_def Metadata_UnmarshalJSON_def put_all_def
      endpoints_member_def endpoint_member_def zero_dcontext_def zero_metadata_def zero_endpoint_def test_context_def)
qed



lemma parse_plain: "plain s \<Longrightarrow> parse_string (s @ CHR 0x22 # rest) = Some (s, rest)"
proof -
  assume "plain s"
  then have "concat (map escape_char s) = s" by (induction s) (auto simp: plain_def)
  with parse_print_string [of s rest] show ?thesis by simp
qed

lemma config_text_json:
  "jparse (config_text k n) = Some (JObj [(''currentContext'', JStr (if k \<le> n then with_index ''context'' k else ''''))])"
proof -
  have key: "plain ''currentContext''" by (simp add: plain_def escape_char_def)
  have "parse_string (''currentContext'' @ CHR 0x22 # r) = Some (''currentContext'', r)" for r by (rule parse_plain [OF key])
  then have key': "parse_string (CHR ''c'' # CHR ''u'' # CHR ''r'' # CHR ''r'' # CHR ''e'' # CHR ''n'' # CHR ''t'' # CHR ''C'' # CHR ''o'' # CHR ''n'' # CHR ''t'' # CHR ''e'' # CHR ''x'' # CHR ''t'' # CHR 0x22 # r) = Some (''currentContext'', r)" for r
    by (simp del: parse_string.simps)
  have "jparse (''{'' @ in_quotes ''currentContext'' @ '': '' @ in_quotes '''' @ ''}'') = Some (JObj [(''currentContext'', JStr '''')])"
    by code_simp
  then show ?thesis
    using parse_plain [of "with_index ''context'' k"]
    by (cases "k \<le> n")
      (simp_all add: config_text_def jparse_def in_quotes_def key' skip_ws_def json_space_def Let_def del: parse_string.simps)
qed


section \<open>The store after the set-up\<close>

lemma show_nat_no_minus: "CHR ''-'' \<notin> set (show_nat n)"
  using digits_val_all_digits [OF digits_val_show_nat, of "CHR ''-''" n] by (auto simp: digit_val_def)

lemma show_int_inj [simp]: "show_int i = show_int j \<longleftrightarrow> i = j"
proof
  assume eq: "show_int i = show_int j"
  have m: "CHR ''-'' # s \<noteq> show_nat n" "show_nat n \<noteq> CHR ''-'' # s" for s n
    using show_nat_no_minus [of n] by (metis list.set_intros(1))+
  from eq show "i = j" by (auto simp: show_int_def m split: if_splits)
qed simp

lemma with_index_inj [simp]: "with_index s i = with_index s j \<longleftrightarrow> i = j"
  by (simp add: with_index_def)

lemma context_not_meta: "with_index ''context'' i \<noteq> metaFile"
  by (simp add: metaFile_def with_index_def)

lemma mkdir_new_ok: "\<exists>n. mkdir_all (DirN []) ys = Inr n"
  by (induction ys) auto

lemma mkdir_all_ok:
  "node_at r p = Inr (DirN es) \<Longrightarrow> map_of es x = None \<Longrightarrow> \<exists>r'. mkdir_all r (p @ x # xs) = Inr r'"
proof (induction r p rule: node_at.induct)
  case (3 es' y ys)
  then show ?case by (auto split: option.splits)
next
  case (1 n)
  then show ?case using mkdir_new_ok [of xs] by auto
qed auto

text \<open>The entry of a context is there exactly when the map binds its name.\<close>

lemma store_entry_absent:
  assumes "store_ok id disk root" and "node_at disk root = Inr (DirN es)" and "abs_store disk root n = None"
  shows "map_of es n = None"
proof -
  from assms(1,2) obtain cs where cs: "stored disk root = Ok cs" "list_all2 (placed id disk root) es cs"
    by (auto simp: store_ok_iff)
  with assms(3) have none: "\<forall>c \<in> set cs. dc_Name c \<noteq> n" by (simp add: abs_store_def find_None_iff)
  have "fst ` set es = dc_Name ` set cs" using cs(2) by (induction rule: list_all2_induct) auto
  with none show ?thesis by (auto simp: map_of_eq_None_iff)
qed

text \<open>Creating a context inserts it into the map, and touches nothing outside the root.\<close>

definition test_store :: "node \<Rightarrow> path \<Rightarrow> bool" where
  "test_store disk root \<longleftrightarrow> store_ok id disk root \<and> (\<exists>es. node_at disk root = Inr (DirN es))"

lemma create_inserts:
  assumes "test_store disk root" and "abs_store disk root (with_index ''context'' i) = None"
    and "plain endpointName" "plain host"
  shows "\<exists>disk'. createDockerContextWithCustomEndpoint root ''context'' i endpointName host disk = (Ok (), disk')
     \<and> test_store disk' root
     \<and> abs_store disk' root = (abs_store disk root)(with_index ''context'' i \<mapsto> test_context i endpointName host)
     \<and> (\<forall>q. forks root q \<longrightarrow> node_at disk' q = node_at disk q)"
proof -
  let ?n = "with_index ''context'' i"
  from assms(1) obtain es where ok: "store_ok id disk root" and es: "node_at disk root = Inr (DirN es)"
    by (auto simp: test_store_def)
  from store_entry_absent [OF ok es assms(2)] have no: "map_of es ?n = None" .
  from mkdir_all_ok [OF es no, of "[]"] obtain disk1 where mk: "mkdir_all disk (root @ [?n]) = Inr disk1" by auto
  have free: "\<not> file_exists disk (root @ [?n])"
    using es no by (simp add: file_exists_def node_at_append)
  have "node_at disk (root @ [?n]) = Inl ENOENT" by (simp add: node_at_append es no)
  with mk have "node_at disk1 (root @ [?n]) = Inr (DirN [])" by (rule mkdir_all_fresh)
  from write_file_ok [OF this, of metaFile "context_text ''context'' i endpointName host"]
  obtain disk' where wr: "write_file disk1 (root @ [?n, metaFile]) (context_text ''context'' i endpointName host) = Inr disk'"
    by auto
  have run: "createDockerContextWithCustomEndpoint root ''context'' i endpointName host disk = (Ok (), disk')"
    using mk wr by (simp add: createDockerContextWithCustomEndpoint_def tempMkdirAll_def test_write_def metaFile_def)
  have "node_at disk' q = node_at disk q" if "forks root q" for q
  proof -
    from that have "forks (root @ [?n]) q" unfolding forks_def by force
    with mk wr show ?thesis using tree_store.mk_wr_other [of disk "root @ [?n]" disk1 metaFile _ disk' q] by simp
  qed
  with run entry_refines [OF free mk wr decode_context_text [OF assms(3,4)] _ context_not_meta ok] show ?thesis
    by (auto simp: test_store_def test_context_def)
qed

lemma create_contexts_inserts:
  assumes "test_store disk root" and "distinct is" and "\<forall>i \<in> set is. abs_store disk root (with_index ''context'' i) = None"
  shows "\<exists>disk'. create_contexts root ''context'' is disk = (Ok (), disk') \<and> test_store disk' root
     \<and> (\<forall>i. abs_store disk' root (with_index ''context'' i) =
          (if i \<in> set is then Some (test_context i ''docker'' (with_index ''tcp://127.0.0.1:'' i))
           else abs_store disk root (with_index ''context'' i)))
     \<and> (\<forall>q. forks root q \<longrightarrow> node_at disk' q = node_at disk q)"
  using assms
proof (induction "is" arbitrary: disk)
  case (Cons i "is")
  from create_inserts [of disk root i "''docker''" "with_index ''tcp://127.0.0.1:'' i"] Cons.prems
  obtain disk1 where one: "createDockerContext root ''context'' i (with_index ''tcp://127.0.0.1:'' i) disk = (Ok (), disk1)"
    "test_store disk1 root"
    and abs: "abs_store disk1 root = (abs_store disk root)(with_index ''context'' i \<mapsto> test_context i ''docker'' (with_index ''tcp://127.0.0.1:'' i))"
    and frame: "\<forall>q. forks root q \<longrightarrow> node_at disk1 q = node_at disk q"
    by (auto simp: createDockerContext_def)
  have "\<forall>j \<in> set is. abs_store disk1 root (with_index ''context'' j) = None" using Cons.prems abs by auto
  with Cons.IH [OF one(2)] Cons.prems(2) obtain disk' where
    "create_contexts root ''context'' is disk1 = (Ok (), disk')" "test_store disk' root"
    "\<forall>j. abs_store disk' root (with_index ''context'' j) =
          (if j \<in> set is then Some (test_context j ''docker'' (with_index ''tcp://127.0.0.1:'' j))
           else abs_store disk1 root (with_index ''context'' j))"
    "\<forall>q. forks root q \<longrightarrow> node_at disk' q = node_at disk1 q" by auto
  with one(1) abs frame Cons.prems(2) show ?case by auto
qed simp

lemma test_home_Dir:
  assumes "tmpDir \<noteq> ''''" and "getenv pf ''DOCKER_CONFIG'' = ''''"
    and "node_at disk (path_of tmpDir @ [''.docker'']) \<noteq> Inl ENOENT"
  shows "Dir (test_home tmpDir pf) disk = Ok (path_of tmpDir @ [''.docker''])"
  using assms by (auto simp: Dir_def Let_def getHomeDir_def test_home_def getenv_def EnvOverrideDir_def configFileDir_def
      file_exists_def split: option.splits)

text \<open>The set-up of a test, in a temporary directory that is empty, succeeds; what it leaves is a store with these contexts.\<close>

definition set_up :: "int \<Rightarrow> string \<Rightarrow> dcontext option \<Rightarrow> bool" where
  "set_up n name c \<longleftrightarrow> (\<forall>i. name = with_index ''context'' i \<longrightarrow> c =
     (if 1 \<le> i \<and> i \<le> n then Some (test_context i ''docker'' (with_index ''tcp://127.0.0.1:'' i))
      else if i = n + 1 then Some (test_context i ''docker'' '''')
      else if i = n + 2 then Some (test_context i ''foo'' '''') else None))"

lemma SetupTestDockerContexts_store:
  assumes tmp: "tmpDir \<noteq> ''''" "node_at disk (path_of tmpDir) = Inr (DirN [])"
    and env: "getenv pf ''DOCKER_CONFIG'' = ''''"
    and conf: "conf = path_of tmpDir @ [''.docker'']"
  shows "\<exists>disk'. SetupTestDockerContexts tmpDir pf k n disk = (Ok (test_home tmpDir pf), disk')
     \<and> test_store disk' (conf @ [contextsDir, metadataDir])
     \<and> (\<forall>name. set_up n name (abs_store disk' (conf @ [contextsDir, metadataDir]) name))
     \<and> node_at disk' (conf @ [FileName]) = Inr (FileN (config_text k n))"
proof -
  let ?root = "conf @ [contextsDir, metadataDir]"
  note dir = test_home_Dir [OF tmp(1) env, folded conf]
  from mkdir_all_ok [OF tmp(2), of "''.docker''" "[]"] obtain d1 where mk: "mkdir_all disk conf = Inr d1" by (auto simp: conf)
  have "node_at disk conf = Inl ENOENT" by (simp add: conf node_at_append tmp(2))
  with mk have d1: "node_at d1 conf = Inr (DirN [])" by (rule mkdir_all_fresh)
  from write_file_ok [OF d1, of FileName "config_text k n"] obtain d2
    where wr: "write_file d1 (conf @ [FileName]) (config_text k n) = Inr d2" by auto
  from write_file_at [OF wr d1] have d2: "node_at d2 conf = Inr (DirN [(FileName, FileN (config_text k n))])" by auto
  have names: "FileName \<noteq> contextsDir" by (simp add: FileName_def contextsDir_def)
  from mkdir_all_ok [OF d2, of contextsDir "[metadataDir]"] names obtain d3 where mk3: "mkdir_all d2 ?root = Inr d3" by auto
  have "node_at d2 ?root = Inl ENOENT" using names by (simp add: node_at_append d2)
  with mk3 have d3: "node_at d3 ?root = Inr (DirN [])" by (rule mkdir_all_fresh)
  have apart: "forks ?root (conf @ [FileName])" using names by simp
  from mkdir_all_other [OF mk3 apart] write_file_same [OF wr]
  have f3: "node_at d3 (conf @ [FileName]) = Inr (FileN (config_text k n))" by simp
  have s3: "test_store d3 ?root" and a3: "abs_store d3 ?root x = None" for x
    using d3 by (auto simp: test_store_def store_ok_def root_ok_def entries_at_def abs_store_def stored_def contexts_in_def)
  from create_contexts_inserts [OF s3, of "[1..n]"] a3 obtain d4 where
    c4: "create_contexts ?root ''context'' [1..n] d3 = (Ok (), d4)" and s4: "test_store d4 ?root"
    and a4: "\<And>i. abs_store d4 ?root (with_index ''context'' i) =
          (if 1 \<le> i \<and> i \<le> n then Some (test_context i ''docker'' (with_index ''tcp://127.0.0.1:'' i)) else None)"
    and f4: "node_at d4 (conf @ [FileName]) = node_at d3 (conf @ [FileName])"
    using apart by auto
  from create_inserts [OF s4, of "n + 1" "''docker''" "''''"] a4 obtain d5 where
    c5: "createDockerContext ?root ''context'' (n + 1) '''' d4 = (Ok (), d5)" and s5: "test_store d5 ?root"
    and a5: "abs_store d5 ?root = (abs_store d4 ?root)(with_index ''context'' (n + 1) \<mapsto> test_context (n + 1) ''docker'' '''')"
    and f5: "node_at d5 (conf @ [FileName]) = node_at d4 (conf @ [FileName])"
    using apart by (auto simp: createDockerContext_def)
  from create_inserts [OF s5, of "n + 2" "''foo''" "''''"] a4 a5 obtain d6 where
    c6: "createDockerContextWithCustomEndpoint ?root ''context'' (n + 2) ''foo'' '''' d5 = (Ok (), d6)" and s6: "test_store d6 ?root"
    and a6: "abs_store d6 ?root = (abs_store d5 ?root)(with_index ''context'' (n + 2) \<mapsto> test_context (n + 2) ''foo'' '''')"
    and f6: "node_at d6 (conf @ [FileName]) = node_at d5 (conf @ [FileName])"
    using apart by auto
  have "SetupTestDockerContexts tmpDir pf k n disk = (Ok (test_home tmpDir pf), d6)"
    using mk wr mk3 c4 c5 c6 dir [of d1] dir [of d2] d1 d2
    by (simp add: SetupTestDockerContexts_def Let_def tempMkdirAll_def test_write_def metaRoot_def conf [symmetric])
  moreover have "set_up n name (abs_store d6 ?root name)" for name
    by (auto simp: set_up_def a6 a5 a4)
  ultimately show ?thesis using s6 f3 f4 f5 f6 by auto
qed

text \<open>
  C19: the test helper sets up what tests rely on. In a temporary directory that is empty it succeeds, and afterwards
  every context from 1 to \<open>contextsCount\<close> is found and gives its own address; the two contexts after them are found to
  have no docker host; and the current context is the one with the index that was asked for, or, when that index is
  greater than \<open>contextsCount\<close>, the default context. (A configuration that is a JSON object with only the current
  context decodes to one with this context.)
\<close>

theorem test_contexts_found:
  assumes tmp: "tmpDir \<noteq> ''''" "node_at disk (path_of tmpDir) = Inr (DirN [])"
    and env: "\<And>v. v \<in> {''DOCKER_CONFIG'', ''DOCKER_AUTH_CONFIG'', ''DOCKER_HOST'', ''DOCKER_CONTEXT''} \<Longrightarrow> getenv pf v = ''''"
    and json: "\<And>t x. jparse t = Some (JObj [(''currentContext'', JStr x)]) \<Longrightarrow>
          pf_decode pf t = Ok (zero_config\<lparr>cfg_CurrentContext := x\<rparr>)"
  shows "\<exists>pf' disk'. SetupTestDockerContexts tmpDir pf k n disk = (Ok pf', disk')
     \<and> (\<forall>i. 1 \<le> i \<and> i \<le> n \<longrightarrow>
          DockerHostFromContext pf' dg disk' (with_index ''context'' i) = Ok (with_index ''tcp://127.0.0.1:'' i))
     \<and> (\<forall>i \<in> {n + 1, n + 2}. Inspect pf' dg disk' (with_index ''context'' i) = Err (Sentinel ErrDockerHostNotSet))
     \<and> Current pf' disk' = Ok (if k \<le> n then with_index ''context'' k else ''default'')"
proof -
  define conf where conf: "conf = path_of tmpDir @ [''.docker'']"
  let ?cfg = "zero_config\<lparr>cfg_CurrentContext := if k \<le> n then with_index ''context'' k else ''''\<rparr>"
  note decoded = json [OF config_text_json, of k n]
  let ?pf = "test_home tmpDir pf" and ?root = "conf @ [contextsDir, metadataDir]"
  from SetupTestDockerContexts_store [OF tmp env conf, of k n] obtain disk' where
    run: "SetupTestDockerContexts tmpDir pf k n disk = (Ok ?pf, disk')" and store: "test_store disk' ?root"
    and abs: "\<And>name. set_up n name (abs_store disk' ?root name)"
    and written: "node_at disk' (conf @ [FileName]) = Inr (FileN (config_text k n))" by auto
  from store obtain es cs where es: "node_at disk' ?root = Inr (DirN es)" and ok: "root_ok disk' ?root" "stored disk' ?root = Ok cs"
    by (auto simp: test_store_def store_ok_iff)
  have "node_at disk' conf \<noteq> Inl ENOENT" using es by (auto simp: node_at_append split: sum.splits)
  with test_home_Dir [OF tmp(1) env] have dir: "Dir ?pf disk' = Ok conf" by (simp add: conf)
  have getenv: "getenv ?pf v = getenv pf v" if "v \<noteq> ''HOME''" "v \<noteq> ''USERPROFILE''" for v
    using that by (simp add: test_home_def getenv_def)
  have decode: "pf_decode ?pf = pf_decode pf" by (simp add: test_home_def)
  have load: "Load ?pf disk' = Ok (?cfg\<lparr>cfg_filepath := Some (conf @ [FileName])\<rparr>)"
    using dir written decoded env
    by (simp add: Load_def Let_def getenv decode Filepath_def file_exists_def loadFromFilepath_def read_file_def)
  have inspect: "Inspect ?pf dg disk' name =
     (case abs_store disk' ?root name of
        None \<Rightarrow> Err (Sentinel ErrDockerContextNotFound)
      | Some c \<Rightarrow>
          (if docker_endpoint c = None then Err (Sentinel ErrDockerHostNotSet)
           else then_wrap ''load config'' (Load ?pf disk') (\<lambda>cfg.
             Ok (c\<lparr>dc_isCurrent := cfg_CurrentContext cfg = name, dc_encodedName := dg name\<rparr>))))" for name
    using store_inspect_found [OF ok es] dir by (simp add: Inspect_def metaRoot_def)
  have address: "with_index ''tcp://127.0.0.1:'' i \<noteq> ''''" for i by (simp add: with_index_def)
  have "DockerHostFromContext ?pf dg disk' (with_index ''context'' i) = Ok (with_index ''tcp://127.0.0.1:'' i)"
    if "1 \<le> i" "i \<le> n" for i
    using abs [of "with_index ''context'' i"] that address [of i]
    by (simp add: set_up_def DockerHostFromContext_def inspect load docker_endpoint_def test_context_def)
  moreover have "Inspect ?pf dg disk' (with_index ''context'' i) = Err (Sentinel ErrDockerHostNotSet)"
    if "i \<in> {n + 1, n + 2}" for i
    using abs [of "with_index ''context'' i"] that
    by (auto simp: set_up_def inspect docker_endpoint_def test_context_def)
  moreover have "Current ?pf disk' = Ok (if k \<le> n then with_index ''context'' k else ''default'')"
  proof -
    have "with_index ''context'' k \<noteq> ''''" by (simp add: with_index_def)
    with load env show ?thesis
      by (simp add: Current_def getContextFromEnv_def getenv EnvOverrideHost_def EnvOverrideContext_def DefaultContextName_def)
  qed
  ultimately show ?thesis using run by blast
qed

definition json_platform :: "unit platform" where
  "json_platform = demo_platform\<lparr>pf_decode := (\<lambda>t. case jparse t of
     Some (JObj [(k, JStr x)]) \<Rightarrow> Ok (zero_config\<lparr>cfg_CurrentContext := x\<rparr>) | _ \<Rightarrow> Err (Msg ''not modelled''))\<rparr>"

theorem test_contexts_found_witness:
  "\<exists>pf' disk'. SetupTestDockerContexts ''tmp'' json_platform 3 3 (DirN [(''tmp'', DirN [])]) = (Ok pf', disk')
     \<and> DockerHostFromContext pf' demo_digest disk' (with_index ''context'' 2) = Ok ''tcp://127.0.0.1:2''
     \<and> Current pf' disk' = Ok ''context3''"
proof -
  have json: "pf_decode json_platform t = Ok (zero_config\<lparr>cfg_CurrentContext := x\<rparr>)"
    if "jparse t = Some (JObj [(''currentContext'', JStr x)])" for t x
    using that by (simp add: json_platform_def)
  have env: "getenv json_platform v = ''''" for v
    using demo_env [of v] by (simp add: json_platform_def getenv_def)
  have at: "node_at (DirN [(''tmp'', DirN [])]) (path_of ''tmp'') = Inr (DirN [])" by (simp add: path_of_def)
  have "with_index ''tcp://127.0.0.1:'' 2 = ''tcp://127.0.0.1:2''" "with_index ''context'' 3 = ''context3''"
    unfolding with_index_def by code_simp+
  with test_contexts_found [of "''tmp''" "DirN [(''tmp'', DirN [])]" json_platform 3 3 demo_digest, OF _ at env json]
  show ?thesis by fastforce
qed

end
