(* ===== verification/Test_Helpers.thy ===== *)
theory Test_Helpers
  imports Container_Lifecycle Docker_Volume
begin

text \<open>
  The helpers for tests of packages \<open>container\<close>, \<open>network\<close> and \<open>volume\<close> (their files \<open>testing.go\<close>): scheduling the
  removal of a resource for the end of a test. Of \<open>testing.TB\<close> they use \<open>Cleanup\<close>, modelled as the record \<open>tb\<close>
  with its stack of functions, and \<open>require.NoError\<close>, which ends the function that calls it. The memory of the test is the
  store of its containers, by address, next to the clocked world.
\<close>


section \<open>A test and its clean-up functions\<close>

text \<open>How a function of a test ended.\<close>

datatype ended = Passed | FailedNow err | Panicked string

record 's tb =
  tb_cleanups :: "('s \<Rightarrow> ended \<times> 's) list"

definition tb_Cleanup :: "('s \<Rightarrow> ended \<times> 's) \<Rightarrow> 's tb \<Rightarrow> 's tb" where
  "tb_Cleanup f tb = tb\<lparr>tb_cleanups := f # tb_cleanups tb\<rparr>"

text \<open>The end of a test: the last function added is called first, and all are called, however they end.\<close>

fun run_cleanups :: "('s \<Rightarrow> ended \<times> 's) list \<Rightarrow> 's \<Rightarrow> ended list \<times> 's" where
  "run_cleanups [] s = ([], s)"
| "run_cleanups (f # fs) s = (case f s of (e, s1) \<Rightarrow> case run_cleanups fs s1 of (es, s2) \<Rightarrow> (e # es, s2))"

definition noErrorOrIgnored :: "(err option \<Rightarrow> bool) \<Rightarrow> err option \<Rightarrow> ended" where
  "noErrorOrIgnored safe err =
     (if safe err then Passed else case err of None \<Rightarrow> Passed | Some e \<Rightarrow> FailedNow e)"

text \<open>\<open>noErrorOrIgnored(tb, call)\<close>.\<close>

definition judge :: "(err option \<Rightarrow> ended) \<Rightarrow> unit outcome \<Rightarrow> ended" where
  "judge f r = (case r of Ok _ \<Rightarrow> f None | Err e \<Rightarrow> f (Some e) | Panic p \<Rightarrow> Panicked p)"

text \<open>A value of an interface: nil, or holding a pointer, which may be nil.\<close>

definition isNil :: "'a option option \<Rightarrow> bool" where
  "isNil val = (case val of None \<Rightarrow> True | Some p \<Rightarrow> p = None)"

text \<open>The copies of these functions in the packages: the same, with the errors that are safe there.\<close>

definition noErrorOrIgnored_container :: "err option \<Rightarrow> ended" where
  "noErrorOrIgnored_container = noErrorOrIgnored isCleanupSafe_container"

definition noErrorOrIgnored_network :: "err option \<Rightarrow> ended" where
  "noErrorOrIgnored_network = noErrorOrIgnored isCleanupSafe_network"

definition noErrorOrIgnored_volume :: "err option \<Rightarrow> ended" where
  "noErrorOrIgnored_volume = noErrorOrIgnored isCleanupSafe_volume"

definition isNil_volume :: "'a option option \<Rightarrow> bool" where
  "isNil_volume = isNil"

type_synonym ('w, 'h) test_state = "(nat \<Rightarrow> ('w, 'h) container option) \<times> 'w clocked"


section \<open>Containers\<close>

definition container_cleanup ::
    "('o, 'w, 'h) container_env \<Rightarrow> terminate_option list \<Rightarrow> nat \<Rightarrow> ('w, 'h) test_state \<Rightarrow> ended \<times> ('w, 'h) test_state" where
  "container_cleanup env options ctr st =
     (case st of (heap, s) \<Rightarrow> case Terminate_safely env options (heap ctr, s) of
        (r, c, s') \<Rightarrow> (judge noErrorOrIgnored_container r, heap(ctr := c), s'))"

definition Cleanup_container ::
    "('o, 'w, 'h) container_env \<Rightarrow> terminate_option list \<Rightarrow> nat \<Rightarrow> ('w, 'h) test_state tb \<Rightarrow> ('w, 'h) test_state tb" where
  "Cleanup_container env options ctr tb = tb_Cleanup (container_cleanup env options ctr) tb"


section \<open>Networks and volumes\<close>

text \<open>A call on the world that leaves the containers of the test alone.\<close>

definition on_world :: "(err option \<Rightarrow> ended) \<Rightarrow> (unit, 'w) call \<Rightarrow> ('w, 'h) test_state \<Rightarrow> ended \<times> ('w, 'h) test_state" where
  "on_world f call st = (case st of (heap, s) \<Rightarrow> case call s of (r, s') \<Rightarrow> (judge f r, heap, s'))"

definition nil_call :: "(unit, 'w) call" where
  "nil_call s = (Panic ''nil pointer dereference'', s)"

definition Cleanup_network :: "'w network option option \<Rightarrow> ('w, 'h) test_state tb \<Rightarrow> ('w, 'h) test_state tb" where
  "Cleanup_network nw tb =
     tb_Cleanup (\<lambda>st.
       if \<not> isNil nw then on_world noErrorOrIgnored_network (Terminate_network Background (the (the nw))) st
       else (Passed, st)) tb"

definition close_client :: "'w engine option \<Rightarrow> (unit, 'w) call" where
  "close_client c = (case c of None \<Rightarrow> nil_call | Some en \<Rightarrow> en_Close en)"

text \<open>
  \<open>CleanupByID\<close>: when the client cannot be made and the error is not one to ignore, the test ends here; when it
  is one to ignore, the function goes on with a client that is nil.
\<close>

definition client_for_cleanup ::
    "('o, 'w) sdk_env \<Rightarrow> (err option \<Rightarrow> ended) \<Rightarrow> 'w clocked \<Rightarrow> (ended + 'w engine option) \<times> 'w clocked" where
  "client_for_cleanup env f s =
     (case New_client env Background [] s of
        (Ok c, s') \<Rightarrow> (Inr (cl_engine c), s')
      | (Panic p, s') \<Rightarrow> (Inl (Panicked p), s')
      | (Err e, s') \<Rightarrow> ((case f (Some e) of Passed \<Rightarrow> Inr None | x \<Rightarrow> Inl x), s'))"

definition CleanupByID_network ::
    "('o, 'w) sdk_env \<Rightarrow> string \<Rightarrow> ('w, 'h) test_state tb \<Rightarrow> ('w, 'h) test_state \<Rightarrow> ended \<times> ('w, 'h) test_state tb \<times> ('w, 'h) test_state" where
  "CleanupByID_network env ident tb st =
     (case st of (heap, s) \<Rightarrow>
        case client_for_cleanup env noErrorOrIgnored_network s of
          (Inl x, s') \<Rightarrow> (x, tb, heap, s')
        | (Inr dockerClient, s') \<Rightarrow>
            (let nw = \<lparr>nw_response = \<lparr>nr_ID = ident, nr_Warning = []\<rparr>, nw_inspect = zero_inspected,
                       nw_client = dockerClient, nw_driver = '''', nw_name = ''''\<rparr>;
                 tb1 = tb_Cleanup (on_world noErrorOrIgnored_network (close_client dockerClient)) tb
             in (Passed, Cleanup_network (Some (Some nw)) tb1, heap, s')))"

definition Cleanup_volume :: "'w sdk_volume option option \<Rightarrow> ('w, 'h) test_state tb \<Rightarrow> ('w, 'h) test_state tb" where
  "Cleanup_volume v tb =
     tb_Cleanup (\<lambda>st.
       if \<not> isNil_volume v then on_world noErrorOrIgnored_volume (Terminate_volume Background [] (the (the v))) st
       else (Passed, st)) tb"

text \<open>The synthetic volume has a client that may be nil, which its \<open>Terminate\<close> calls.\<close>

definition CleanupByID_volume ::
    "('o, 'w) sdk_env \<Rightarrow> string \<Rightarrow> ('w, 'h) test_state tb \<Rightarrow> ('w, 'h) test_state \<Rightarrow> ended \<times> ('w, 'h) test_state tb \<times> ('w, 'h) test_state" where
  "CleanupByID_volume env ident tb st =
     (case st of (heap, s) \<Rightarrow>
        case client_for_cleanup env noErrorOrIgnored_volume s of
          (Inl x, s') \<Rightarrow> (x, tb, heap, s')
        | (Inr dockerClient, s') \<Rightarrow>
            (let tb1 = tb_Cleanup (on_world noErrorOrIgnored_volume (close_client dockerClient)) tb
             in (Passed,
                 (case dockerClient of
                    None \<Rightarrow> tb_Cleanup (on_world noErrorOrIgnored_volume nil_call) tb1
                  | Some en \<Rightarrow> Cleanup_volume (Some (Some \<lparr>sv_Volume = \<lparr>vo_Name = ident, vo_Labels = None\<rparr>, sv_client = en\<rparr>)) tb1),
                 heap, s')))"


section \<open>What the end of a test does\<close>

lemma judge_safe: "judge noErrorOrIgnored_container r = Passed \<longleftrightarrow>
    r = Ok () \<or> (\<exists>e. r = Err e \<and> isCleanupSafe_container (Some e))"
  by (cases r) (auto simp: judge_def noErrorOrIgnored_container_def noErrorOrIgnored_def isCleanupSafe_container_def isCleanupSafe_def)

lemma run_cleanups_append:
  "run_cleanups (fs @ gs) s = (case run_cleanups fs s of (es, s1) \<Rightarrow> case run_cleanups gs s1 of (es', s2) \<Rightarrow> (es @ es', s2))"
  by (induction fs arbitrary: s) (auto split: prod.splits)

text \<open>
  The clean-up functions of the containers at \<open>ps\<close>, called from the world \<open>s\<close> to the world \<open>s'\<close>: every container is
  terminated once, in that order, each in the world that the one before it left, whatever came of that.
\<close>

fun all_terminated ::
    "('o, 'w, 'h) container_env \<Rightarrow> terminate_option list \<Rightarrow> nat list \<Rightarrow> (nat \<Rightarrow> ('w, 'h) container option)
       \<Rightarrow> (nat \<Rightarrow> ('w, 'h) container option) \<Rightarrow> ended list \<Rightarrow> 'w clocked \<Rightarrow> 'w clocked \<Rightarrow> bool" where
  "all_terminated env options [] heap heap' es s s' \<longleftrightarrow> es = [] \<and> s' = s"
| "all_terminated env options (p # ps) heap heap' es s s' \<longleftrightarrow>
     (\<exists>r s1 es1. Terminate_safely env options (heap p, s) = (r, heap' p, s1)
        \<and> es = judge noErrorOrIgnored_container r # es1 \<and> all_terminated env options ps heap heap' es1 s1 s')"

lemma cleanups_of_containers:
  "tb_cleanups (fold (Cleanup_container env options) ps tb) =
     map (container_cleanup env options) (rev ps) @ tb_cleanups tb"
  by (induction ps arbitrary: tb) (simp_all add: Cleanup_container_def tb_Cleanup_def)

lemma cleanups_terminate:
  assumes "distinct ps" and "run_cleanups (map (container_cleanup env options) ps) (heap, s) = (es, heap', s')"
  shows "all_terminated env options ps heap heap' es s s' \<and> (\<forall>p. p \<notin> set ps \<longrightarrow> heap' p = heap p)"
  using assms
proof (induction ps arbitrary: heap s es)
  case (Cons p ps)
  obtain r c s1 where t: "Terminate_safely env options (heap p, s) = (r, c, s1)" by (cases "Terminate_safely env options (heap p, s)")
  then have here: "container_cleanup env options p (heap, s) = (judge noErrorOrIgnored_container r, heap(p := c), s1)"
    by (simp add: container_cleanup_def)
  obtain es1 where rest: "run_cleanups (map (container_cleanup env options) ps) (heap(p := c), s1) = (es1, heap', s')"
    and es: "es = judge noErrorOrIgnored_container r # es1"
    using Cons.prems(2) by (auto simp: here split: prod.splits)
  have same: "all_terminated env options qs (heap(p := c)) heap' es1 s1 s' = all_terminated env options qs heap heap' es1 s1 s'"
    if "p \<notin> set qs" for qs es1 s1
    using that by (induction qs arbitrary: es1 s1) auto
  from Cons.IH [OF _ rest] Cons.prems(1) have all: "all_terminated env options ps (heap(p := c)) heap' es1 s1 s'"
    and others: "\<forall>q. q \<notin> set ps \<longrightarrow> heap' q = (heap(p := c)) q"
    unfolding distinct.simps by blast+
  from all same [of ps] Cons.prems(1) have "all_terminated env options ps heap heap' es1 s1 s'" by simp
  with others Cons.prems(1) t es show ?case by auto
qed auto

text \<open>The words that \<open>Terminate\<close> puts before an error do not change whether a clean-up ignores it.\<close>

lemma terminate_wrap_safe: "cleanup_safe ''container'' (wrapf ''terminate'' e) = cleanup_safe ''container'' e"
proof -
  have words: "errAlreadyInProgress ''container'' (''terminate: '' @ t) = errAlreadyInProgress ''container'' t" for t
    by simp
  have "cleanup_safe ''container'' e = by_class ''container'' e (cleanup_safe ''container'' e)"
    by (cases e) (simp_all add: by_class_def)
  then show ?thesis using words [of "err_text e"] by (auto simp: by_class_def split: if_splits)
qed

lemma Terminate_safely_passed:
  assumes "Terminate_safely env options (Some c, s) = (r, co, s1)" and "judge noErrorOrIgnored_container r = Passed"
  shows "\<exists>r0 c'. Terminate env Background options (c, s) = (r0, (c', s1)) \<and> co = Some c'
     \<and> (r0 = Ok () \<or> (\<exists>e. r0 = Err e \<and> isCleanupSafe_container (Some e)))"
proof -
  obtain r0 c' s2 where t: "Terminate env Background options (c, s) = (r0, (c', s2))"
    by (cases "Terminate env Background options (c, s)") auto
  have "r0 = Ok () \<or> (\<exists>e. r0 = Err e \<and> isCleanupSafe_container (Some e))"
  proof (cases r0)
    case (Err e)
    have "isCleanupSafe_container (Some e)"
    proof (rule ccontr)
      assume not: "\<not> isCleanupSafe_container (Some e)"
      with assms(1) t Err have "r = Err (wrapf ''terminate'' e)" by (simp add: Terminate_safely_def)
      with assms(2) judge_safe have "isCleanupSafe_container (Some (wrapf ''terminate'' e))" by blast
      with not terminate_wrap_safe show False by (simp only: isCleanupSafe_container_def isCleanupSafe_def option.case)
    qed
    with Err show ?thesis by simp
  next
    case (Panic p)
    with assms t show ?thesis by (auto simp: Terminate_safely_def judge_def)
  qed simp
  moreover have "co = Some c'" "s1 = s2" using assms(1) t by (cases r0; simp add: Terminate_safely_def)+
  ultimately show ?thesis using t by blast
qed

lemma all_terminated_each:
  assumes "all_terminated env options ps heap heap' es s s'" and "\<forall>e \<in> set es. e = Passed"
    and "p \<in> set ps" and "heap p = Some c"
  shows "\<exists>s1 r c' s2. Terminate env Background options (c, s1) = (r, (c', s2)) \<and> heap' p = Some c'
     \<and> (r = Ok () \<or> (\<exists>e. r = Err e \<and> isCleanupSafe_container (Some e)))"
  using assms
proof (induction ps arbitrary: es s)
  case (Cons q ps)
  from Cons.prems(1) obtain r s1 es1 where t: "Terminate_safely env options (heap q, s) = (r, heap' q, s1)"
    and es: "es = judge noErrorOrIgnored_container r # es1" and rest: "all_terminated env options ps heap heap' es1 s1 s'" by auto
  show ?case
  proof (cases "p = q")
    case True
    with Cons.prems(4) t have "Terminate_safely env options (Some c, s) = (r, heap' p, s1)" by simp
    from Terminate_safely_passed [OF this] Cons.prems(2) es show ?thesis by (simp del: split_paired_Ex) blast
  next
    case False
    with Cons.IH [OF rest] Cons.prems es show ?thesis by auto
  qed
qed simp

text \<open>When the termination reports nothing, the daemon accepted the removal.\<close>

lemma Terminate_removed:
  assumes "Terminate env ctx options (c, s) = (Ok (), (c', s'))"
  shows "\<exists>t t'. en_ContainerRemove (ctr_engine c) ctx (container_ID c) by_force t = (Ok (), t')"
  using Terminate_steps [OF assms refl] by metis

text \<open>
  C37: the containers of a test. When \<open>Cleanup\<close> is called for each of some containers, then at the end of the test, in
  whatever state the test left them, the termination of all of them is run, in the reverse order, each whatever became
  of the ones before. When the test passes its clean-up, every one of these terminations reported no error, and then the
  daemon accepted the removal of this very container, or reported an error that \<open>isCleanupSafe\<close> ignores: one with a
  not-found error or a removal in progress in it, which may hide another failure that is joined to it
  (\<open>isCleanupSafe_iff\<close>). The containers stay the ones they were.
\<close>

theorem test_cleanup_terminates:
  assumes "distinct ps" and "tb = fold (Cleanup_container env options) ps \<lparr>tb_cleanups = []\<rparr>"
    and "run_cleanups (tb_cleanups tb) (heap, s) = (es, heap', s')"
  shows "all_terminated env options (rev ps) heap heap' es s s'
     \<and> ((\<forall>e \<in> set es. e = Passed) \<longrightarrow> (\<forall>p \<in> set ps. \<forall>c. heap p = Some c \<longrightarrow>
          (\<exists>s1 r b s2. Terminate env Background options (c, s1) = (r, (Running b c, s2)) \<and> heap' p = Some (Running b c)
             \<and> (r = Ok () \<and> (\<exists>t t'. en_ContainerRemove (ctr_engine c) Background (container_ID c) by_force t = (Ok (), t'))
                \<or> (\<exists>e. r = Err e \<and> isCleanupSafe_container (Some e))))))"
proof -
  have "run_cleanups (map (container_cleanup env options) (rev ps)) (heap, s) = (es, heap', s')"
    using assms(2,3) cleanups_of_containers [of env options ps "\<lparr>tb_cleanups = []\<rparr>"] by simp
  with assms(1) have all: "all_terminated env options (rev ps) heap heap' es s s'"
    using cleanups_terminate [of "rev ps" env options heap s es heap' s'] by simp
  have same: "\<exists>b. c' = Running b c" if "Terminate env Background options (c, s1) = (r, (c', s2))" for c s1 r c' s2
    using Terminate_keeps [of "(c, s1)" env Background options] that by (auto simp: only_running_def)
  have "\<exists>s1 r b s2. Terminate env Background options (c, s1) = (r, (Running b c, s2)) \<and> heap' p = Some (Running b c)
             \<and> (r = Ok () \<and> (\<exists>t t'. en_ContainerRemove (ctr_engine c) Background (container_ID c) by_force t = (Ok (), t'))
                \<or> (\<exists>e. r = Err e \<and> isCleanupSafe_container (Some e)))"
    if passed: "\<forall>e \<in> set es. e = Passed" and p: "p \<in> set ps" and c: "heap p = Some c" for p c
  proof -
    from p have "p \<in> set (rev ps)" by simp
    from all_terminated_each [OF all passed this c] obtain s1 r c' s2
      where t: "Terminate env Background options (c, s1) = (r, (c', s2))" "heap' p = Some c'"
        and r: "r = Ok () \<or> (\<exists>e. r = Err e \<and> isCleanupSafe_container (Some e))" by (elim exE conjE)
    from same [OF t(1)] obtain b where c': "c' = Running b c" by blast
    from r have "r = Ok () \<and> (\<exists>t t'. en_ContainerRemove (ctr_engine c) Background (container_ID c) by_force t = (Ok (), t'))
        \<or> (\<exists>e. r = Err e \<and> isCleanupSafe_container (Some e))"
      using Terminate_removed [of env Background options c s1 c' s2] t(1) by blast
    with t c' show ?thesis by blast
  qed
  with all show ?thesis by blast
qed

theorem test_cleanup_terminates_witness:
  "\<exists>es heap' s'. run_cleanups (tb_cleanups (fold (Cleanup_container demo_env []) [0, 1] \<lparr>tb_cleanups = []\<rparr>))
       ([0 \<mapsto> demo_container demo_engine], (0, ())) = (es, heap', s') \<and> es = [Passed, Passed]
     \<and> (\<exists>s1 r b s2. Terminate demo_env Background [] (demo_container demo_engine, s1) = (r, (Running b (demo_container demo_engine), s2))
          \<and> heap' 0 = Some (Running b (demo_container demo_engine)))"
proof -
  let ?c = "demo_container demo_engine :: (unit, unit) container"
  have t: "fst (Terminate demo_env Background [] (?c, s)) = Ok ()" for s
    by (simp add: Terminate_def NewTerminateOptions_def NewStopOptions_def Stop_container_def hook_defs
        applyLifecycleHooks_def demo_container_def reading_def running_def Running_def ctr_engine_def container_ID_def
        keep_err_def isCleanupSafe_container_def isCleanupSafe_def Cleanup_volumes_def Let_def
        demo_engine_def of_err_def errors_join_def split: prod.splits)
  obtain c' s1 where t1: "Terminate demo_env Background [] (?c, (0, ())) = (Ok (), (c', s1))"
    using t [of "(0, ())"] by (cases "Terminate demo_env Background [] (?c, (0, ()))") auto
  then have run: "run_cleanups (tb_cleanups (fold (Cleanup_container demo_env []) [0, 1] \<lparr>tb_cleanups = []\<rparr>)) ([0 \<mapsto> ?c], (0, ()))
      = ([Passed, Passed], [0 \<mapsto> c'](1 := None), s1)"
    by (simp add: cleanups_of_containers Cleanup_container_def tb_Cleanup_def container_cleanup_def Terminate_safely_def judge_def
        noErrorOrIgnored_container_def noErrorOrIgnored_def isCleanupSafe_container_def isCleanupSafe_def fun_upd_twist)
  have "distinct [0, 1 :: nat]" by simp
  from test_cleanup_terminates [OF this refl run] run show ?thesis by (auto simp del: split_paired_Ex)
qed

text \<open>
  \<open>CleanupByID\<close> removes the network before it closes the client that it made, whether or not the removal worked, and
  then leaves the rest to the functions added before. But when the client cannot be made, for an error that a clean-up
  ignores, it goes on with a nil client, which makes the end of the test panic.
\<close>

lemma CleanupByID_network_order:
  assumes "New_client env Background [] s = (Ok c, s1)" and "cl_engine c = Some en"
  shows "\<exists>tb'. CleanupByID_network env ident tb (heap, s) = (Passed, tb', heap, s1)
     \<and> (\<forall>heap2 s2 r s3 q s4. en_NetworkRemove en Background ident s2 = (r, s3) \<longrightarrow> en_Close en s3 = (q, s4) \<longrightarrow>
          run_cleanups (tb_cleanups tb') (heap2, s2) =
            (case run_cleanups (tb_cleanups tb) (heap2, s4) of
               (es, st) \<Rightarrow> (judge noErrorOrIgnored_network (case r of Err e \<Rightarrow> Err (wrapf ''terminate network'' e) | _ \<Rightarrow> r)
                             # judge noErrorOrIgnored_network q # es, st)))"
  using assms
  by (auto simp: CleanupByID_network_def client_for_cleanup_def Let_def Cleanup_network_def tb_Cleanup_def on_world_def
      close_client_def Terminate_network_def network_ID_def st_wrap_def isNil_def split: outcome.splits prod.splits)

lemma CleanupByID_nil_client:
  assumes "New_client env Background [] s = (Err e, s1)" and "cleanup_safe what e" and "what = ''network''"
  shows "\<exists>tb'. CleanupByID_network env ident tb (heap, s) = (Passed, tb', heap, s1)
     \<and> Panicked ''nil pointer dereference'' \<in> set (fst (run_cleanups (tb_cleanups tb') st))"
  using assms
  by (cases st) (auto simp: CleanupByID_network_def client_for_cleanup_def Let_def Cleanup_network_def tb_Cleanup_def on_world_def
      close_client_def nil_call_def Terminate_network_def noErrorOrIgnored_network_def noErrorOrIgnored_def isCleanupSafe_network_def isCleanupSafe_def isNil_def
      judge_def split: prod.splits)

end
