(* ===== verification/Spec2Isabelle.thy ===== *)
theory Spec2Isabelle
  imports Docker_Context Docker_Network Docker_Volume Durable_Startup Wait_All Docker_Image Container_Run
    Container_Options Container_Returns Run_Returns Pull_Credentials
    Config_Concurrency Client_Concurrency Legacy_Adapters Context_Testing Test_Helpers
begin

text \<open>
  A model of the Docker SDK for Go: the packages \<open>config\<close>, \<open>context\<close>, \<open>client\<close>, \<open>network\<close>, \<open>volume\<close>,
  \<open>image\<close> and \<open>container\<close> (with \<open>container/exec\<close> and \<open>container/wait\<close>) as definitions, and the theorems
  that say what they guarantee. Paths below are relative to the root of the repository.

  \<^bold>\<open>The program.\<close> A caller builds a container with \<open>container.Run\<close> and a list of options. \<open>Run\<close> applies the
  options to a definition, validates it, runs the hooks before creation, which ask the daemon for the
  networks and fill in the request, substitutes the image, has the daemon create the container, connects
  the other networks, runs the hooks after creation and starts the container; starting runs the hooks that
  copy files, wait until the container is ready with a strategy of \<open>container/wait\<close>, and run commands.
  Stop and terminate run their hooks and ask the daemon. Images are pulled and built by package \<open>image\<close>
  with the credentials that package \<open>config\<close> finds; package \<open>client\<close> wraps the Moby client, whose host it
  finds through package \<open>context\<close>.

  \<^bold>\<open>Conventions.\<close> A Go call that may fail returns an \<open>outcome\<close>: \<open>Ok\<close>, \<open>Err\<close> with an error value that can be
  unwrapped and joined, or \<open>Panic\<close>. A call with effects takes the world and returns it changed; what the
  daemon does is the record \<open>engine\<close> of functions on the world, so that a theorem for every engine is a
  theorem for every daemon. Calls that wait take a context and a world with a clock in milliseconds
  (\<open>'w clocked\<close>; the timeout for stopping is in nanoseconds, an \<open>int\<close>). A nil map or slice that the
  code tells from an empty one is \<open>None\<close>; a map that is ranged over is a list of its entries or comes with
  the order of that range as a parameter. Strings are byte strings; \<open>%q\<close> is modelled for printable ASCII.
  Files are a tree without links and permissions (\<open>File_Tree\<close>); readers of files do not fail. A typed nil
  pointer in an interface is \<open>None\<close>; the trees that \<open>Walk\<close> is given have none. The numbers of a JSON text keep their
  text, where Go makes a \<open>float64\<close> of those in the additional fields of a context; as these fields are JSON values,
  writing them does not fail. Indices in the names of durable scripts are unbounded, where \<open>fmt.Sscanf\<close> would refuse
  one beyond 64 bits. The environment of a definition is the list of the entries of a map, sorted by their keys.

  \<^bold>\<open>Theories.\<close>
  \<^item> \<open>Go_Prelude\<close>: errors, outcomes and the functions of the standard library that the SDK uses, with the
    lemma collections \<open>outcome_simps\<close>, \<open>string_simps\<close> and \<open>err_simps\<close>. \<open>File_Tree\<close>: files, with the locale
    \<open>file_store\<close> (what is read after a write) and its interpretation. \<open>Json_Codec\<close>: JSON values, printing and
    parsing with the round trip. \<open>Go_Url\<close>: parsing of URLs.
  \<^item> \<open>Registry_Auth\<close>, \<open>Docker_Config\<close>, \<open>Config_Concurrency\<close>: package \<open>config\<close>. The sequential theory has the
    resolution of credentials (stored, base64, helpers), the cache with its invariant, proxies, loading and
    saving; the concurrent one has the interleavings of goroutines that use one cache.
    \<open>Legacy_Adapters\<close>: the conversions of package \<open>legacyadapters/config\<close>.
  \<^item> \<open>Docker_Context\<close>: package \<open>context\<close>. The store of contexts on disk refines a map from names to contexts;
    any file \<open>meta.json\<close> that decodes to a context adds it (\<open>entry_refines\<close>). \<open>Context_Testing\<close>: its test helper, which
    writes such files itself.
  \<^item> \<open>Docker_Engine\<close>: the calls of the Moby client as a record of parameters. \<open>Sdk_Errors\<close>: the sorting of
    errors. \<open>Sdk_Client\<close>: package \<open>client\<close>; \<open>Client_Concurrency\<close>: goroutines that call
    \<open>Info\<close> on one client, with the mutual exclusion of its locked part and the race on the fields outside it.
  \<^item> \<open>Docker_Network\<close>, \<open>Docker_Volume\<close>: packages \<open>network\<close> and \<open>volume\<close>.
  \<^item> \<open>Image_Dockerfile\<close>, \<open>Docker_Image\<close>: package \<open>image\<close>. The retries of package backoff are the relation
    \<open>retried\<close>: waits of 250 milliseconds to 90 seconds, for fifteen minutes, unless the context is done. That the
    package keeps it (\<open>retries\<close>) is the hypothesis of the theorems; \<open>patient\<close>, a try every 90 seconds, satisfies it.
  \<^item> \<open>Wait_Core\<close>, \<open>Wait_Strategies\<close>, \<open>Wait_Ports\<close>, \<open>Wait_All\<close>: package \<open>container/wait\<close>. A strategy is a
    loop of rounds on the clock; the locale \<open>waiting\<close> states that a strategy comes back, and is
    interpreted on every one of them; groups rest on these interpretations. The relations \<open>seen\<close> and \<open>waited\<close>
    order what a strategy saw before it came back.
  \<^item> \<open>Exec_Process\<close>: package \<open>container/exec\<close>. \<open>Durable_Startup\<close>: \<open>container/durable_startup.go\<close>.
  \<^item> \<open>Container_Definition\<close>: the definition, the options, the sets of hooks. \<open>Container_Core\<close>: the container,
    its inspection, ports, logs, files and commands; \<open>target_of\<close> makes it the target of a strategy.
    \<open>Container_Lifecycle\<close>: running the hooks; start, stop, terminate. The locale \<open>collecting\<close> is about
    operations that run one after the other and keep a relation. \<open>Container_Run\<close>: creation. \<open>Test_Helpers\<close>: the clean-up
    of containers, networks and volumes at the end of a test.
  \<^item> \<open>Container_Options\<close>: all options of \<open>container/options.go\<close> as one predicate, and the form of the
    definitions that they make. \<open>Container_Returns\<close>, \<open>Run_Returns\<close>: the operations on a container and its creation
    come back, by rules for \<open>comes\<close>, which carry an invariant through the calls in the order of the code; a creation
    also when it makes its client by \<open>client.New\<close>.
    \<open>Pull_Credentials\<close>: from the configuration on disk to the credentials that the daemon is asked with. The sections of this theory
    join the parts: a container from its creation to its removal, a context from its creation to the client.

  \<^bold>\<open>Loops.\<close> The recursion of the model is structural or has a measure, except for polling, which may go on
  for ever: \<open>poll\<close> takes the rounds that fit before the deadline of its context and is \<open>never_returns\<close>
  when there is no deadline and no round answers, so that coming back is a statement of its own
  (\<open>WaitUntilReady_returns\<close> for the strategies, \<open>operations_return\<close> and \<open>Run_returns\<close> for containers).

  \<^bold>\<open>Parameters.\<close> Regular expressions, x509, the HTTP and SQL clients, dialing, \<open>url.JoinPath\<close>, the Moby
  parsers of ports, port specifications and platforms, \<open>netip\<close>, the deep merge of \<open>mergo\<close>, the archive of a
  build context, the tar encoding of a header, \<open>jsonmessage\<close>, \<open>stdcopy\<close>, \<open>ParseNormalizedNamed\<close>, the credential
  helper processes and the JSON form of the whole configuration.

  \<^bold>\<open>Not modelled.\<close> The Moby client itself; loggers beyond what is logged in the calls modelled; locks,
  except those of the cache of \<open>config\<close>; a body or reader that is shared between calls (the build context is
  named by a string); changes that a hook of the user makes in place to the labels of the definition after
  they were copied into the request; the target \<open>NopStrategyTarget\<close> of tests, whose answers hold nil pointers;
  \<open>container/log\<close>; the version strings that no operation uses.
\<close>

section \<open>From creation to removal\<close>

text \<open>
  C1: nothing is left behind. Whatever container \<open>Run\<close> returned, with or without an error, and whatever was then
  done with it, in any order and with any outcome: when it is terminated without an error, the very container
  that the daemon created in that run is gone, that is, every fact about the world that its removal brings about
  holds at the end, unless a hook for a terminated container or the removal of a volume undoes it.
\<close>

theorem created_then_removed:
  assumes run: "Run env ctx opts s = (r, Some c, s1)"
    and used: "operated env (c, s1) (c2, s2)"
    and terminated: "Terminate env ctx' opts' (c2, s2) = (Ok (), (c3, s3))"
    and request: "run_request env ctx opts s = (Ok (cli, def, req), t1)" "cr_Config req = Some cfg"
    and made: "en_ContainerCreate (sk_engine cli) ctx (labelled (se_version (ce_sdk env)) cfg req) t1 = (Ok i, t2)"
    and remove: "\<And>u v. en_ContainerRemove (sk_engine cli) ctx' i by_force u = (Ok (), v) \<Longrightarrow> gone v"
    and hooks: "\<And>hs h b u b' v. hs \<in> set (df_lifecycleHooks def) \<Longrightarrow> h \<in> set (PostTerminates hs) \<Longrightarrow>
          run_hook env ctx' h (Running b c, u) = (Ok (), (Running b' c, v)) \<Longrightarrow> gone u \<Longrightarrow> gone v"
    and volumes: "\<And>vol u v. en_VolumeRemove (sk_engine cli) (sp_ctx (tm_StopOptions (NewTerminateOptions ctx' opts'))) vol True u = (Ok (), v) \<Longrightarrow>
          gone u \<Longrightarrow> gone v"
  shows "gone s3 \<and> c3 = Running False c \<and> container_ID c = i"
proof -
  from run obtain cli' def' req' cfg' u1 u2 where "run_request env ctx opts s = (Ok (cli', def', req'), u1)" "cr_Config req' = Some cfg'"
    "en_ContainerCreate (sk_engine cli') ctx (labelled (se_version (ce_sdk env)) cfg' req') u1 = (Ok (container_ID c), u2)"
    and c': "ct_dockerClient c = cli'" "ct_lifecycleHooks c = df_lifecycleHooks def'"
    by (rule Run_made)
  with request made have c: "ct_dockerClient c = cli" "container_ID c = i" "ct_lifecycleHooks c = df_lifecycleHooks def" by auto
  from operated_keeps [OF used] obtain b where c2: "c2 = Running b c" by (auto simp: only_running_def)
  have en: "ctr_engine c2 = sk_engine cli" using c(1) c2 by (simp add: ctr_engine_def)
  have "gone s3"
    by (rule Terminate_gone [OF terminated refl, where gone = gone])
      (use remove hooks volumes c c2 en in \<open>simp_all del: run_hook.simps\<close>)
  moreover have "c3 = Running False c" using Terminate_steps [OF terminated refl] c2 by (metis Pair_inject Running_simps(1))
  ultimately show ?thesis using c(2) by blast
qed

definition removing_sdk_env :: "(nat, string list) sdk_env" where
  "removing_sdk_env = \<lparr>se_platform = demo_platform, se_digest = demo_digest, se_disk = demo_disk,
     se_env_parse = Ok, se_api_new = (\<lambda>_. Ok removing_engine), se_inAContainer = False, se_version = ''1''\<rparr>"

definition removing_image_env :: "(nat, string list) image_env" where
  "removing_image_env = \<lparr>ie_sdk = removing_sdk_env, ie_encode = (\<lambda>a. Ok (ac_Username a @ '':'' @ ac_Password a)),
     ie_display = (\<lambda>_ _ s. (Ok (), s)), ie_stdout = (\<lambda>_ s. (Ok (), s)), ie_unmarshal = (\<lambda>_. None),
     ie_range = (\<lambda>_. []), ie_retry = patient, ie_abs = Ok, ie_ignore = (\<lambda>_. ([], None)),
     ie_tar = (\<lambda>_ _ _. Ok ''tar''), ie_close = (\<lambda>_ s. s)\<rparr>"

definition removing_env :: "(nat, string list, unit) container_env" where
  "removing_env =
     \<lparr>ce_image = removing_image_env, ce_wait = demo_wait_lib, ce_StdCopy = (\<lambda>r. (fst r, '''', snd r)),
      ce_platforms_Parse = (\<lambda>_. Err (Msg ''unknown'')), ce_IsContainer = (\<lambda>_. False),
      ce_ParsePortSpecs = (\<lambda>_. Ok \<lparr>ps_ports = [], ps_bindings = []\<rparr>), ce_ParseAddr = Ok, ce_JoinPath = (\<lambda>a b. Ok (a @ b)),
      ce_tar_header = (\<lambda>_ _. None), ce_definition_hook = (\<lambda>_ _ d s. (Ok (), d, s)),
      ce_container_hook = (\<lambda>_ _ c s. (Ok (), True, s))\<rparr>"

definition removing_options :: "(string list, unit) customizer list" where
  "removing_options = [WithImage ''alpine'', WithClient (Some \<lparr>sk_engine = removing_engine, sk_log = discard_logger\<rparr>)]"

lemma removing_request:
  "\<exists>cli def req cfg t1. run_request removing_env Background removing_options (0, []) = (Ok (cli, def, req), t1)
     \<and> cr_Config req = Some cfg \<and> sk_engine cli = removing_engine \<and> df_lifecycleHooks def = [standard_hooks [] []]
     \<and> en_ContainerCreate (sk_engine cli) Background (labelled (se_version (ce_sdk removing_env)) cfg req) t1
         = (Ok ''0123456789abcdef'', t1)"
  by (simp add: creation_defs removing_options_def removing_env_def removing_engine_def demo_engine_def discard_logger_def)

lemma removing_life:
  "\<exists>c s1 r2 c2 s2 c3 s3. Run removing_env Background removing_options (0, []) = (Ok (), Some c, s1)
     \<and> perform removing_env (DoStop Background []) (c, s1) = (r2, c2, s2)
     \<and> Terminate removing_env Background [] (c2, s2) = (Ok (), (c3, s3))
     \<and> ct_logger c = discard_logger"
  by (simp add: creation_defs removing_options_def removing_env_def removing_engine_def demo_engine_def discard_logger_def
      Stop_container_def NewStopOptions_def Terminate_def NewTerminateOptions_def keep_err_def isCleanupSafe_container_def
      isCleanupSafe_def Cleanup_volumes_def of_err_def)

theorem created_then_removed_witness:
  "\<exists>c s1 c2 s2 c3 s3. Run removing_env Background removing_options (0, []) = (Ok (), Some c, s1)
     \<and> operated removing_env (c, s1) (c2, s2) \<and> Terminate removing_env Background [] (c2, s2) = (Ok (), (c3, s3))
     \<and> ''container 0123456789abcdef'' \<in> set (snd s3)"
proof -
  obtain c s1 r2 c2 s2 c3 s3 where run: "Run removing_env Background removing_options (0, []) = (Ok (), Some c, s1)"
    and stop: "perform removing_env (DoStop Background []) (c, s1) = (r2, c2, s2)"
    and terminated: "Terminate removing_env Background [] (c2, s2) = (Ok (), (c3, s3))" and logger: "ct_logger c = discard_logger"
    using removing_life by blast
  obtain cli def req cfg t1 where request: "run_request removing_env Background removing_options (0, []) = (Ok (cli, def, req), t1)"
    "cr_Config req = Some cfg" and cli: "sk_engine cli = removing_engine" and hooks: "df_lifecycleHooks def = [standard_hooks [] []]"
    and made: "en_ContainerCreate (sk_engine cli) Background (labelled (se_version (ce_sdk removing_env)) cfg req) t1
         = (Ok ''0123456789abcdef'', t1)"
    using removing_request by blast
  have used: "operated removing_env (c, s1) (c2, s2)" by (rule operated.performs [OF operated.begins stop])
  have "''container 0123456789abcdef'' \<in> set (snd s3) \<and> c3 = Running False c \<and> container_ID c = ''0123456789abcdef''"
  proof (rule created_then_removed [OF run used terminated request made,
        where gone = "\<lambda>s. ''container 0123456789abcdef'' \<in> set (snd s)"])
    fix hs h b u b' v
    assume "hs \<in> set (df_lifecycleHooks def)" "h \<in> set (PostTerminates hs)"
      "run_hook removing_env Background h (Running b c, u) = (Ok (), (Running b' c, v))" "''container 0123456789abcdef'' \<in> set (snd u)"
    then show "''container 0123456789abcdef'' \<in> set (snd v)"
      using logger by (auto simp: hooks discard_logger_def no_hooks_def DefaultLoggingHook_def defaultPreCreateHook_def
        defaultCopyFileToContainerHook_def defaultReadinessHook_def)
  qed (auto simp: cli removing_engine_def)
  with run used terminated show ?thesis by blast
qed


section \<open>From a context to a client\<close>

text \<open>
  C17: a context that was created as the current one decides where clients connect to. On a well-formed
  store and with none of the variables \<open>DOCKER_HOST\<close>, \<open>DOCKER_CONTEXT\<close>, \<open>DOCKER_AUTH_CONFIG\<close> and
  \<open>XDG_RUNTIME_DIR\<close> set, a client that is made without options afterwards has the host and the name of this
  context, and the Moby client was made with the host of the configuration that the SDK derives from it.
\<close>

theorem new_context_reaches_client:
  assumes env: "getenv pf ''DOCKER_AUTH_CONFIG'' = ''''" "getenv pf ''DOCKER_HOST'' = ''''"
      "getenv pf ''DOCKER_CONTEXT'' = ''''" "getenv pf ''XDG_RUNTIME_DIR'' = ''''"
    and store: "metaRoot pf disk = Ok root" "store_ok dg disk root" "hex_name (dg name)"
    and new: "New pf dg name opts disk = (Ok c, disk')"
    and opts: "apply_options opts zero_context_options = Ok o'" "options_printable o'" "co_current o'" "co_host o' \<noteq> ''''"
    and json: "json_keeps_current pf name"
    and client: "se_platform e = pf" "se_digest e = dg" "se_disk e = disk'" "New_client e ctx [] s = (Ok cl, s')"
  shows "cl_dockerHost cl = co_host o' \<and> cl_dockerContext cl = name
     \<and> (schema_of (co_host o') (DefaultSchema pf) \<or> schema_of (co_host o') ''tcp://'')
     \<and> (\<exists>cfg en. newConfig e (co_host o') = Ok cfg \<and> cl_cfg cl = Some cfg \<and> cl_engine cl = Some en
          \<and> (\<exists>tls headers. se_api_new e ([FromEnv, APIVersionNegotiation] @ tls @ [HostOpt (sc_Host cfg), HTTPHeaders headers]) = Ok en))"
proof -
  note now = New_current [OF env store new opts json]
  from client(4) obtain cl1 en where init: "init e zero_client = (Ok (), cl1)" and cl: "cl = cl1"
    by (auto simp: New_client_def st_wrap_Ok_iff split: outcome.splits prod.splits option.splits)
  have zero: "cl_engine (zero_client :: ('a, 'b) sdk_client) = None" "cl_err (zero_client :: ('a, 'b) sdk_client) = None"
    "cl_dockerHost (zero_client :: ('a, 'b) sdk_client) = ''''" "cl_dockerContext (zero_client :: ('a, 'b) sdk_client) = ''''"
    "cl_log (zero_client :: ('a, 'b) sdk_client) \<noteq> None" "cl_dockerOpts (zero_client :: ('a, 'b) sdk_client) = []"
    by (simp_all add: zero_client_def)
  from init_Ok [OF init zero(1,2)] obtain c1 cfg en where dv: "defaultValues e zero_client = Ok c1"
    and cfg: "newConfig e (cl_dockerHost c1) = Ok cfg"
    and api: "se_api_new e (client_opts e cfg (c1\<lparr>cl_cfg := Some cfg\<rparr>)) = Ok en"
    and cl1: "cl1 = c1\<lparr>cl_cfg := Some cfg, cl_engine := Some en\<rparr>" .
  from dv zero now client(1-3) have c1: "parseURL pf (co_host o') = Ok (cl_dockerHost c1)" "cl_dockerContext c1 = name"
    by (auto simp: defaultValues_def Let_def then_wrap_Ok_iff)
  from parseURL_Ok [OF c1(1)] have host: "cl_dockerHost c1 = co_host o'"
    "schema_of (co_host o') (DefaultSchema pf) \<or> schema_of (co_host o') ''tcp://''"
    by (auto simp: TCPSchema_def)
  obtain tls headers where "client_opts e cfg (c1\<lparr>cl_cfg := Some cfg\<rparr>) =
      [FromEnv, APIVersionNegotiation] @ tls @ [HostOpt (sc_Host cfg), HTTPHeaders headers]"
    using that defaultValues_keeps [OF dv] zero(6) newConfig_host [OF cfg] by (simp add: client_opts_def)
  with api have "se_api_new e ([FromEnv, APIVersionNegotiation] @ tls @ [HostOpt (sc_Host cfg), HTTPHeaders headers]) = Ok en" by simp
  with cl cl1 host c1(2) cfg show ?thesis
    by (intro conjI exI [of _ cfg] exI [of _ en] exI [of _ tls] exI [of _ headers]) simp_all
qed

lemma demo_saved_Load:
  assumes "Docker_Config.Load demo_saved disk = Ok cfg"
  shows "\<exists>x p. cfg = zero_config\<lparr>cfg_CurrentContext := x, cfg_filepath := p\<rparr>"
proof -
  have env: "getenv demo_saved ''DOCKER_AUTH_CONFIG'' = ''''"
    by (simp add: getenv_def demo_saved_def demo_platform_def)
  from Load_file [OF env assms] obtain p data where p: "Filepath demo_saved disk = Ok p" "node_at disk p = Inr (FileN data)"
    by metis
  from assms have "cfg = zero_config\<lparr>cfg_CurrentContext := if data = ''{}'' then '''' else data, cfg_filepath := Some p\<rparr>"
    by (simp add: Docker_Config.Load_def env p loadFromFilepath_def read_file_def) (auto simp: demo_saved_def)
  then show ?thesis by blast
qed

lemma demo_saved_json: "json_keeps_current demo_saved ''a''"
  unfolding json_keeps_current_def
  by (auto dest!: demo_saved_Load) (auto simp: demo_saved_def zero_config_def)

lemma demo_saved_env: "getenv demo_saved k = ''''"
  by (simp add: getenv_def demo_saved_def demo_platform_def)

lemma demo_saved_Dir: "file_exists disk [''root'', ''.docker''] \<Longrightarrow> Dir demo_saved disk = Ok [''root'', ''.docker'']"
  by (simp add: Dir_def demo_saved_env getHomeDir_def Let_def) (simp add: demo_saved_def demo_platform_def path_of_def configFileDir_def)

lemma demo_saved_metaRoot: "metaRoot demo_saved demo_disk = Ok demo_root"
  using demo_saved_Dir [of demo_disk]
  by (simp add: metaRoot_def contextsDir_def metadataDir_def file_exists_def demo_disk_def)

definition demo_current :: context_options where
  "demo_current = zero_context_options\<lparr>co_host := ''tcp://h'', co_current := True\<rparr>"

lemma write_file_there: "node_at r p = Inr (FileN d) \<Longrightarrow> \<exists>r'. write_file r p x = Inr r'"
  by (induction r p x rule: write_file.induct) (auto split: option.splits)

lemma demo_saved_New:
  "\<exists>c disk'. New demo_saved demo_digest ''a'' [WithHost ''tcp://h'', AsCurrent] demo_disk = (Ok c, disk')"
proof -
  have ins: "\<exists>e. Inspect demo_saved demo_digest demo_disk ''a'' = Err e"
    by (simp add: Inspect_def demo_saved_metaRoot store_inspect_def demo_list)
  have "\<exists>disk1. store_add demo_digest demo_root (new_context demo_digest ''a'' demo_current) demo_disk
      = (Ok (new_context demo_digest ''a'' demo_current), disk1)
     \<and> node_at disk1 [''root'', ''.docker'', ''config.json''] = Inr (FileN ''{}'')"
    by (simp add: store_add_def new_context_def demo_digest_def demo_disk_def file_exists_def Let_def metaFile_def)
  then obtain disk1 where add: "store_add demo_digest demo_root (new_context demo_digest ''a'' demo_current) demo_disk
      = (Ok (new_context demo_digest ''a'' demo_current), disk1)"
    and config: "node_at disk1 [''root'', ''.docker'', ''config.json''] = Inr (FileN ''{}'')" by blast
  have ex: "file_exists disk1 [''root'', ''.docker'']"
    using file_exists_below [of disk1 "[''root'', ''.docker'']" "[''config.json'']"] config by (simp add: file_exists_def)
  have "Docker_Config.Load demo_saved disk1 = Ok (zero_config\<lparr>cfg_filepath := Some [''root'', ''.docker'', ''config.json'']\<rparr>)"
    using config demo_saved_Dir [OF ex]
    by (simp add: Docker_Config.Load_def Filepath_def demo_saved_env loadFromFilepath_def read_file_def file_exists_def FileName_def)
      (simp add: demo_saved_def zero_config_def)
  then have "\<exists>disk'. set_current demo_saved ''a'' disk1 = (Ok (), disk')"
    using write_file_there [OF config, of "''a''"] by (auto simp: set_current_def Docker_Config.Save_def demo_saved_def)
  with ins add show ?thesis
    by (auto simp: New_def demo_saved_metaRoot WithHost_def AsCurrent_def new_context_def demo_current_def zero_context_options_def)
qed

definition demo_saved_sdk :: "node \<Rightarrow> (nat, unit) sdk_env" where
  "demo_saved_sdk disk = demo_sdk_env\<lparr>se_platform := demo_saved, se_disk := disk\<rparr>"

theorem new_context_reaches_client_witness:
  "\<exists>c disk cl s'. New demo_saved demo_digest ''a'' [WithHost ''tcp://h'', AsCurrent] demo_disk = (Ok c, disk)
     \<and> New_client (demo_saved_sdk disk) Background [] (0, ()) = (Ok cl, s')
     \<and> cl_dockerHost cl = ''tcp://h'' \<and> cl_dockerContext cl = ''a''"
proof -
  obtain c disk where new: "New demo_saved demo_digest ''a'' [WithHost ''tcp://h'', AsCurrent] demo_disk = (Ok c, disk)"
    using demo_saved_New by blast
  have opts: "apply_options [WithHost ''tcp://h'', AsCurrent] zero_context_options = Ok demo_current"
    "options_printable demo_current" "co_current demo_current" "co_host demo_current \<noteq> ''''" "co_host demo_current = ''tcp://h''"
    by (simp_all add: WithHost_def AsCurrent_def demo_current_def options_printable_def zero_context_options_def)
  have hex: "hex_name (demo_digest ''a'')" by (simp add: hex_name_def demo_digest_def)
  note facts = demo_saved_env demo_saved_env demo_saved_env demo_saved_env demo_saved_metaRoot demo_store_ok hex new opts(1-4) demo_saved_json
  have url: "url_parse ''tcp://h'' =
      Ok \<lparr>url_scheme = ''tcp'', url_opaque = '''', url_user = None, url_host = ''h'', url_path = '''', url_query = ''''\<rparr>" by code_simp
  have sdk: "se_platform (demo_saved_sdk disk) = demo_saved" "se_digest (demo_saved_sdk disk) = demo_digest" "se_disk (demo_saved_sdk disk) = disk"
    by (simp_all add: demo_saved_sdk_def demo_sdk_env_def)
  have "CurrentDockerHost demo_saved demo_digest disk = Ok ''tcp://h''"
    using New_current(2) [OF facts] opts(5) url by (simp add: parseURL_def TCPSchema_def)
  then have "\<exists>cl s'. New_client (demo_saved_sdk disk) Background [] (0, ()) = (Ok cl, s')"
    using New_current(1) [OF facts]
    by (simp add: New_client_def init_def defaultValues_def sdk Let_def newConfig_def validate_def zero_client_def)
      (simp add: demo_saved_sdk_def demo_sdk_env_def demo_engine_def defaultHealthCheck_def numeral_3_eq_3)
  then obtain cl s' where cl: "New_client (demo_saved_sdk disk) Background [] (0, ()) = (Ok cl, s')" by blast
  from new_context_reaches_client [OF facts sdk cl] opts(5) new cl show ?thesis by metis
qed

end
